theory Spec2Isabelle
  imports Main "HOL-Library.AList" "HOL-Library.Multiset"
begin


section \<open>Strings\<close>

text \<open>
  The controller works on JavaScript strings. The embedding uses \<open>string\<close>: a character is a
  code point from U+0000 to U+00FF (Basic Latin and Latin-1 Supplement), and the tables below
  are the rows of the Unicode character database for that range.
\<close>

definition isSpace :: "char \<Rightarrow> bool" where
  \<comment> \<open>the characters matched by \<open>\s\<close> and removed by \<open>String.prototype.trim\<close>\<close>
  "isSpace c = (c \<in> set [CHR 0x09, CHR 0x0A, CHR 0x0B, CHR 0x0C, CHR 0x0D, CHR '' '', CHR 0xA0])"

definition trimStart :: "string \<Rightarrow> string" where
  "trimStart s = dropWhile isSpace s"

definition trimEnd :: "string \<Rightarrow> string" where
  \<comment> \<open>the second half of \<open>trim\<close>, named for the proofs\<close>
  "trimEnd s = rev (dropWhile isSpace (rev s))"

definition trim :: "string \<Rightarrow> string" where
  "trim s = rev (dropWhile isSpace (rev (dropWhile isSpace s)))"

definition blank :: "string \<Rightarrow> bool" where
  \<comment> \<open>nothing but white space\<close>
  "blank s = list_all isSpace s"

function collapseSpaces :: "string \<Rightarrow> string" where
  \<comment> \<open>\<open>s.replace(/\s+/g, ' ')\<close>\<close>
  "collapseSpaces [] = []"
| "collapseSpaces (c # cs) =
     (if isSpace c then CHR '' '' # collapseSpaces (dropWhile isSpace cs)
      else c # collapseSpaces cs)"
  by pat_completeness auto
termination
  by (relation "measure length") (auto simp: less_Suc_eq_le length_dropWhile_le)

text \<open>
  \<open>String.prototype.toLowerCase\<close>: the capital letters A to Z, U+00C0 to U+00D6 and U+00D8 to
  U+00DE, each with its small letter 32 code points further; every other character is kept.
\<close>

definition upperChars :: string where
  "upperChars = ''ABCDEFGHIJKLMNOPQRSTUVWXYZ'' @
     [CHR 0xC0, CHR 0xC1, CHR 0xC2, CHR 0xC3, CHR 0xC4, CHR 0xC5, CHR 0xC6, CHR 0xC7,
      CHR 0xC8, CHR 0xC9, CHR 0xCA, CHR 0xCB, CHR 0xCC, CHR 0xCD, CHR 0xCE, CHR 0xCF,
      CHR 0xD0, CHR 0xD1, CHR 0xD2, CHR 0xD3, CHR 0xD4, CHR 0xD5, CHR 0xD6,
      CHR 0xD8, CHR 0xD9, CHR 0xDA, CHR 0xDB, CHR 0xDC, CHR 0xDD, CHR 0xDE]"

definition lowerChars :: string where
  "lowerChars = ''abcdefghijklmnopqrstuvwxyz'' @
     [CHR 0xE0, CHR 0xE1, CHR 0xE2, CHR 0xE3, CHR 0xE4, CHR 0xE5, CHR 0xE6, CHR 0xE7,
      CHR 0xE8, CHR 0xE9, CHR 0xEA, CHR 0xEB, CHR 0xEC, CHR 0xED, CHR 0xEE, CHR 0xEF,
      CHR 0xF0, CHR 0xF1, CHR 0xF2, CHR 0xF3, CHR 0xF4, CHR 0xF5, CHR 0xF6,
      CHR 0xF8, CHR 0xF9, CHR 0xFA, CHR 0xFB, CHR 0xFC, CHR 0xFD, CHR 0xFE]"

definition toLowerChar :: "char \<Rightarrow> char" where
  "toLowerChar c = (case map_of (zip upperChars lowerChars) c of Some l \<Rightarrow> l | None \<Rightarrow> c)"

definition toLowerCase :: "string \<Rightarrow> string" where
  "toLowerCase s = map toLowerChar s"

text \<open>
  \<open>s.normalize('NFKD').replace(/[\u0300-\u036f]/g, '')\<close>, character by character:
  \<open>baseChars\<close> lists the characters of the range whose compatibility decomposition differs
  from the character itself, each with what the decomposition leaves once the combining marks
  U+0300 to U+036F are removed. A letter with an accent leaves its base letter; the no-break
  space and the spacing accents U+00A8, U+00AF, U+00B4 and U+00B8 leave a space; the ordinal
  indicators and the superscript digits leave their letter or digit. Four characters decompose
  to characters beyond U+00FF (the micro sign U+00B5 to the Greek letter mu, the fractions
  U+00BC to U+00BE to digits around the fraction slash U+2044): they are not in the table and
  stand for their own decomposition here.
\<close>

definition baseChars :: "(char \<times> char) list" where
  "baseChars =
     map (\<lambda>c. (c, CHR '' '')) [CHR 0xA0, CHR 0xA8, CHR 0xAF, CHR 0xB4, CHR 0xB8] @
     [(CHR 0xAA, CHR ''a''), (CHR 0xBA, CHR ''o''),
      (CHR 0xB9, CHR ''1''), (CHR 0xB2, CHR ''2''), (CHR 0xB3, CHR ''3'')] @
     map (\<lambda>c. (c, CHR ''A'')) [CHR 0xC0, CHR 0xC1, CHR 0xC2, CHR 0xC3, CHR 0xC4, CHR 0xC5] @
     [(CHR 0xC7, CHR ''C'')] @
     map (\<lambda>c. (c, CHR ''E'')) [CHR 0xC8, CHR 0xC9, CHR 0xCA, CHR 0xCB] @
     map (\<lambda>c. (c, CHR ''I'')) [CHR 0xCC, CHR 0xCD, CHR 0xCE, CHR 0xCF] @
     [(CHR 0xD1, CHR ''N'')] @
     map (\<lambda>c. (c, CHR ''O'')) [CHR 0xD2, CHR 0xD3, CHR 0xD4, CHR 0xD5, CHR 0xD6] @
     map (\<lambda>c. (c, CHR ''U'')) [CHR 0xD9, CHR 0xDA, CHR 0xDB, CHR 0xDC] @
     [(CHR 0xDD, CHR ''Y'')] @
     map (\<lambda>c. (c, CHR ''a'')) [CHR 0xE0, CHR 0xE1, CHR 0xE2, CHR 0xE3, CHR 0xE4, CHR 0xE5] @
     [(CHR 0xE7, CHR ''c'')] @
     map (\<lambda>c. (c, CHR ''e'')) [CHR 0xE8, CHR 0xE9, CHR 0xEA, CHR 0xEB] @
     map (\<lambda>c. (c, CHR ''i'')) [CHR 0xEC, CHR 0xED, CHR 0xEE, CHR 0xEF] @
     [(CHR 0xF1, CHR ''n'')] @
     map (\<lambda>c. (c, CHR ''o'')) [CHR 0xF2, CHR 0xF3, CHR 0xF4, CHR 0xF5, CHR 0xF6] @
     map (\<lambda>c. (c, CHR ''u'')) [CHR 0xF9, CHR 0xFA, CHR 0xFB, CHR 0xFC] @
     [(CHR 0xFD, CHR ''y''), (CHR 0xFF, CHR ''y'')]"

definition baseChar :: "char \<Rightarrow> char" where
  "baseChar c = (case map_of baseChars c of Some b \<Rightarrow> b | None \<Rightarrow> c)"

definition stripDiacritics :: "string \<Rightarrow> string" where
  "stripDiacritics s = map baseChar s"

fun startsWith :: "string \<Rightarrow> string \<Rightarrow> bool" where
  "startsWith s [] = True"
| "startsWith [] (p # ps) = False"
| "startsWith (c # cs) (p # ps) = (c = p \<and> startsWith cs ps)"

fun includesStr :: "string \<Rightarrow> string \<Rightarrow> bool" where
  \<comment> \<open>\<open>s.includes(p)\<close>\<close>
  "includesStr [] p = (p = [])"
| "includesStr (c # cs) p = (startsWith (c # cs) p \<or> includesStr cs p)"

section \<open>Candidates and catalog rows\<close>

datatype EbookSource = gutendex | standardebooks | wikisource | wolnelektury | manybooks

text \<open>
  \<open>ApiEbook\<close>. The field \<open>id\<close> is \<open>book_id\<close> here; \<open>_source\<close> and \<open>_popularity\<close> are
  \<open>src\<close> and \<open>popularity\<close>; an optional field is an \<open>option\<close>.
\<close>

record ApiEbook =
  book_id :: string
  title :: string
  author :: string
  language :: string
  category :: string
  coverUrl :: "string option"
  downloadUrl :: "string option"
  src :: "EbookSource option"
  popularity :: "int option"

text \<open>
  \<open>EbookCatalogItemRow\<close>. Columns whose names the candidate record already uses carry
  the suffix \<open>_col\<close>; timestamps are milliseconds.
\<close>

record EbookCatalogItemRow =
  id_col :: string
  lang_code :: string
  title_col :: string
  author_col :: string
  category_col :: string
  cover_url :: "string option"
  download_url :: string
  source :: string
  source_id :: "string option"
  source_popularity :: "int option"
  author_norm :: string
  title_norm :: string
  updated_at :: nat
  last_seen_at :: nat

section \<open>Normalisation and the catalog id\<close>

definition normalizeForCatalogNorm :: "string \<Rightarrow> string" where
  "normalizeForCatalogNorm v =
     (let raw = trim v in
      if raw = [] then []
      else toLowerCase (trim (collapseSpaces (stripDiacritics raw))))"

definition toCatalogId :: "string \<Rightarrow> string \<Rightarrow> string \<Rightarrow> string" where
  "toCatalogId lang t a =
     lang @ ''::'' @ normalizeForCatalogNorm t @ ''::'' @ normalizeForCatalogNorm a"

definition hasResolvedAuthor :: "ApiEbook \<Rightarrow> bool" where
  "hasResolvedAuthor b = (let a = trim (author b) in a \<noteq> [] \<and> toLowerCase a \<noteq> ''unknown'')"

section \<open>The merge rule\<close>

fun sourceRank :: "EbookSource \<Rightarrow> nat" where
  "sourceRank standardebooks = 0"
| "sourceRank wolnelektury = 1"
| "sourceRank gutendex = 2"
| "sourceRank wikisource = 3"
| "sourceRank manybooks = 4"

definition hasCover :: "ApiEbook \<Rightarrow> bool" where
  \<comment> \<open>\<open>!!b.coverUrl\<close>\<close>
  "hasCover b = (case coverUrl b of None \<Rightarrow> False | Some u \<Rightarrow> u \<noteq> [])"

definition popularityOf :: "ApiEbook \<Rightarrow> int" where
  "popularityOf b = (case popularity b of Some p \<Rightarrow> p | None \<Rightarrow> 0)"

definition rankOf :: "ApiEbook \<Rightarrow> nat" where
  "rankOf b = (case src b of Some s \<Rightarrow> sourceRank s | None \<Rightarrow> 999)"

definition pickBetterCandidate :: "ApiEbook \<Rightarrow> ApiEbook \<Rightarrow> ApiEbook" where
  "pickBetterCandidate a b =
     (if hasCover a \<noteq> hasCover b then (if hasCover b then b else a)
      else if popularityOf a \<noteq> popularityOf b
        then (if popularityOf b > popularityOf a then b else a)
      else if rankOf a \<noteq> rankOf b then (if rankOf b < rankOf a then b else a)
      else a)"

text \<open>The three properties the rule compares, as one value.\<close>

definition quality :: "ApiEbook \<Rightarrow> bool \<times> int \<times> nat" where
  "quality b = (hasCover b, popularityOf b, rankOf b)"

section \<open>Synchronisation: dedupe, rows, upsert\<close>

definition emptyIfNone :: "string option \<Rightarrow> string" where
  \<comment> \<open>\<open>String(v || '')\<close>\<close>
  "emptyIfNone v = (case v of None \<Rightarrow> [] | Some s \<Rightarrow> s)"

definition acceptable :: "ApiEbook \<Rightarrow> bool" where
  \<comment> \<open>the two guards of both loops of \<open>syncEbookCatalogLanguage\<close>\<close>
  "acceptable b =
     (trim (title b) \<noteq> [] \<and> trim (author b) \<noteq> [] \<and> trim (emptyIfNone (downloadUrl b)) \<noteq> []
      \<and> hasResolvedAuthor b)"

definition candidateId :: "string \<Rightarrow> ApiEbook \<Rightarrow> string" where
  "candidateId lang b = toCatalogId lang (trim (title b)) (trim (author b))"

text \<open>
  \<open>deduped\<close> is a JavaScript \<open>Map\<close>: an association list in insertion order, where
  setting an existing key keeps its position.
\<close>

definition dedupeStep :: "string \<Rightarrow> (string \<times> ApiEbook) list \<Rightarrow> ApiEbook \<Rightarrow> (string \<times> ApiEbook) list" where
  "dedupeStep lang deduped b =
     (if \<not> acceptable b then deduped
      else (case map_of deduped (candidateId lang b) of
              None \<Rightarrow> AList.update (candidateId lang b) b deduped
            | Some prev \<Rightarrow> AList.update (candidateId lang b) (pickBetterCandidate prev b) deduped))"

definition syncDedupe :: "string \<Rightarrow> ApiEbook list \<Rightarrow> (string \<times> ApiEbook) list" where
  "syncDedupe lang all = foldl (dedupeStep lang) [] all"

definition sourceName :: "EbookSource \<Rightarrow> string" where
  "sourceName s = (case s of gutendex \<Rightarrow> ''gutendex'' | standardebooks \<Rightarrow> ''standardebooks''
     | wikisource \<Rightarrow> ''wikisource'' | wolnelektury \<Rightarrow> ''wolnelektury'' | manybooks \<Rightarrow> ''manybooks'')"

definition orFiction :: "string \<Rightarrow> string" where
  \<comment> \<open>\<open>String(c || 'Fiction').trim() || 'Fiction'\<close>\<close>
  "orFiction c = (let t = trim (if c = [] then ''Fiction'' else c) in if t = [] then ''Fiction'' else t)"

definition toRow :: "string \<Rightarrow> nat \<Rightarrow> ApiEbook \<Rightarrow> EbookCatalogItemRow option" where
  "toRow lang nowIso b =
     (if \<not> acceptable b then None
      else Some \<lparr> id_col = toCatalogId lang (trim (title b)) (trim (author b)),
                  lang_code = lang,
                  title_col = trim (title b),
                  author_col = trim (author b),
                  category_col = orFiction (category b),
                  cover_url = (if hasCover b then coverUrl b else None),
                  download_url = trim (emptyIfNone (downloadUrl b)),
                  source = (case src b of Some s \<Rightarrow> sourceName s | None \<Rightarrow> ''gutendex''),
                  source_id = Some (book_id b),
                  source_popularity = (case popularity b of Some p \<Rightarrow> Some (max 0 p) | None \<Rightarrow> None),
                  author_norm = normalizeForCatalogNorm (trim (author b)),
                  title_norm = normalizeForCatalogNorm (trim (title b)),
                  updated_at = nowIso,
                  last_seen_at = nowIso \<rparr>)"

definition syncRows :: "string \<Rightarrow> nat \<Rightarrow> ApiEbook list \<Rightarrow> EbookCatalogItemRow list" where
  "syncRows lang nowIso all = List.map_filter (toRow lang nowIso) (map snd (syncDedupe lang all))"

text \<open>
  The datastore is consumed through its interface. The items table keeps one row per id
  (\<open>onConflict: 'id'\<close>); a call on an unavailable datastore answers with an error.
\<close>

record datastore =
  available :: bool
  items_table :: "EbookCatalogItemRow list"
  category_counts :: "(string \<times> string \<times> int) list"
  author_counts :: "(string \<times> string \<times> string \<times> int) list"

fun upsertRow :: "EbookCatalogItemRow \<Rightarrow> EbookCatalogItemRow list \<Rightarrow> EbookCatalogItemRow list" where
  "upsertRow r [] = [r]"
| "upsertRow r (x # xs) = (if id_col x = id_col r then r # xs else x # upsertRow r xs)"

definition upsertChunk :: "EbookCatalogItemRow list \<Rightarrow> datastore \<Rightarrow> string + datastore" where
  "upsertChunk chunk db =
     (if available db then Inr (db\<lparr>items_table := foldl (\<lambda>t r. upsertRow r t) (items_table db) chunk\<rparr>)
      else Inl ''datastore error'')"

function upsertCatalogItems :: "EbookCatalogItemRow list \<Rightarrow> datastore \<Rightarrow> string + datastore" where
  "upsertCatalogItems rows db =
     (if rows = [] then Inr db
      else (case upsertChunk (take 400 rows) db of
              Inl e \<Rightarrow> Inl e
            | Inr db' \<Rightarrow> upsertCatalogItems (drop 400 rows) db'))"
  by pat_completeness auto
termination
  by (relation "measure (\<lambda>(rows, db). length rows)") auto

declare upsertCatalogItems.simps [simp del]

definition syncPersist :: "string \<Rightarrow> nat \<Rightarrow> ApiEbook list \<Rightarrow> datastore \<Rightarrow> string + datastore" where
  \<comment> \<open>\<open>syncEbookCatalogLanguage\<close> from the fetched candidates \<open>all\<close> to the upsert\<close>
  "syncPersist lang nowIso all db = upsertCatalogItems (syncRows lang nowIso all) db"

text \<open>
  \<open>beats b a\<close>: the rule prefers \<open>b\<close> over an earlier \<open>a\<close>. \<open>foldGroup\<close> is what the
  dedupe loop leaves under one key after seeing the candidates of that key in the given order.
\<close>

definition beats :: "ApiEbook \<Rightarrow> ApiEbook \<Rightarrow> bool" where
  "beats b a =
     ((hasCover b \<and> \<not> hasCover a) \<or>
      (hasCover a = hasCover b \<and>
         (popularityOf b > popularityOf a \<or>
          (popularityOf b = popularityOf a \<and> rankOf b < rankOf a))))"

definition foldGroup :: "ApiEbook list \<Rightarrow> ApiEbook option" where
  "foldGroup xs = (case xs of [] \<Rightarrow> None | x # r \<Rightarrow> Some (foldl pickBetterCandidate x r))"

text \<open>Sample candidates: two editions that tie, and the pair of the cover scenario.\<close>

definition tieA :: ApiEbook where
  "tieA = \<lparr> book_id = ''gutenberg:158'', title = ''Emma'', author = ''Austen, Jane'',
            language = ''en'', category = ''Romance'', coverUrl = None,
            downloadUrl = Some ''https://www.gutenberg.org/ebooks/158.epub.images'',
            src = Some gutendex, popularity = Some 100 \<rparr>"

definition tieB :: ApiEbook where
  "tieB = \<lparr> book_id = ''gutenberg:19839'', title = ''EMMA'', author = ''Austen, Jane'',
            language = ''en'', category = ''Fiction'', coverUrl = None,
            downloadUrl = Some ''https://www.gutenberg.org/ebooks/19839.epub.images'',
            src = Some gutendex, popularity = Some 100 \<rparr>"

definition plainA :: ApiEbook where
  "plainA = \<lparr> book_id = ''gutenberg:1'', title = ''Emma'', author = ''Jane Austen'',
              language = ''en'', category = ''Romance'', coverUrl = None,
              downloadUrl = Some ''https://www.gutenberg.org/ebooks/1.epub.images'',
              src = Some gutendex, popularity = Some 10 \<rparr>"

definition coverB :: ApiEbook where
  "coverB = \<lparr> book_id = ''standardebooks:emma'', title = ''  emma '', author = ''JANE  AUSTEN'',
              language = ''en'', category = ''Romance'',
              coverUrl = Some ''https://standardebooks.org/images/emma.jpg'',
              downloadUrl = Some ''https://standardebooks.org/ebooks/emma.epub'',
              src = Some standardebooks, popularity = Some 5 \<rparr>"

definition emptyStore :: datastore where
  "emptyStore = \<lparr> available = True, items_table = [], category_counts = [], author_counts = [] \<rparr>"

section \<open>HTTP responses and the Gutendex attempt loop\<close>

record http_response =
  status :: nat
  retry_after :: "string option"
  content_type :: "string option"
  body :: string

definition ok :: "http_response \<Rightarrow> bool" where
  \<comment> \<open>\<open>Response.ok\<close>\<close>
  "ok resp = (200 \<le> status resp \<and> status resp \<le> 299)"

definition isDigit :: "char \<Rightarrow> bool" where
  "isDigit c = (c \<in> set ''0123456789'')"

definition digitValue :: "char \<Rightarrow> nat" where
  "digitValue c = (case map_of (zip ''0123456789'' [0 ..< 10]) c of Some d \<Rightarrow> d | None \<Rightarrow> 0)"

text \<open>
  What \<open>parseInt\<close> returns. A Number is a double: an integer up to \<open>2^53\<close> in absolute value
  is held exactly (\<open>Exact\<close>); beyond that the double keeps the sign and the magnitude, at least
  \<open>2^53\<close>, and rounds the digits, which \<open>LargeFinite\<close> leaves open; from
  \<open>2^1024 - 2^970\<close> on the nearest double is an infinity. The flag is the minus sign.
\<close>

datatype js_integer = NotANumber | Exact int | LargeFinite bool | Infinite bool

definition parseInt :: "string \<Rightarrow> js_integer" where
  \<comment> \<open>\<open>parseInt(s, 10)\<close>: leading white space, an optional sign, then the longest run of
      decimal digits\<close>
  "parseInt s =
     (let t = dropWhile isSpace s;
          neg = (t \<noteq> [] \<and> hd t = CHR ''-'');
          u = (if t \<noteq> [] \<and> (hd t = CHR ''-'' \<or> hd t = CHR ''+'') then tl t else t);
          ds = takeWhile isDigit u
      in if ds = [] then NotANumber
         else (let n = int (foldl (\<lambda>a c. 10 * a + digitValue c) 0 ds)
               in if n \<le> 2 ^ 53 then Exact (if neg then - n else n)
                  else if n < 2 ^ 1024 - 2 ^ 970 then LargeFinite neg
                  else Infinite neg))"











section \<open>The ManyBooks circuit breaker\<close>

definition MANYBOOKS_BASE :: string where
  "MANYBOOKS_BASE = ''https://manybooks.net/opds''"

definition MANYBOOKS_BLOCK_TTL_MS :: nat where
  "MANYBOOKS_BLOCK_TTL_MS = 60 * 60 * 1000"

text \<open>
  The module variable \<open>manyBooksBlockedUntil\<close>, and the URLs of the outbound requests
  issued so far (kept by the model to count them).
\<close>

record manybooks_state =
  manyBooksBlockedUntil :: nat
  outbound :: "string list"

datatype fetch_error = HttpError nat | FetchFailed

definition looksHtml :: "http_response \<Rightarrow> bool" where
  "looksHtml resp =
     (let ct = toLowerCase (emptyIfNone (content_type resp));
          head = toLowerCase (take 240 (trimStart (body resp)))
      in includesStr ct ''text/html'' \<or> startsWith head ''<!doctype'' \<or> startsWith head ''<html''
         \<or> includesStr head ''cloudflare'' \<or> includesStr head ''just a moment'')"

text \<open>
  \<open>fetchManyBooksXml\<close>. \<open>now\<close> is \<open>Date.now()\<close> at the guard and \<open>now'\<close> when the answer is
  handled; \<open>answer\<close> is what the network gives for the request (\<open>None\<close>: the fetch rejects or
  times out). A thrown error is \<open>Inl\<close>.
\<close>

definition fetchManyBooksXml ::
  "nat \<Rightarrow> nat \<Rightarrow> string \<Rightarrow> http_response option \<Rightarrow> manybooks_state
     \<Rightarrow> (fetch_error + string) \<times> manybooks_state" where
  "fetchManyBooksXml now now' url answer st =
     (if now < manyBooksBlockedUntil st then (Inl (HttpError 403), st)
      else (let st1 = st\<lparr> outbound := outbound st @ [url] \<rparr> in
            case answer of
              None \<Rightarrow> (Inl FetchFailed, st1)
            | Some resp \<Rightarrow>
                if \<not> ok resp \<or> looksHtml resp then
                  (let code = (if looksHtml resp then 403 else status resp) in
                   (Inl (HttpError code),
                    if code = 403 \<or> code = 429
                    then st1\<lparr> manyBooksBlockedUntil := now' + MANYBOOKS_BLOCK_TTL_MS \<rparr>
                    else st1))
                else (Inr (body resp), st1)))"

text \<open>
  \<open>fetchManyBooks\<close>: the guard, then the genre feed request of \<open>fetchManyBooksGenres\<close>, whose
  error propagates. What follows the genre feed (genre selection, the candidate and detail
  requests, the assembly of the result) is the continuation \<open>rest\<close>. Both guards read the
  clock within one synchronous step, hence the same \<open>now\<close>.
\<close>

definition fetchManyBooks ::
  "nat \<Rightarrow> nat \<Rightarrow> (string \<Rightarrow> http_response option)
     \<Rightarrow> (string \<Rightarrow> manybooks_state \<Rightarrow> (fetch_error + ApiEbook list) \<times> manybooks_state)
     \<Rightarrow> manybooks_state \<Rightarrow> (fetch_error + ApiEbook list) \<times> manybooks_state" where
  "fetchManyBooks now now' network rest st =
     (if now < manyBooksBlockedUntil st then (Inr [], st)
      else (case fetchManyBooksXml now now' (MANYBOOKS_BASE @ ''/genres'')
                   (network (MANYBOOKS_BASE @ ''/genres'')) st of
              (Inl e, st1) \<Rightarrow> (Inl e, st1)
            | (Inr xml, st1) \<Rightarrow> rest xml st1))"

definition blockSignal :: "http_response \<Rightarrow> bool" where
  \<comment> \<open>an answer that the source treats as a block: 403, 429, or a challenge page\<close>
  "blockSignal resp = (status resp = 403 \<or> status resp = 429 \<or> looksHtml resp)"

definition challengePage :: http_response where
  "challengePage = \<lparr> status = 200, retry_after = None, content_type = Some ''text/html; charset=UTF-8'',
                     body = ''<!DOCTYPE html><html><head><title>Just a moment...</title>'' \<rparr>"

definition freshManyBooks :: manybooks_state where
  "freshManyBooks = \<lparr> manyBooksBlockedUntil = 0, outbound = [] \<rparr>"

section \<open>The single-flight caches of the pool and of the enrichment lookups\<close>

text \<open>
  A cache is a \<open>Map\<close> from key to \<open>(expiresAt, value)\<close> with a second \<open>Map\<close> of the pending
  computations. A call is modelled in its two synchronous steps: \<open>begin\<close> runs up to the point
  where the promise is stored (and reports whether the computation was invoked), \<open>settle\<close>
  runs when the computation has succeeded (\<open>Some\<close>) or thrown (\<open>None\<close>). \<open>computeCalls\<close> counts
  the invocations of the computation.
\<close>

record 'v flight_cache =
  cacheEntries :: "string \<rightharpoonup> (nat \<times> 'v)"
  inFlightKeys :: "string set"
  computeCalls :: nat

datatype 'v call_start = Hit 'v | Joined | Started

definition cacheBegin :: "nat \<Rightarrow> string \<Rightarrow> 'v flight_cache \<Rightarrow> 'v call_start \<times> 'v flight_cache" where
  \<comment> \<open>the common first part of \<open>getBetterOlMatch\<close> and \<open>getAggregatedPool\<close>\<close>
  "cacheBegin now key st =
     (case cacheEntries st key of
        Some (expiresAt, v) \<Rightarrow>
          if expiresAt > now then (Hit v, st)
          else if key \<in> inFlightKeys st then (Joined, st)
          else (Started, st\<lparr> inFlightKeys := insert key (inFlightKeys st),
                              computeCalls := Suc (computeCalls st) \<rparr>)
      | None \<Rightarrow>
          if key \<in> inFlightKeys st then (Joined, st)
          else (Started, st\<lparr> inFlightKeys := insert key (inFlightKeys st),
                              computeCalls := Suc (computeCalls st) \<rparr>))"

record ol_match =
  matchCover :: "string option"
  matchAuthor :: "string option"
  matchTitle :: "string option"

definition COVER_CACHE_TTL_MS :: nat where
  "COVER_CACHE_TTL_MS = 30 * 24 * 60 * 60 * 1000"

definition CACHE_TTL_MS :: nat where
  "CACHE_TTL_MS = 10 * 60 * 1000"

definition orNull :: "string option \<Rightarrow> string option" where
  \<comment> \<open>\<open>v || null\<close>\<close>
  "orNull v = (case v of Some s \<Rightarrow> if s = [] then None else Some s | None \<Rightarrow> None)"

definition noMatch :: ol_match where
  "noMatch = \<lparr> matchCover = None, matchAuthor = None, matchTitle = None \<rparr>"

definition getBetterOlMatch_settle ::
  "nat \<Rightarrow> string \<Rightarrow> ol_match option \<Rightarrow> ol_match flight_cache \<Rightarrow> ol_match \<times> ol_match flight_cache" where
  \<comment> \<open>\<open>now\<close> is the clock value read when the call began\<close>
  "getBetterOlMatch_settle now key result st =
     (case result of
        Some m \<Rightarrow>
          (m, st\<lparr> cacheEntries := (cacheEntries st)(key \<mapsto>
                     (now + COVER_CACHE_TTL_MS,
                      \<lparr> matchCover = orNull (matchCover m), matchAuthor = orNull (matchAuthor m),
                        matchTitle = orNull (matchTitle m) \<rparr>)),
                  inFlightKeys := inFlightKeys st - {key} \<rparr>)
      | None \<Rightarrow>
          (noMatch, st\<lparr> cacheEntries := (cacheEntries st)(key \<mapsto> (now + 6 * 60 * 60 * 1000, noMatch)),
                        inFlightKeys := inFlightKeys st - {key} \<rparr>))"

definition getAggregatedPool_settle ::
  "nat \<Rightarrow> string \<Rightarrow> 'v option \<Rightarrow> 'v flight_cache \<Rightarrow> (string + 'v) \<times> 'v flight_cache" where
  \<comment> \<open>\<open>now'\<close> is \<open>Date.now()\<close> when \<open>fetchAggregatedPool\<close> has returned\<close>
  "getAggregatedPool_settle now' key result st =
     (case result of
        Some d \<Rightarrow>
          (Inr d, st\<lparr> cacheEntries := (cacheEntries st)(key \<mapsto> (now' + CACHE_TTL_MS, d)),
                      inFlightKeys := inFlightKeys st - {key} \<rparr>)
      | None \<Rightarrow> (Inl ''fetchAggregatedPool failed'', st\<lparr> inFlightKeys := inFlightKeys st - {key} \<rparr>))"

definition emptyCache :: "'v flight_cache" where
  "emptyCache = \<lparr> cacheEntries = Map.empty, inFlightKeys = {}, computeCalls = 0 \<rparr>"

section \<open>Scoring of bibliographic search results\<close>

definition isLowerAlnum :: "char \<Rightarrow> bool" where
  \<comment> \<open>the class \<open>[a-z0-9]\<close>\<close>
  "isLowerAlnum c = (c \<in> set ''abcdefghijklmnopqrstuvwxyz0123456789'')"

function replaceNonAlnum :: "string \<Rightarrow> string" where
  \<comment> \<open>\<open>s.replace(/[^a-z0-9]+/g, ' ')\<close>\<close>
  "replaceNonAlnum [] = []"
| "replaceNonAlnum (c # cs) =
     (if isLowerAlnum c then c # replaceNonAlnum cs
      else CHR '' '' # replaceNonAlnum (dropWhile (\<lambda>x. \<not> isLowerAlnum x) cs))"
  by pat_completeness auto
termination
  by (relation "measure length") (auto simp: less_Suc_eq_le length_dropWhile_le)

definition normalizeForLookup :: "string \<Rightarrow> string" where
  "normalizeForLookup v =
     (let raw = toLowerCase (trim v) in
      if raw = [] then []
      else trim (collapseSpaces (replaceNonAlnum (stripDiacritics raw))))"

fun splitOn :: "char \<Rightarrow> string \<Rightarrow> string list" where
  \<comment> \<open>\<open>s.split(c)\<close>\<close>
  "splitOn c [] = [[]]"
| "splitOn c (x # xs) =
     (if x = c then [] # splitOn c xs
      else (case splitOn c xs of [] \<Rightarrow> [[x]] | w # ws \<Rightarrow> (x # w) # ws))"

definition tokens :: "string \<Rightarrow> string list" where
  \<comment> \<open>\<open>s.split(' ').filter(Boolean)\<close>\<close>
  "tokens s = filter (\<lambda>t. t \<noteq> []) (splitOn CHR '' '' s)"

definition overlap :: "string \<Rightarrow> string \<Rightarrow> nat" where
  \<comment> \<open>the number of distinct tokens of \<open>want\<close> that occur among the tokens of \<open>have\<close>\<close>
  "overlap want have = length (filter (\<lambda>t. t \<in> set (tokens have)) (remdups (tokens want)))"

fun joinSpace :: "string list \<Rightarrow> string" where
  \<comment> \<open>\<open>xs.join(' ')\<close>\<close>
  "joinSpace [] = []"
| "joinSpace [x] = x"
| "joinSpace (x # y # ys) = x @ '' '' @ joinSpace (y # ys)"

record OpenLibrarySearchDoc =
  doc_title :: "string option"
  author_name :: "string list option"
  cover_i :: "int option"

definition hasCoverId :: "OpenLibrarySearchDoc \<Rightarrow> bool" where
  \<comment> \<open>\<open>coverId\<close> is truthy: a number other than 0\<close>
  "hasCoverId d = (case cover_i d of Some n \<Rightarrow> n \<noteq> 0 | None \<Rightarrow> False)"

definition hasAuthor :: "OpenLibrarySearchDoc \<Rightarrow> bool" where
  "hasAuthor d = (case author_name d of Some ns \<Rightarrow> ns \<noteq> [] | None \<Rightarrow> False)"

definition eligible :: "bool \<Rightarrow> bool \<Rightarrow> OpenLibrarySearchDoc \<Rightarrow> bool" where
  \<comment> \<open>the three \<open>continue\<close> guards of the loop, negated\<close>
  "eligible requireCover requireAuthor d =
     (emptyIfNone (doc_title d) \<noteq> [] \<and> (hasCoverId d \<or> hasAuthor d)
      \<and> (requireCover \<longrightarrow> hasCoverId d) \<and> (requireAuthor \<longrightarrow> hasAuthor d))"

definition authorKnown :: "string option \<Rightarrow> bool" where
  "authorKnown a =
     (normalizeForLookup (emptyIfNone a) \<noteq> [] \<and> normalizeForLookup (emptyIfNone a) \<noteq> ''unknown'')"

definition titleScore :: "string \<Rightarrow> string \<Rightarrow> nat" where
  "titleScore wantTitle haveTitle =
     (if haveTitle = wantTitle then 10
      else if includesStr haveTitle wantTitle \<or> includesStr wantTitle haveTitle then 6
      else min 4 (overlap wantTitle haveTitle))"

definition authorScore :: "string \<Rightarrow> string \<Rightarrow> nat" where
  "authorScore wantAuthor haveAuthor =
     (if includesStr haveAuthor wantAuthor \<or> includesStr wantAuthor haveAuthor then 5
      else min 3 (overlap wantAuthor haveAuthor))"

definition docScore :: "string \<Rightarrow> string option \<Rightarrow> OpenLibrarySearchDoc \<Rightarrow> nat" where
  "docScore t a d =
     titleScore (normalizeForLookup t) (normalizeForLookup (emptyIfNone (doc_title d)))
     + (if authorKnown a
        then authorScore (normalizeForLookup (emptyIfNone a))
               (normalizeForLookup (case author_name d of Some ns \<Rightarrow> joinSpace ns | None \<Rightarrow> []))
        else 0)"

definition docBonus :: "OpenLibrarySearchDoc \<Rightarrow> nat" where
  "docBonus d = (if hasCoverId d then 1 else 0) + (if hasAuthor d then 1 else 0)"

definition olThreshold :: "string \<Rightarrow> string option \<Rightarrow> nat" where
  "olThreshold t a =
     (if authorKnown a then 8
      else if length (tokens (normalizeForLookup t)) \<le> 3 then 10
      else 8)"

definition bestStep ::
  "string \<Rightarrow> string option \<Rightarrow> bool \<Rightarrow> bool \<Rightarrow> (OpenLibrarySearchDoc \<times> nat \<times> nat) option
     \<Rightarrow> OpenLibrarySearchDoc \<Rightarrow> (OpenLibrarySearchDoc \<times> nat \<times> nat) option" where
  "bestStep t a requireCover requireAuthor best d =
     (if \<not> eligible requireCover requireAuthor d then best
      else (case best of
              None \<Rightarrow> Some (d, docScore t a d, docBonus d)
            | Some (bd, bs, bb) \<Rightarrow>
                if docScore t a d > bs \<or> (docScore t a d = bs \<and> docBonus d > bb)
                then Some (d, docScore t a d, docBonus d)
                else best))"

definition pickBestOlDoc ::
  "OpenLibrarySearchDoc list \<Rightarrow> string \<Rightarrow> string option \<Rightarrow> bool \<Rightarrow> bool
     \<Rightarrow> OpenLibrarySearchDoc option" where
  "pickBestOlDoc docs t a requireCover requireAuthor =
     (case foldl (bestStep t a requireCover requireAuthor) None docs of
        None \<Rightarrow> None
      | Some (d, score, bonus) \<Rightarrow> if score < olThreshold t a then None else Some d)"

definition dumasDoc :: OpenLibrarySearchDoc where
  "dumasDoc = \<lparr> doc_title = Some ''The Count of Monte Cristo (abridged)'',
                author_name = Some [''Alexandre Dumas''], cover_i = Some 12345 \<rparr>"

section \<open>Titles as shown to clients\<close>

function replaceAll :: "string \<Rightarrow> string \<Rightarrow> string \<Rightarrow> string" where
  \<comment> \<open>\<open>s.replace(/pat/g, rep)\<close> for a literal, non-empty pattern\<close>
  "replaceAll pat rep [] = []"
| "replaceAll pat rep (c # cs) =
     (if pat \<noteq> [] \<and> startsWith (c # cs) pat
      then rep @ replaceAll pat rep (drop (length pat - 1) cs)
      else c # replaceAll pat rep cs)"
  by pat_completeness auto
termination
  by (relation "measure (\<lambda>(pat, rep, s). length s)") auto

definition decodeXmlEntities :: "string \<Rightarrow> string" where
  "decodeXmlEntities v =
     replaceAll ''&#39;'' [CHR 0x27]
       (replaceAll ''&quot;'' [CHR 0x22]
         (replaceAll ''&gt;'' ''>'' (replaceAll ''&lt;'' ''<'' (replaceAll ''&amp;'' ''&'' v))))"

definition normalizeTitle :: "string \<Rightarrow> string" where
  "normalizeTitle t = decodeXmlEntities (trim t)"

definition isLetter :: "char \<Rightarrow> bool" where
  \<comment> \<open>the class \<open>[a-z]\<close> under the flag \<open>i\<close>\<close>
  "isLetter c = (c \<in> set ''abcdefghijklmnopqrstuvwxyzABCDEFGHIJKLMNOPQRSTUVWXYZ'')"

definition isWordChar :: "char \<Rightarrow> bool" where
  \<comment> \<open>the class \<open>\w\<close>\<close>
  "isWordChar c = (isLetter c \<or> isDigit c \<or> c = CHR ''_'')"

definition marcHere :: "string \<Rightarrow> bool" where
  \<comment> \<open>\<open>/\s*\$[a-z]\b.*$/i\<close> matches at the start of \<open>s\<close>\<close>
  "marcHere s =
     (case dropWhile isSpace s of
        d # l # rest \<Rightarrow>
          d = CHR ''$'' \<and> isLetter l \<and> (rest = [] \<or> \<not> isWordChar (hd rest))
          \<and> (\<forall>c \<in> set rest. c \<noteq> CHR 0x0A \<and> c \<noteq> CHR 0x0D)
      | _ \<Rightarrow> False)"

fun stripMarc :: "string \<Rightarrow> string" where
  \<comment> \<open>\<open>s.replace(/\s*\$[a-z]\b.*$/i, '')\<close>: cut at the leftmost match\<close>
  "stripMarc [] = []"
| "stripMarc (c # cs) = (if marcHere (c # cs) then [] else c # stripMarc cs)"

definition normalizeMainTitle :: "string \<Rightarrow> string" where
  "normalizeMainTitle t =
     (let base = normalizeTitle t in
      if base = [] then []
      else trim (collapseSpaces (takeWhile (\<lambda>c. c \<noteq> CHR '':'') (stripMarc base))))"

section \<open>The query service\<close>

definition clampInt :: "string option \<Rightarrow> int \<Rightarrow> int \<Rightarrow> int \<Rightarrow> int" where
  \<comment> \<open>\<open>raw\<close> is a query parameter: a string, or absent. The bounds are the literals of the
      call sites, so a finite number of magnitude \<open>2^53\<close> or more lies beyond them\<close>
  "clampInt raw lo hi fallback =
     (case raw of
        None \<Rightarrow> fallback
      | Some s \<Rightarrow>
          (case parseInt s of
             Exact n \<Rightarrow> max lo (min hi n)
           | LargeFinite neg \<Rightarrow> (if neg then lo else max lo hi)
           | _ \<Rightarrow> fallback))"

datatype 'p reply = Json 'p | Failure nat string

text \<open>
  The paginated payloads: \<open>total\<close> is absent in the list of categories.
\<close>

record 'a page =
  total :: "int option"
  cursor :: int
  limit :: int
  nextCursor :: "int option"
  items :: "'a list"

text \<open>
  Queries on the datastore. \<open>rowBefore\<close> is the requested order: \<open>source_popularity\<close>
  descending with nulls last, then \<open>updated_at\<close> descending; rows that tie stay in
  table order. \<open>rangeOf from to\<close> keeps the rows at the positions \<open>from\<close> to \<open>to\<close>.
\<close>

definition rowBefore :: "EbookCatalogItemRow \<Rightarrow> EbookCatalogItemRow \<Rightarrow> bool" where
  "rowBefore a b =
     (case (source_popularity a, source_popularity b) of
        (Some p, Some q) \<Rightarrow> p > q \<or> (p = q \<and> updated_at a > updated_at b)
      | (Some p, None) \<Rightarrow> True
      | (None, Some q) \<Rightarrow> False
      | (None, None) \<Rightarrow> updated_at a > updated_at b)"

fun insertRow :: "EbookCatalogItemRow \<Rightarrow> EbookCatalogItemRow list \<Rightarrow> EbookCatalogItemRow list" where
  "insertRow r [] = [r]"
| "insertRow r (x # xs) = (if rowBefore r x then r # x # xs else x # insertRow r xs)"

definition orderRows :: "EbookCatalogItemRow list \<Rightarrow> EbookCatalogItemRow list" where
  "orderRows rows = foldr insertRow rows []"

definition rangeOf :: "int \<Rightarrow> int \<Rightarrow> 'a list \<Rightarrow> 'a list" where
  "rangeOf from to xs = take (nat (to - from + 1)) (drop (nat from) xs)"

definition selectItems ::
  "datastore \<Rightarrow> (EbookCatalogItemRow \<Rightarrow> bool) \<Rightarrow> int \<Rightarrow> int \<Rightarrow> string + EbookCatalogItemRow list" where
  "selectItems db matching from to =
     (if available db
      then Inr (rangeOf from to (orderRows (filter (\<lambda>r. matching r \<and> download_url r \<noteq> []) (items_table db))))
      else Inl ''datastore error'')"

definition maybeSingle :: "'a list \<Rightarrow> string + 'a option" where
  "maybeSingle rows =
     (case rows of [] \<Rightarrow> Inr None | [r] \<Rightarrow> Inr (Some r) | _ \<Rightarrow> Inl ''multiple rows returned'')"

definition selectCategoryCount :: "datastore \<Rightarrow> string \<Rightarrow> string \<Rightarrow> string + (string \<times> string \<times> int) option" where
  "selectCategoryCount db lang cat =
     (if available db
      then maybeSingle (filter (\<lambda>(l, c, n). l = lang \<and> c = cat) (category_counts db))
      else Inl ''datastore error'')"

definition selectAuthorCount ::
  "datastore \<Rightarrow> string \<Rightarrow> string \<Rightarrow> string + (string \<times> string \<times> string \<times> int) option" where
  \<comment> \<open>a row of the author counts is (language, author, author_norm, count)\<close>
  "selectAuthorCount db lang norm =
     (if available db
      then maybeSingle (filter (\<lambda>(l, a, an, n). l = lang \<and> an = norm) (author_counts db))
      else Inl ''datastore error'')"

definition toApiFromRow :: "string \<Rightarrow> string \<Rightarrow> EbookCatalogItemRow \<Rightarrow> ApiEbook" where
  "toApiFromRow lang fallbackCategory r =
     \<lparr> book_id = id_col r,
       title = normalizeMainTitle (title_col r),
       author = author_col r,
       language = (if lang_code r = [] then lang else lang_code r),
       category = (if category_col r = [] then fallbackCategory else category_col r),
       coverUrl = cover_url r,
       downloadUrl = Some (download_url r),
       src = None,
       popularity = None \<rparr>"

definition isTrueFlag :: "string option \<Rightarrow> bool" where
  "isTrueFlag v = (toLowerCase (emptyIfNone v) = ''1'' \<or> toLowerCase (emptyIfNone v) = ''true'')"

text \<open>
  The handlers take the language already resolved and the query parameters as optional
  strings (\<open>cursor ?? offset\<close>, \<open>pageSize ?? limit\<close>). An exception is answered with 500.
  \<open>enrichGutenbergTitlesWithOpenLibrary\<close>, which afterwards replaces the title of some items
  by the title an external lookup finds and touches nothing else, is left out.
\<close>

definition getEbooksCategory ::
  "datastore \<Rightarrow> string \<Rightarrow> string option \<Rightarrow> string option \<Rightarrow> string option \<Rightarrow> string option
     \<Rightarrow> ApiEbook page reply" where
  "getEbooksCategory db lang categoryParam cursorParam limitParam allowEmptyParam =
     (let categoryRaw = trim (emptyIfNone categoryParam) in
      if categoryRaw = [] then Failure 400 ''Missing category''
      else
        (let cursor = clampInt cursorParam 0 9999999 0;
             limit = clampInt limitParam 10 100 40;
             allowEmpty = isTrueFlag allowEmptyParam
         in case selectCategoryCount db lang categoryRaw of
              Inl e \<Rightarrow> Failure 500 ''Server error''
            | Inr countRow \<Rightarrow>
                (let total = (case countRow of Some (l, c, n) \<Rightarrow> max 0 n | None \<Rightarrow> 0);
                     category = (case countRow of Some (l, c, n) \<Rightarrow> trim c | None \<Rightarrow> categoryRaw)
                 in case selectItems db (\<lambda>r. lang_code r = lang \<and> category_col r = category)
                           cursor (cursor + limit - 1) of
                      Inl e \<Rightarrow> Failure 500 ''Server error''
                    | Inr rows \<Rightarrow>
                        (let slice = map (toApiFromRow lang categoryRaw) rows in
                         if slice = [] then
                           (if allowEmpty
                            then Json \<lparr> total = Some 0, cursor = cursor, limit = limit,
                                        nextCursor = None, items = [] \<rparr>
                            else Failure 404 ''Category not found'')
                         else
                           Json \<lparr> total = Some (if total > 0 then total else cursor + int (length slice)),
                                  cursor = cursor, limit = limit,
                                  nextCursor = (if total > 0 \<and> cursor + int (length slice) < total
                                                then Some (cursor + int (length slice)) else None),
                                  items = slice \<rparr>))))"

definition normalizeAuthorKey :: "string \<Rightarrow> string" where
  \<comment> \<open>\<open>normalizeApostrophes\<close> replaces U+2019, which lies beyond U+00FF\<close>
  "normalizeAuthorKey v = toLowerCase (trim (collapseSpaces v))"

definition getEbooksAuthor ::
  "datastore \<Rightarrow> string \<Rightarrow> string option \<Rightarrow> string option \<Rightarrow> string option \<Rightarrow> ApiEbook page reply" where
  "getEbooksAuthor db lang authorParam cursorParam limitParam =
     (let authorRaw = trim (emptyIfNone authorParam) in
      if authorRaw = [] then Failure 400 ''Missing author''
      else
        (let cursor = clampInt cursorParam 0 9999999 0;
             limit = clampInt limitParam 10 100 40;
             wantNorm = normalizeForCatalogNorm (normalizeAuthorKey authorRaw)
         in case selectAuthorCount db lang wantNorm of
              Inl e \<Rightarrow> Failure 500 ''Server error''
            | Inr countRow \<Rightarrow>
                (let total = (case countRow of Some (l, a, an, n) \<Rightarrow> max 0 n | None \<Rightarrow> 0)
                 in case selectItems db (\<lambda>r. lang_code r = lang \<and> author_norm r = wantNorm)
                           cursor (cursor + limit - 1) of
                      Inl e \<Rightarrow> Failure 500 ''Server error''
                    | Inr rows \<Rightarrow>
                        (let slice = map (toApiFromRow lang ''Fiction'') rows in
                         if slice = [] then Failure 404 ''Author not found''
                         else
                           Json \<lparr> total = Some (if total > 0 then total else cursor + int (length slice)),
                                  cursor = cursor, limit = limit,
                                  nextCursor = (if total > 0 \<and> cursor + int (length slice) < total
                                                then Some (cursor + int (length slice)) else None),
                                  items = slice \<rparr>))))"

definition isUnicodeLetter :: "char \<Rightarrow> bool" where
  \<comment> \<open>the class \<open>\p{L}\<close>: the cased letters, the ordinal indicators, the micro sign, the sharp
      s and the y with diaeresis\<close>
  "isUnicodeLetter c =
     (c \<in> set upperChars \<or> c \<in> set lowerChars
      \<or> c \<in> set [CHR 0xAA, CHR 0xB5, CHR 0xBA, CHR 0xDF, CHR 0xFF])"

definition isUnicodeNumber :: "char \<Rightarrow> bool" where
  \<comment> \<open>the class \<open>\p{N}\<close>: the digits, the superscript digits and the fractions\<close>
  "isUnicodeNumber c =
     (isDigit c \<or> c \<in> set [CHR 0xB2, CHR 0xB3, CHR 0xB9, CHR 0xBC, CHR 0xBD, CHR 0xBE])"

definition keptInSearchKey :: "char \<Rightarrow> bool" where
  \<comment> \<open>the class \<open>[\p{L}\p{N} ]\<close>\<close>
  "keptInSearchKey c = (isUnicodeLetter c \<or> isUnicodeNumber c \<or> c = CHR '' '')"

function replaceNonLetterDigitSpace :: "string \<Rightarrow> string" where
  \<comment> \<open>\<open>s.replace(/[^\p{L}\p{N} ]+/gu, ' ')\<close>\<close>
  "replaceNonLetterDigitSpace [] = []"
| "replaceNonLetterDigitSpace (c # cs) =
     (if keptInSearchKey c then c # replaceNonLetterDigitSpace cs
      else CHR '' '' # replaceNonLetterDigitSpace (dropWhile (\<lambda>x. \<not> keptInSearchKey x) cs))"
  by pat_completeness auto
termination
  by (relation "measure length") (auto simp: less_Suc_eq_le length_dropWhile_le)

definition normalizeSearchKey :: "string \<Rightarrow> string" where
  "normalizeSearchKey v = trim (collapseSpaces (replaceNonLetterDigitSpace (normalizeForCatalogNorm v)))"

definition ilikeContains :: "string \<Rightarrow> string \<Rightarrow> bool" where
  \<comment> \<open>\<open>column ILIKE '%want%'\<close> for a pattern of letters, digits and spaces\<close>
  "ilikeContains col want = includesStr (toLowerCase col) (toLowerCase want)"

definition selectSearch ::
  "datastore \<Rightarrow> string \<Rightarrow> string \<Rightarrow> int \<Rightarrow> int \<Rightarrow> string + (EbookCatalogItemRow list \<times> nat)" where
  \<comment> \<open>the rows of the range and the exact count of all matching rows\<close>
  "selectSearch db lang want from to =
     (if available db
      then (let hits = filter (\<lambda>r. lang_code r = lang \<and> download_url r \<noteq> []
                               \<and> (ilikeContains (title_norm r) want \<or> ilikeContains (author_norm r) want))
                         (items_table db)
            in Inr (rangeOf from to (orderRows hits), length hits))
      else Inl ''datastore error'')"

definition getEbooksSearch ::
  "datastore \<Rightarrow> string \<Rightarrow> string option \<Rightarrow> string option \<Rightarrow> string option \<Rightarrow> ApiEbook page reply" where
  "getEbooksSearch db lang qParam cursorParam limitParam =
     (let qRaw = trim (emptyIfNone qParam) in
      if qRaw = [] \<or> length qRaw < 2 then Failure 400 ''Missing query''
      else
        (let cursor = clampInt cursorParam 0 9999999 0;
             limit = clampInt limitParam 10 100 40;
             want = normalizeSearchKey qRaw
         in if want = []
            then Json \<lparr> total = Some 0, cursor = cursor, limit = limit, nextCursor = None, items = [] \<rparr>
            else (case selectSearch db lang want cursor (cursor + limit - 1) of
                    Inl e \<Rightarrow> Failure 500 ''Server error''
                  | Inr (rows, exactCount) \<Rightarrow>
                      (let slice = map (toApiFromRow lang ''Fiction'') rows;
                           total = max 0 (int exactCount)
                       in Json \<lparr> total = Some (if total > 0 then total else cursor + int (length slice)),
                                 cursor = cursor, limit = limit,
                                 nextCursor =
                                   (if total > 0 \<and> cursor + int (length slice) < total
                                    then Some (cursor + int (length slice))
                                    else if int (length slice) \<ge> limit
                                    then Some (cursor + int (length slice)) else None),
                                 items = slice \<rparr>))))"

fun insertCount :: "(string \<times> string \<times> int) \<Rightarrow> (string \<times> string \<times> int) list \<Rightarrow> (string \<times> string \<times> int) list" where
  "insertCount r [] = [r]"
| "insertCount r (x # xs) =
     (if snd (snd r) > snd (snd x) then r # x # xs else x # insertCount r xs)"

definition selectCategoryCounts ::
  "datastore \<Rightarrow> string \<Rightarrow> int \<Rightarrow> int \<Rightarrow> string + (string \<times> string \<times> int) list" where
  \<comment> \<open>the counts of a language, ordered by count descending\<close>
  "selectCategoryCounts db lang from to =
     (if available db
      then Inr (rangeOf from to (foldr insertCount (filter (\<lambda>(l, c, n). l = lang) (category_counts db)) []))
      else Inl ''datastore error'')"

definition getEbooksCategories ::
  "datastore \<Rightarrow> string \<Rightarrow> string option \<Rightarrow> string option \<Rightarrow> (string \<times> int) page reply" where
  "getEbooksCategories db lang cursorParam limitParam =
     (let cursor = clampInt cursorParam 0 9999999 0;
          limit = clampInt limitParam 10 200 60
      in case selectCategoryCounts db lang cursor (cursor + limit - 1) of
           Inl e \<Rightarrow> Failure 500 ''Server error''
         | Inr rows \<Rightarrow>
             Json \<lparr> total = None, cursor = cursor, limit = limit,
                    nextCursor = (if int (length rows) \<ge> limit then Some (cursor + int (length rows)) else None),
                    items = map (\<lambda>(l, c, n). (trim c, max 0 n))
                              (filter (\<lambda>(l, c, n). trim c \<noteq> []) rows) \<rparr>)"

text \<open>
  For the statements about the listings: the payload of a reply, and the persisted rows, in
  the requested order, that a single-category and a single-author request range over.
\<close>

definition payload :: "'p reply \<Rightarrow> 'p option" where
  "payload r = (case r of Json p \<Rightarrow> Some p | Failure code msg \<Rightarrow> None)"

definition categoryRows :: "datastore \<Rightarrow> string \<Rightarrow> string \<Rightarrow> EbookCatalogItemRow list" where
  "categoryRows db lang categoryRaw =
     orderRows (filter (\<lambda>r. (lang_code r = lang
                  \<and> category_col r = (case selectCategoryCount db lang categoryRaw of
                                        Inr (Some (l, c, n)) \<Rightarrow> trim c | _ \<Rightarrow> categoryRaw))
                  \<and> download_url r \<noteq> []) (items_table db))"

definition authorRows :: "datastore \<Rightarrow> string \<Rightarrow> string \<Rightarrow> EbookCatalogItemRow list" where
  "authorRows db lang authorRaw =
     orderRows (filter (\<lambda>r. (lang_code r = lang
                  \<and> author_norm r = normalizeForCatalogNorm (normalizeAuthorKey authorRaw))
                  \<and> download_url r \<noteq> []) (items_table db))"

definition sampleRow :: "nat \<Rightarrow> EbookCatalogItemRow" where
  "sampleRow k =
     \<lparr> id_col = ''en::emma '' @ replicate (Suc k) CHR ''i'' @ ''::jane austen'', lang_code = ''en'',
       title_col = ''Emma '' @ replicate (Suc k) CHR ''I'', author_col = ''Jane Austen'',
       category_col = ''Romance'', cover_url = None,
       download_url = ''https://www.gutenberg.org/ebooks/158.epub.images'',
       source = ''gutendex'', source_id = Some ''gutenberg:158'', source_popularity = Some (int k),
       author_norm = ''jane austen'', title_norm = ''emma '' @ replicate (Suc k) CHR ''i'',
       updated_at = 1000 + k, last_seen_at = 1000 + k \<rparr>"

definition tenRowStore :: datastore where
  "tenRowStore = \<lparr> available = True, items_table = map sampleRow [0 ..< 10],
                   category_counts = [(''en'', ''Romance'', 10)],
                   author_counts = [(''en'', ''Jane Austen'', ''jane austen'', 10)] \<rparr>"

definition fiveRowStore :: datastore where
  \<comment> \<open>a store whose precomputed counts (100) are above the five rows it holds\<close>
  "fiveRowStore = \<lparr> available = True, items_table = map sampleRow [0 ..< 5],
                    category_counts = [(''en'', ''Romance'', 100)],
                    author_counts = [(''en'', ''Jane Austen'', ''jane austen'', 100)] \<rparr>"

section \<open>The import of externally supplied items\<close>

definition isProbablyGenericGutenbergCover :: "string option \<Rightarrow> bool" where
  "isProbablyGenericGutenbergCover url =
     (let u = toLowerCase (emptyIfNone url) in
      u \<noteq> [] \<and> includesStr u ''gutenberg.org'' \<and> includesStr u ''/cache/epub/'' \<and> includesStr u ''cover'')"

definition orElse :: "string \<Rightarrow> string \<Rightarrow> string" where
  \<comment> \<open>\<open>a || b\<close> on strings\<close>
  "orElse a b = (if a = [] then b else a)"

text \<open>
  The body of the inner loop of \<open>postEbookCatalogImport\<close> for an incoming row whose id is
  already persisted, with its local constants as functions of the existing and the incoming
  row: \<open>None\<close> is the \<open>continue\<close> that writes nothing, \<open>Some\<close> the merged row that is pushed to
  \<open>toUpsert\<close>.
\<close>

definition existingCover :: "EbookCatalogItemRow \<Rightarrow> string" where
  "existingCover existing = trim (emptyIfNone (cover_url existing))"

definition incomingCover :: "EbookCatalogItemRow \<Rightarrow> string" where
  "incomingCover row = trim (emptyIfNone (cover_url row))"

definition canUpgradeCover :: "EbookCatalogItemRow \<Rightarrow> EbookCatalogItemRow \<Rightarrow> bool" where
  "canUpgradeCover existing row =
     (incomingCover row \<noteq> []
      \<and> (existingCover existing = [] \<or> isProbablyGenericGutenbergCover (Some (existingCover existing))))"

definition existingDl :: "EbookCatalogItemRow \<Rightarrow> string" where
  "existingDl existing = trim (download_url existing)"

definition canBackfillDownloadUrl :: "EbookCatalogItemRow \<Rightarrow> EbookCatalogItemRow \<Rightarrow> bool" where
  "canBackfillDownloadUrl existing row = (existingDl existing = [] \<and> download_url row \<noteq> [])"

definition mergedRow ::
  "string \<Rightarrow> nat \<Rightarrow> string \<Rightarrow> EbookCatalogItemRow \<Rightarrow> EbookCatalogItemRow \<Rightarrow> EbookCatalogItemRow" where
  "mergedRow lang nowIso importSource existing row =
     \<lparr> id_col = id_col existing,
       lang_code = orElse (lang_code existing) lang,
       title_col = orElse (title_col existing) (title_col row),
       author_col = orElse (author_col existing) (author_col row),
       category_col = orElse (category_col existing) (orElse (category_col row) ''Fiction''),
       cover_url = (if canUpgradeCover existing row then Some (incomingCover row)
                    else if existingCover existing = [] then None else Some (existingCover existing)),
       download_url = orElse (existingDl existing) (download_url row),
       source = (if canBackfillDownloadUrl existing row then importSource
                 else orElse (source existing) importSource),
       source_id = (if canBackfillDownloadUrl existing row then orNull (source_id row)
                    else source_id existing),
       source_popularity = (case source_popularity existing of
                              Some n \<Rightarrow> Some n
                            | None \<Rightarrow> source_popularity row),
       author_norm = orElse (author_norm existing)
                       (normalizeForCatalogNorm (orElse (author_col existing) (author_col row))),
       title_norm = orElse (title_norm existing)
                      (normalizeForCatalogNorm (orElse (title_col existing) (title_col row))),
       updated_at = nowIso,
       last_seen_at = nowIso \<rparr>"

definition mergeExisting ::
  "string \<Rightarrow> nat \<Rightarrow> string \<Rightarrow> EbookCatalogItemRow \<Rightarrow> EbookCatalogItemRow \<Rightarrow> EbookCatalogItemRow option" where
  "mergeExisting lang nowIso importSource existing row =
     (if \<not> canUpgradeCover existing row \<and> \<not> canBackfillDownloadUrl existing row then None
      else Some (mergedRow lang nowIso importSource existing row))"

definition fetchExistingByIds :: "datastore \<Rightarrow> string list \<Rightarrow> string + (string \<rightharpoonup> EbookCatalogItemRow)" where
  \<comment> \<open>\<open>new Map(rows.map(r => [r.id, r]))\<close> over the rows whose id is among \<open>ids\<close>\<close>
  "fetchExistingByIds db ids =
     (if ids = [] then Inr Map.empty
      else if available db
      then Inr (map_of (rev (map (\<lambda>r. (id_col r, r)) (filter (\<lambda>r. id_col r \<in> set ids) (items_table db)))))
      else Inl ''datastore error'')"

definition planBatch ::
  "string \<Rightarrow> nat \<Rightarrow> string \<Rightarrow> (string \<rightharpoonup> EbookCatalogItemRow) \<Rightarrow> EbookCatalogItemRow list
     \<Rightarrow> EbookCatalogItemRow list" where
  \<comment> \<open>the rows one batch adds to \<open>toUpsert\<close>\<close>
  "planBatch lang nowIso importSource existingById batch =
     concat (map (\<lambda>row. case existingById (id_col row) of
                          None \<Rightarrow> [row]
                        | Some existing \<Rightarrow>
                            (case mergeExisting lang nowIso importSource existing row of
                               None \<Rightarrow> []
                             | Some merged \<Rightarrow> [merged])) batch)"

function importPlan ::
  "datastore \<Rightarrow> string \<Rightarrow> nat \<Rightarrow> string \<Rightarrow> EbookCatalogItemRow list \<Rightarrow> string + EbookCatalogItemRow list" where
  \<comment> \<open>\<open>toUpsert\<close> for the validated, deduplicated rows \<open>incoming\<close>, in batches of 200\<close>
  "importPlan db lang nowIso importSource incoming =
     (if incoming = [] then Inr []
      else (case fetchExistingByIds db (map id_col (take 200 incoming)) of
              Inl e \<Rightarrow> Inl e
            | Inr existingById \<Rightarrow>
                (case importPlan db lang nowIso importSource (drop 200 incoming) of
                   Inl e \<Rightarrow> Inl e
                 | Inr later \<Rightarrow>
                     Inr (planBatch lang nowIso importSource existingById (take 200 incoming) @ later))))"
  by pat_completeness auto
termination
  by (relation "measure (\<lambda>(db, lang, nowIso, importSource, incoming). length incoming)") auto

declare importPlan.simps [simp del]

definition storedRow :: EbookCatalogItemRow where
  "storedRow =
     \<lparr> id_col = ''en::emma::jane austen'', lang_code = ''en'', title_col = ''Emma'',
       author_col = ''Jane Austen'', category_col = ''Romance'',
       cover_url = Some ''https://www.gutenberg.org/cache/epub/158/pg158.cover.medium.jpg'',
       download_url = ''https://www.gutenberg.org/ebooks/158.epub.images'',
       source = ''gutendex'', source_id = Some ''gutenberg:158'', source_popularity = Some 900,
       author_norm = ''jane austen'', title_norm = ''emma'', updated_at = 1000, last_seen_at = 1000 \<rparr>"

definition importedRow :: EbookCatalogItemRow where
  "importedRow =
     \<lparr> id_col = ''en::emma::jane austen'', lang_code = ''en'', title_col = ''EMMA'',
       author_col = ''Jane Austen'', category_col = ''Fiction'',
       cover_url = Some ''https://manybooks.net/covers/emma.jpg'',
       download_url = ''https://manybooks.net/download/emma.epub'',
       source = ''manybooks'', source_id = Some ''mb-77'', source_popularity = None,
       author_norm = ''jane austen'', title_norm = ''emma'', updated_at = 2000, last_seen_at = 2000 \<rparr>"

definition oneRowStore :: datastore where
  "oneRowStore = \<lparr> available = True, items_table = [storedRow], category_counts = [], author_counts = [] \<rparr>"


definition olStarted :: "ol_match flight_cache" where
  "olStarted = \<lparr> cacheEntries = Map.empty, inFlightKeys = {''en::emma::jane austen''}, computeCalls = 1 \<rparr>"

definition olFailed :: "ol_match flight_cache" where
  "olFailed = \<lparr> cacheEntries = [''en::emma::jane austen'' \<mapsto> (21600000, noMatch)],
                inFlightKeys = {}, computeCalls = 1 \<rparr>"

definition lookupExisting :: "datastore \<Rightarrow> string \<Rightarrow> EbookCatalogItemRow option" where
  \<comment> \<open>the persisted row of an id, as \<open>existingById.get\<close> finds it\<close>
  "lookupExisting db i = map_of (rev (map (\<lambda>r. (id_col r, r)) (items_table db))) i"

definition planRow ::
  "datastore \<Rightarrow> string \<Rightarrow> nat \<Rightarrow> string \<Rightarrow> EbookCatalogItemRow \<Rightarrow> EbookCatalogItemRow list" where
  \<comment> \<open>what one incoming row adds to \<open>toUpsert\<close>\<close>
  "planRow db lang nowIso importSource row =
     (case lookupExisting db (id_col row) of
        None \<Rightarrow> [row]
      | Some existing \<Rightarrow>
          (case mergeExisting lang nowIso importSource existing row of
             None \<Rightarrow> []
           | Some merged \<Rightarrow> [merged]))"

definition upgradedRow :: EbookCatalogItemRow where
  "upgradedRow =
     \<lparr> id_col = ''en::emma::jane austen'', lang_code = ''en'', title_col = ''Emma'',
       author_col = ''Jane Austen'', category_col = ''Romance'',
       cover_url = Some ''https://manybooks.net/covers/emma.jpg'',
       download_url = ''https://www.gutenberg.org/ebooks/158.epub.images'',
       source = ''gutendex'', source_id = Some ''gutenberg:158'', source_popularity = Some 900,
       author_norm = ''jane austen'', title_norm = ''emma'', updated_at = 5, last_seen_at = 5 \<rparr>"

section \<open>Lower-casing commutes with the white-space operations\<close>

lemma distinct_upper_lower: "distinct (upperChars @ lowerChars)"
  by (simp add: upperChars_def lowerChars_def)

lemma toLowerChar_cases:
  "toLowerChar c = c \<or> (c \<in> set upperChars \<and> toLowerChar c \<in> set lowerChars)"
  unfolding toLowerChar_def
  by (auto split: option.splits dest!: map_of_SomeD dest: set_zip_leftD set_zip_rightD)

lemma toLowerChar_fix: "c \<notin> set upperChars \<Longrightarrow> toLowerChar c = c"
  using toLowerChar_cases[of c] by blast

lemma lower_not_space: "x \<in> set lowerChars \<Longrightarrow> \<not> isSpace x"
  unfolding isSpace_def lowerChars_def by auto

lemma upper_not_space: "x \<in> set upperChars \<Longrightarrow> \<not> isSpace x"
  unfolding isSpace_def upperChars_def by auto

lemma isSpace_toLowerChar [simp]: "isSpace (toLowerChar c) = isSpace c"
  using toLowerChar_cases[of c] lower_not_space upper_not_space by metis

lemma toLowerChar_idem [simp]: "toLowerChar (toLowerChar c) = toLowerChar c"
proof -
  have "\<And>x. x \<in> set lowerChars \<Longrightarrow> x \<notin> set upperChars"
    using distinct_upper_lower by auto
  then show ?thesis using toLowerChar_cases[of c] toLowerChar_fix by metis
qed

lemma dropWhile_toLower:
  "dropWhile isSpace (map toLowerChar s) = map toLowerChar (dropWhile isSpace s)"
  by (induction s) auto

lemma trim_toLowerCase: "trim (toLowerCase s) = toLowerCase (trim s)"
  unfolding trim_def toLowerCase_def by (simp add: dropWhile_toLower rev_map)

lemma collapseSpaces_toLowerCase: "collapseSpaces (toLowerCase s) = toLowerCase (collapseSpaces s)"
  unfolding toLowerCase_def
proof (induction s rule: collapseSpaces.induct)
  case 1
  show ?case by simp
next
  case (2 c cs)
  have sp: "toLowerChar CHR '' '' = CHR '' ''" by code_simp
  show ?case using 2 by (simp add: dropWhile_toLower sp)
qed

section \<open>Removing diacritics\<close>

lemma baseChar_cases:
  "baseChar c = c \<or> (c \<in> set (map fst baseChars) \<and> baseChar c \<in> set (map snd baseChars))"
  unfolding baseChar_def
  by (auto split: option.splits dest!: map_of_SomeD simp: image_iff) force+

lemma baseChar_space_list:
  "\<forall>c \<in> set [CHR 0x09, CHR 0x0A, CHR 0x0B, CHR 0x0C, CHR 0x0D, CHR '' '', CHR 0xA0]. isSpace (baseChar c)"
  by code_simp

lemma baseChar_space: "isSpace c \<Longrightarrow> isSpace (baseChar c)"
  using baseChar_space_list unfolding isSpace_def[of c] by blast

lemma baseChar_images_fixed: "\<forall>x \<in> set (map snd baseChars). baseChar x = x"
  by code_simp

lemma baseChar_idem [simp]: "baseChar (baseChar c) = baseChar c"
  using baseChar_cases[of c] baseChar_images_fixed by metis

lemma baseChar_lower_upper:
  "\<forall>c \<in> set upperChars. baseChar (toLowerChar c) = toLowerChar (baseChar c)"
  by code_simp

lemma baseChar_lower_keys:
  "\<forall>c \<in> set (map fst baseChars). baseChar (toLowerChar c) = toLowerChar (baseChar c)"
  by code_simp

lemma baseChar_toLowerChar: "baseChar (toLowerChar c) = toLowerChar (baseChar c)"
proof (cases "c \<in> set (map fst baseChars)")
  case True
  then show ?thesis using baseChar_lower_keys by blast
next
  case False
  then have b: "baseChar c = c" using baseChar_cases[of c] by blast
  show ?thesis
  proof (cases "c \<in> set upperChars")
    case True
    then show ?thesis using baseChar_lower_upper by blast
  next
    case False
    then have "toLowerChar c = c" by (rule toLowerChar_fix)
    then show ?thesis using b by simp
  qed
qed

lemma stripDiacritics_toLowerCase:
  "stripDiacritics (toLowerCase s) = toLowerCase (stripDiacritics s)"
  by (simp add: stripDiacritics_def toLowerCase_def baseChar_toLowerChar)

lemma stripDiacritics_idem: "stripDiacritics (stripDiacritics s) = stripDiacritics s"
  by (simp add: stripDiacritics_def)

section \<open>White space\<close>

lemma trim_trimEnd: "trim s = trimEnd (dropWhile isSpace s)"
  by (simp add: trim_def trimEnd_def)

lemma isSpace_blank [simp]: "isSpace CHR '' ''"
  by (simp add: isSpace_def)

lemma blank_Nil [simp]: "blank []"
  by (simp add: blank_def)

lemma blank_Cons [simp]: "blank (c # cs) = (isSpace c \<and> blank cs)"
  by (simp add: blank_def)

lemma blank_dropWhile [simp]: "blank (dropWhile isSpace cs) = blank cs"
  by (induction cs) simp_all

lemma dropWhile_blank: "blank cs \<Longrightarrow> dropWhile isSpace cs = []"
  by (induction cs) simp_all

lemma dropWhile_append_blank: "blank cs \<Longrightarrow> dropWhile isSpace (cs @ y) = dropWhile isSpace y"
  by (induction cs) simp_all

lemma dropWhile_append_nonblank:
  "\<not> blank cs \<Longrightarrow> dropWhile isSpace (cs @ y) = dropWhile isSpace cs @ y"
  by (induction cs) simp_all

lemma dropWhile_collapseSpaces:
  "dropWhile isSpace (collapseSpaces x) = collapseSpaces (dropWhile isSpace x)"
  by (induction x rule: collapseSpaces.induct) simp_all

lemma blank_collapseSpaces [simp]: "blank (collapseSpaces x) = blank x"
  by (induction x rule: collapseSpaces.induct) simp_all

lemma trimEnd_Nil [simp]: "trimEnd [] = []"
  by (simp add: trimEnd_def)

lemma blank_rev: "blank (rev cs) = blank cs"
  by (auto simp: blank_def list_all_iff)

lemma trimEnd_blank: "blank cs \<Longrightarrow> trimEnd cs = []"
  unfolding trimEnd_def using dropWhile_blank[of "rev cs"] by (simp add: blank_rev)

lemma trimEnd_Cons:
  "trimEnd (c # cs) = (if isSpace c \<and> blank cs then [] else c # trimEnd cs)"
proof (cases "blank cs")
  case True
  then have "dropWhile isSpace (rev cs @ [c]) = dropWhile isSpace [c]"
    using dropWhile_append_blank[of "rev cs" "[c]"] by (simp add: blank_rev)
  then show ?thesis using True trimEnd_blank[OF True] by (simp add: trimEnd_def)
next
  case False
  then have "dropWhile isSpace (rev cs @ [c]) = dropWhile isSpace (rev cs) @ [c]"
    using dropWhile_append_nonblank[of "rev cs" "[c]"] by (simp add: blank_rev)
  then show ?thesis using False by (simp add: trimEnd_def)
qed

lemma trimEnd_dropWhile: "trimEnd (dropWhile isSpace x) = dropWhile isSpace (trimEnd x)"
proof (induction x)
  case Nil
  then show ?case by simp
next
  case (Cons c cs)
  show ?case
  proof (cases "isSpace c")
    case True
    show ?thesis
    proof (cases "blank cs")
      case b: True
      then have "trimEnd (dropWhile isSpace cs) = []"
        using trimEnd_blank[of "dropWhile isSpace cs"] by simp
      then show ?thesis using True b by (simp add: trimEnd_Cons)
    next
      case False
      then show ?thesis using True Cons by (simp add: trimEnd_Cons)
    qed
  next
    case False
    then show ?thesis by (simp add: trimEnd_Cons)
  qed
qed

lemma trimEnd_collapseSpaces: "trimEnd (collapseSpaces x) = collapseSpaces (trimEnd x)"
proof (induction x rule: collapseSpaces.induct)
  case 1
  then show ?case by simp
next
  case (2 c cs)
  show ?case
  proof (cases "isSpace c")
    case True
    note ih = 2(1)[OF True]
    show ?thesis
    proof (cases "blank cs")
      case b: True
      then show ?thesis using True by (simp add: trimEnd_Cons)
    next
      case False
      have l: "trimEnd (collapseSpaces (c # cs))
                 = CHR '' '' # collapseSpaces (trimEnd (dropWhile isSpace cs))"
        using True False ih by (simp add: trimEnd_Cons)
      have r: "collapseSpaces (trimEnd (c # cs))
                 = CHR '' '' # collapseSpaces (dropWhile isSpace (trimEnd cs))"
        using True False by (simp add: trimEnd_Cons)
      show ?thesis using l r trimEnd_dropWhile[of cs] by simp
    qed
  next
    case False
    then show ?thesis using 2(2)[OF False] by (simp add: trimEnd_Cons)
  qed
qed

lemma trim_collapseSpaces: "trim (collapseSpaces x) = collapseSpaces (trim x)"
  by (simp add: trim_trimEnd dropWhile_collapseSpaces trimEnd_collapseSpaces)

lemma collapseSpaces_append_cong:
  "collapseSpaces y = collapseSpaces y' \<Longrightarrow> collapseSpaces (u @ y) = collapseSpaces (u @ y')"
proof (induction u rule: collapseSpaces.induct)
  case 1
  then show ?case by simp
next
  case (2 c cs)
  show ?case
  proof (cases "isSpace c")
    case True
    show ?thesis
    proof (cases "blank cs")
      case b: True
      have "dropWhile isSpace (collapseSpaces y) = dropWhile isSpace (collapseSpaces y')"
        using 2(3) by simp
      then have e: "collapseSpaces (dropWhile isSpace y) = collapseSpaces (dropWhile isSpace y')"
        by (simp only: dropWhile_collapseSpaces)
      show ?thesis using True e by (simp add: dropWhile_append_blank[OF b])
    next
      case False
      show ?thesis using True 2(1)[OF True 2(3)] by (simp add: dropWhile_append_nonblank[OF False])
    qed
  next
    case False
    then show ?thesis using 2(2)[OF False 2(3)] by simp
  qed
qed

lemma dropWhile_stripDiacritics:
  "dropWhile isSpace (stripDiacritics x) = dropWhile isSpace (stripDiacritics (dropWhile isSpace x))"
  by (induction x) (simp_all add: stripDiacritics_def baseChar_space)

lemma collapseSpaces_stripDiacritics:
  "collapseSpaces (stripDiacritics (collapseSpaces x)) = collapseSpaces (stripDiacritics x)"
proof (induction x rule: collapseSpaces.induct)
  case 1
  then show ?case by simp
next
  case (2 c cs)
  have sp: "baseChar CHR '' '' = CHR '' ''" by code_simp
  show ?case
  proof (cases "isSpace c")
    case True
    have "dropWhile isSpace (collapseSpaces (stripDiacritics (collapseSpaces (dropWhile isSpace cs))))
        = dropWhile isSpace (collapseSpaces (stripDiacritics (dropWhile isSpace cs)))"
      using 2(1)[OF True] by simp
    then have "collapseSpaces (dropWhile isSpace (stripDiacritics (collapseSpaces (dropWhile isSpace cs))))
        = collapseSpaces (dropWhile isSpace (stripDiacritics (dropWhile isSpace cs)))"
      by (simp only: dropWhile_collapseSpaces)
    then have "collapseSpaces (dropWhile isSpace (stripDiacritics (collapseSpaces (dropWhile isSpace cs))))
        = collapseSpaces (dropWhile isSpace (stripDiacritics cs))"
      by (simp only: dropWhile_stripDiacritics[of cs, symmetric])
    then show ?thesis using True baseChar_space[OF True] sp
      by (simp add: stripDiacritics_def)
  next
    case False
    have "collapseSpaces ([baseChar c] @ stripDiacritics (collapseSpaces cs))
        = collapseSpaces ([baseChar c] @ stripDiacritics cs)"
      using 2(2)[OF False] by (rule collapseSpaces_append_cong)
    then show ?thesis using False by (simp add: stripDiacritics_def)
  qed
qed

lemma trimEnd_stripDiacritics:
  "trimEnd (stripDiacritics x) = trimEnd (stripDiacritics (trimEnd x))"
proof -
  have "dropWhile isSpace (stripDiacritics (rev x))
      = dropWhile isSpace (stripDiacritics (dropWhile isSpace (rev x)))"
    by (rule dropWhile_stripDiacritics)
  then show ?thesis by (simp add: trimEnd_def stripDiacritics_def rev_map)
qed

lemma trim_stripDiacritics: "trim (stripDiacritics (trim x)) = trim (stripDiacritics x)"
proof -
  let ?dw = "dropWhile isSpace"
  have "trim (stripDiacritics x) = trimEnd (?dw (stripDiacritics (?dw x)))"
    unfolding trim_trimEnd using dropWhile_stripDiacritics[of x] by simp
  also have "\<dots> = ?dw (trimEnd (stripDiacritics (?dw x)))"
    by (rule trimEnd_dropWhile)
  also have "\<dots> = ?dw (trimEnd (stripDiacritics (trimEnd (?dw x))))"
    using trimEnd_stripDiacritics[of "?dw x"] by simp
  also have "\<dots> = trimEnd (?dw (stripDiacritics (trimEnd (?dw x))))"
    by (rule trimEnd_dropWhile[symmetric])
  finally show ?thesis unfolding trim_trimEnd by simp
qed

lemma normalizeForCatalogNorm_eq:
  "normalizeForCatalogNorm v = toLowerCase (trim (collapseSpaces (stripDiacritics v)))"
proof -
  have e: "trim (collapseSpaces (stripDiacritics (trim v))) = trim (collapseSpaces (stripDiacritics v))"
    by (simp add: trim_collapseSpaces trim_stripDiacritics)
  show ?thesis
  proof (cases "trim v = []")
    case True
    have "trim (collapseSpaces (stripDiacritics [])) = []"
      by (simp add: stripDiacritics_def trim_def)
    then have "trim (collapseSpaces (stripDiacritics v)) = []" using e True by simp
    then show ?thesis using True by (simp add: normalizeForCatalogNorm_def toLowerCase_def)
  next
    case False
    then show ?thesis using e by (simp add: normalizeForCatalogNorm_def)
  qed
qed

lemma normalizeForCatalogNorm_collapseSpaces:
  "normalizeForCatalogNorm (collapseSpaces v) = normalizeForCatalogNorm v"
  by (simp add: normalizeForCatalogNorm_eq collapseSpaces_stripDiacritics)

lemma normalizeForCatalogNorm_stripDiacritics:
  "normalizeForCatalogNorm (stripDiacritics v) = normalizeForCatalogNorm v"
  by (simp add: normalizeForCatalogNorm_eq stripDiacritics_idem)


lemma normalizeForCatalogNorm_toLowerCase:
  "normalizeForCatalogNorm (toLowerCase s) = normalizeForCatalogNorm s"
  by (simp add: normalizeForCatalogNorm_eq stripDiacritics_toLowerCase collapseSpaces_toLowerCase
      trim_toLowerCase) (simp add: toLowerCase_def)

lemma dropWhile_rev_keep:
  assumes "xs \<noteq> []" "\<not> P (hd xs)"
  shows "dropWhile P (rev (dropWhile P (rev xs))) = rev (dropWhile P (rev xs))"
proof -
  obtain x r where xs: "xs = x # r" using assms(1) by (cases xs) auto
  have "\<exists>zs. dropWhile P (rev xs) = zs @ [x]"
    using assms(2) by (auto simp: xs dropWhile_append)
  then obtain zs where "dropWhile P (rev xs) = zs @ [x]" by blast
  then show ?thesis using assms(2) by (simp add: xs)
qed

lemma trim_idem: "trim (trim s) = trim s"
proof (cases "dropWhile isSpace s = []")
  case True
  show ?thesis unfolding trim_def True by simp
next
  case False
  let ?t = "dropWhile isSpace s"
  have h: "\<not> isSpace (hd ?t)" using False by (rule hd_dropWhile)
  have 1: "dropWhile isSpace (rev (dropWhile isSpace (rev ?t))) = rev (dropWhile isSpace (rev ?t))"
    using False h by (rule dropWhile_rev_keep)
  show ?thesis unfolding trim_def 1 by (simp add: dropWhile_idem)
qed

lemma normalizeForCatalogNorm_trim: "normalizeForCatalogNorm (trim s) = normalizeForCatalogNorm s"
  by (simp add: normalizeForCatalogNorm_def trim_idem)

lemmas norm_eval =
  toCatalogId_def normalizeForCatalogNorm_def trim_def isSpace_def toLowerCase_def
  toLowerChar_def stripDiacritics_def baseChar_def baseChars_def upperChars_def lowerChars_def

section \<open>The deduplication key\<close>

text \<open>
  C3, as stated: the key of "The Great Adventure: A Tale" by "J. Doe" equals the key of
  "the great   adventure" by "j. doe". The catalog id keeps the subtitle, so the two keys differ.
\<close>

theorem toCatalogId_keeps_subtitle:
  "toCatalogId ''en'' ''The Great Adventure: A Tale'' ''J. Doe''
     \<noteq> toCatalogId ''en'' ''the great   adventure'' ''j. doe''"
  by code_simp

text \<open>
  C3, amended: the deduplication key is insensitive to case, to white space and to diacritics,
  not to a subtitle. For every language the key of "The Great Adventure" by "J. Doe" equals
  the key of "the great   adventure" by "j. doe", and the key of "CAFE  Societe" by "Emile
  Zola", written with their acute accents (U+00C9, U+00E9), a no-break space and a tabulator,
  equals that of "cafe societe" by "emile zola". No key changes when
  title and author are lower-cased, when every run of white space in them is replaced by one
  space, when the white space around them is removed, or when their diacritics are removed; so
  two titles that differ only in the length or the kind of their runs of white space have the
  same key.
\<close>

theorem toCatalogId_case_whitespace_insensitive:
  "toCatalogId lang ''The Great Adventure'' ''J. Doe''
     = toCatalogId lang ''the great   adventure'' ''j. doe''
   \<and> toCatalogId lang [CHR ''C'', CHR ''A'', CHR ''F'', CHR 0xC9, CHR '' '', CHR 0xA0,
                        CHR ''S'', CHR ''o'', CHR ''c'', CHR ''i'', CHR 0xE9, CHR ''t'', CHR 0xE9]
                       [CHR 0xC9, CHR ''m'', CHR ''i'', CHR ''l'', CHR ''e'', CHR 0x09,
                        CHR ''Z'', CHR ''o'', CHR ''l'', CHR ''a'']
     = toCatalogId lang ''cafe societe'' ''emile zola''
   \<and> toCatalogId lang (toLowerCase t) (toLowerCase a) = toCatalogId lang t a
   \<and> toCatalogId lang (collapseSpaces t) (collapseSpaces a) = toCatalogId lang t a
   \<and> toCatalogId lang (trim t) (trim a) = toCatalogId lang t a
   \<and> toCatalogId lang (stripDiacritics t) (stripDiacritics a) = toCatalogId lang t a
   \<and> (collapseSpaces t = collapseSpaces t' \<and> collapseSpaces a = collapseSpaces a'
        \<longrightarrow> toCatalogId lang t a = toCatalogId lang t' a')"
proof -
  have t1: "normalizeForCatalogNorm ''The Great Adventure''
              = normalizeForCatalogNorm ''the great   adventure''"
    by code_simp
  have a1: "normalizeForCatalogNorm ''J. Doe'' = normalizeForCatalogNorm ''j. doe''"
    by code_simp
  have t2: "normalizeForCatalogNorm
              [CHR ''C'', CHR ''A'', CHR ''F'', CHR 0xC9, CHR '' '', CHR 0xA0,
               CHR ''S'', CHR ''o'', CHR ''c'', CHR ''i'', CHR 0xE9, CHR ''t'', CHR 0xE9]
              = normalizeForCatalogNorm ''cafe societe''"
    by code_simp
  have a2: "normalizeForCatalogNorm
              [CHR 0xC9, CHR ''m'', CHR ''i'', CHR ''l'', CHR ''e'', CHR 0x09,
               CHR ''Z'', CHR ''o'', CHR ''l'', CHR ''a'']
              = normalizeForCatalogNorm ''emile zola''"
    by code_simp
  have p1: "toCatalogId lang ''The Great Adventure'' ''J. Doe''
     = toCatalogId lang ''the great   adventure'' ''j. doe''"
    by (simp only: toCatalogId_def t1 a1)
  have p2: "toCatalogId lang [CHR ''C'', CHR ''A'', CHR ''F'', CHR 0xC9, CHR '' '', CHR 0xA0,
                        CHR ''S'', CHR ''o'', CHR ''c'', CHR ''i'', CHR 0xE9, CHR ''t'', CHR 0xE9]
                       [CHR 0xC9, CHR ''m'', CHR ''i'', CHR ''l'', CHR ''e'', CHR 0x09,
                        CHR ''Z'', CHR ''o'', CHR ''l'', CHR ''a'']
     = toCatalogId lang ''cafe societe'' ''emile zola''"
    by (simp only: toCatalogId_def t2 a2)
  have p3: "toCatalogId lang (toLowerCase t) (toLowerCase a) = toCatalogId lang t a"
    by (simp add: toCatalogId_def normalizeForCatalogNorm_toLowerCase)
  have p4: "toCatalogId lang (collapseSpaces t) (collapseSpaces a) = toCatalogId lang t a"
    by (simp add: toCatalogId_def normalizeForCatalogNorm_collapseSpaces)
  have p5: "toCatalogId lang (trim t) (trim a) = toCatalogId lang t a"
    by (simp add: toCatalogId_def normalizeForCatalogNorm_trim)
  have p6: "toCatalogId lang (stripDiacritics t) (stripDiacritics a) = toCatalogId lang t a"
    by (simp add: toCatalogId_def normalizeForCatalogNorm_stripDiacritics)
  have p7: "collapseSpaces t = collapseSpaces t' \<and> collapseSpaces a = collapseSpaces a'
        \<longrightarrow> toCatalogId lang t a = toCatalogId lang t' a'"
  proof
    assume h: "collapseSpaces t = collapseSpaces t' \<and> collapseSpaces a = collapseSpaces a'"
    have "normalizeForCatalogNorm t = normalizeForCatalogNorm t'"
      using h normalizeForCatalogNorm_collapseSpaces by metis
    moreover have "normalizeForCatalogNorm a = normalizeForCatalogNorm a'"
      using h normalizeForCatalogNorm_collapseSpaces by metis
    ultimately show "toCatalogId lang t a = toCatalogId lang t' a'"
      by (simp add: toCatalogId_def)
  qed
  show ?thesis using p1 p2 p3 p4 p5 p6 p7 by (intro conjI)
qed

text \<open>
  Two titles that differ in their runs of white space: two spaces and a tabulator against
  single spaces.
\<close>

theorem toCatalogId_case_whitespace_insensitive_witness:
  "collapseSpaces ''The  Great''  = collapseSpaces [CHR ''T'', CHR ''h'', CHR ''e'', CHR 0x09,
       CHR ''G'', CHR ''r'', CHR ''e'', CHR ''a'', CHR ''t'']
   \<and> toCatalogId ''en'' ''The  Great'' ''J.  Doe''
       = toCatalogId ''en'' [CHR ''T'', CHR ''h'', CHR ''e'', CHR 0x09,
            CHR ''G'', CHR ''r'', CHR ''e'', CHR ''a'', CHR ''t''] ''J. Doe''"
proof -
  have c1: "collapseSpaces ''The  Great''  = collapseSpaces [CHR ''T'', CHR ''h'', CHR ''e'', CHR 0x09,
       CHR ''G'', CHR ''r'', CHR ''e'', CHR ''a'', CHR ''t'']"
    by code_simp
  have c2: "collapseSpaces ''J.  Doe'' = collapseSpaces ''J. Doe''"
    by code_simp
  have "toCatalogId ''en'' ''The  Great'' ''J.  Doe''
       = toCatalogId ''en'' [CHR ''T'', CHR ''h'', CHR ''e'', CHR 0x09,
            CHR ''G'', CHR ''r'', CHR ''e'', CHR ''a'', CHR ''t''] ''J. Doe''"
    using toCatalogId_case_whitespace_insensitive[where t = "''The  Great''"
        and t' = "[CHR ''T'', CHR ''h'', CHR ''e'', CHR 0x09, CHR ''G'', CHR ''r'', CHR ''e'', CHR ''a'', CHR ''t'']"
        and a = "''J.  Doe''" and a' = "''J. Doe''" and lang = "''en''"] c1 c2
    by blast
  then show ?thesis using c1 by simp
qed

section \<open>The merge rule\<close>

lemma pick_beats: "pickBetterCandidate a b = (if beats b a then b else a)"
  unfolding pickBetterCandidate_def beats_def by auto

lemma beats_total: "\<not> beats a b \<Longrightarrow> \<not> beats b a \<Longrightarrow> quality a = quality b"
  unfolding beats_def quality_def by auto

lemma beats_negtrans: "\<not> beats z p \<Longrightarrow> \<not> beats p w \<Longrightarrow> \<not> beats z w"
  unfolding beats_def by auto

lemma beats_irrefl: "\<not> beats a a"
  unfolding beats_def by auto

lemma beats_asym: "beats a b \<Longrightarrow> \<not> beats b a"
  unfolding beats_def by auto

lemma foldl_pick_max:
  "foldl pickBetterCandidate x xs \<in> set (x # xs) \<and>
   (\<forall>y \<in> set (x # xs). \<not> beats y (foldl pickBetterCandidate x xs))"
proof (induction xs arbitrary: x)
  case Nil
  show ?case by (simp add: beats_irrefl)
next
  case (Cons y ys)
  let ?p = "pickBetterCandidate x y"
  let ?w = "foldl pickBetterCandidate ?p ys"
  have ih: "?w \<in> set (?p # ys)" "\<forall>z \<in> set (?p # ys). \<not> beats z ?w"
    using Cons.IH[of ?p] by auto
  have p1: "?p = x \<or> ?p = y" by (simp add: pick_beats)
  have p2: "\<not> beats x ?p" "\<not> beats y ?p"
    by (auto simp: pick_beats beats_irrefl beats_asym)
  have pw: "\<not> beats ?p ?w" using ih(2) by simp
  have "\<not> beats x ?w" "\<not> beats y ?w" using p2 pw beats_negtrans by blast+
  then show ?case using ih p1 by auto
qed

lemma foldGroup_snoc:
  "foldGroup (xs @ [b]) =
     (case foldGroup xs of None \<Rightarrow> Some b | Some w \<Rightarrow> Some (pickBetterCandidate w b))"
  unfolding foldGroup_def by (cases xs) auto

lemma foldGroup_member:
  assumes "foldGroup xs = Some w"
  shows "w \<in> set xs \<and> (\<forall>y \<in> set xs. \<not> beats y w)"
proof -
  obtain x r where xr: "xs = x # r" and w: "w = foldl pickBetterCandidate x r"
    using assms by (auto simp: foldGroup_def split: list.splits)
  show ?thesis using foldl_pick_max[of x r] by (simp add: xr w)
qed

lemma foldGroup_None: "foldGroup xs = None \<longleftrightarrow> xs = []"
  by (simp add: foldGroup_def split: list.splits)

lemma dedupe_lookup:
  "map_of (syncDedupe lang all) k =
     foldGroup (filter (\<lambda>b. acceptable b \<and> candidateId lang b = k) all)"
proof (induction all rule: rev_induct)
  case Nil
  show ?case by (simp add: syncDedupe_def foldGroup_def)
next
  case (snoc b bs)
  have st: "syncDedupe lang (bs @ [b]) = dedupeStep lang (syncDedupe lang bs) b"
    by (simp add: syncDedupe_def)
  show ?case
    unfolding st using snoc
    by (auto simp: dedupeStep_def update_conv' foldGroup_snoc split: option.splits)
qed

lemma foldGroup_quality_perm:
  assumes "mset xs = mset ys"
  shows "map_option quality (foldGroup xs) = map_option quality (foldGroup ys)"
proof (cases "foldGroup xs")
  case None
  then have "xs = []" by (simp add: foldGroup_None)
  then have "ys = []" using assms by simp
  then show ?thesis using None by (simp add: foldGroup_def)
next
  case (Some w)
  have se: "set xs = set ys" using assms by (rule mset_eq_setD)
  have w: "w \<in> set xs" "\<forall>y \<in> set xs. \<not> beats y w" using foldGroup_member[OF Some] by auto
  then have "ys \<noteq> []" using se by auto
  then obtain v where v: "foldGroup ys = Some v" by (cases "foldGroup ys") (auto simp: foldGroup_None)
  have v': "v \<in> set ys" "\<forall>y \<in> set ys. \<not> beats y v" using foldGroup_member[OF v] by auto
  have "\<not> beats v w" using w(2) v'(1) se by blast
  moreover have "\<not> beats w v" using v'(2) w(1) se by blast
  ultimately have "quality v = quality w" by (rule beats_total)
  then show ?thesis by (simp add: Some v)
qed

lemma foldGroup_strict_best_perm:
  assumes "mset xs = mset ys" and "foldGroup xs = Some w"
    and best: "\<forall>y \<in> set xs. y \<noteq> w \<longrightarrow> beats w y"
  shows "foldGroup ys = Some w"
proof -
  have se: "set xs = set ys" using assms(1) by (rule mset_eq_setD)
  have w: "w \<in> set xs" using foldGroup_member[OF assms(2)] by simp
  then have "ys \<noteq> []" using se by auto
  then obtain v where v: "foldGroup ys = Some v" by (cases "foldGroup ys") (auto simp: foldGroup_None)
  have v': "v \<in> set ys" "\<forall>y \<in> set ys. \<not> beats y v" using foldGroup_member[OF v] by auto
  have "\<not> beats w v" using v'(2) w se by blast
  then have "v = w" using best v'(1) se by blast
  then show ?thesis using v by simp
qed

text \<open>
  C2, as stated: \<open>pick(a, b)\<close> and \<open>pick(b, a)\<close> select the same winner for any two candidates
  with the same key, and the fold order never matters. Two candidates of one key that tie on
  cover, popularity and source are each kept when seen first.
\<close>

theorem pickBetterCandidate_tie_keeps_first:
  "candidateId ''en'' tieA = candidateId ''en'' tieB
   \<and> pickBetterCandidate tieA tieB \<noteq> pickBetterCandidate tieB tieA
   \<and> map snd (syncDedupe ''en'' [tieA, tieB]) \<noteq> map snd (syncDedupe ''en'' [tieB, tieA])"
  by code_simp

text \<open>
  C2, amended: when two candidates differ in cover presence, popularity or source rank,
  \<open>pick(a, b)\<close> and \<open>pick(b, a)\<close> select the same winner; when they tie on all three, the
  first argument is kept. Folding the candidates of a synchronisation in any order leaves,
  under every key, a winner with the same cover presence, popularity and source rank, and
  the very same record when one candidate of the key is strictly preferred to all others.
\<close>

theorem pickBetterCandidate_order:
  "(quality a \<noteq> quality b \<longrightarrow> pickBetterCandidate a b = pickBetterCandidate b a)
   \<and> (quality a = quality b \<longrightarrow> pickBetterCandidate a b = a)
   \<and> (mset all' = mset all \<longrightarrow>
        map_option quality (map_of (syncDedupe lang all') k)
          = map_option quality (map_of (syncDedupe lang all) k))
   \<and> (mset all' = mset all \<and> map_of (syncDedupe lang all) k = Some w
        \<and> (\<forall>y \<in> set all. acceptable y \<and> candidateId lang y = k \<and> y \<noteq> w \<longrightarrow> beats w y)
      \<longrightarrow> map_of (syncDedupe lang all') k = Some w)"
proof (intro conjI impI)
  assume "quality a \<noteq> quality b"
  then show "pickBetterCandidate a b = pickBetterCandidate b a"
    unfolding pickBetterCandidate_def quality_def by auto
next
  assume "quality a = quality b"
  then show "pickBetterCandidate a b = a"
    unfolding pickBetterCandidate_def quality_def by auto
next
  assume "mset all' = mset all"
  then show "map_option quality (map_of (syncDedupe lang all') k)
      = map_option quality (map_of (syncDedupe lang all) k)"
    unfolding dedupe_lookup by (intro foldGroup_quality_perm) simp
next
  assume h: "mset all' = mset all \<and> map_of (syncDedupe lang all) k = Some w
        \<and> (\<forall>y \<in> set all. acceptable y \<and> candidateId lang y = k \<and> y \<noteq> w \<longrightarrow> beats w y)"
  let ?P = "\<lambda>b. acceptable b \<and> candidateId lang b = k"
  have "mset (filter ?P all) = mset (filter ?P all')" using h by simp
  moreover have "foldGroup (filter ?P all) = Some w" using h by (simp add: dedupe_lookup)
  moreover have "\<forall>y \<in> set (filter ?P all). y \<noteq> w \<longrightarrow> beats w y" using h by simp
  ultimately have "foldGroup (filter ?P all') = Some w" by (rule foldGroup_strict_best_perm)
  then show "map_of (syncDedupe lang all') k = Some w" by (simp add: dedupe_lookup)
qed

lemmas sync_eval =
  candidateId_def norm_eval pickBetterCandidate_def hasCover_def popularityOf_def rankOf_def
  syncDedupe_def dedupeStep_def acceptable_def hasResolvedAuthor_def emptyIfNone_def quality_def

lemma plain_cover_dedupe:
  "syncDedupe ''en'' [plainA, coverB] = [(''en::emma::jane austen'', coverB)]
   \<and> syncDedupe ''en'' [coverB, plainA] = [(''en::emma::jane austen'', coverB)]"
  by code_simp

theorem pickBetterCandidate_order_witness:
  "quality plainA \<noteq> quality coverB
   \<and> mset [coverB, plainA] = mset [plainA, coverB]
   \<and> pickBetterCandidate plainA coverB = pickBetterCandidate coverB plainA
   \<and> pickBetterCandidate tieA tieB = tieA
   \<and> map_of (syncDedupe ''en'' [coverB, plainA]) ''en::emma::jane austen'' = Some coverB"
proof -
  have q: "quality plainA \<noteq> quality coverB" "quality tieA = quality tieB"
    by (simp_all add: plainA_def coverB_def tieA_def tieB_def quality_def hasCover_def
        popularityOf_def rankOf_def)
  have m: "mset [coverB, plainA] = mset [plainA, coverB]" by simp
  have l: "map_of (syncDedupe ''en'' [plainA, coverB]) ''en::emma::jane austen'' = Some coverB"
    using plain_cover_dedupe by simp
  have b: "\<forall>y \<in> set [plainA, coverB].
      acceptable y \<and> candidateId ''en'' y = ''en::emma::jane austen'' \<and> y \<noteq> coverB \<longrightarrow> beats coverB y"
    by (simp add: plainA_def coverB_def beats_def hasCover_def)
  show ?thesis
    using pickBetterCandidate_order[of plainA coverB "[coverB, plainA]" "[plainA, coverB]"
        "''en''" "''en::emma::jane austen''" coverB]
      pickBetterCandidate_order[of tieA tieB "[]" "[]" "''en''" "''''" tieA] q m l b
    by blast
qed

section \<open>Synchronisation is idempotent\<close>

lemma dedupe_distinct: "distinct (map fst (syncDedupe lang all))"
proof -
  have "distinct (map fst d) \<Longrightarrow> distinct (map fst (foldl (dedupeStep lang) d all))" for d
  proof (induction all arbitrary: d)
    case Nil
    then show ?case by simp
  next
    case (Cons b bs)
    have "distinct (map fst (dedupeStep lang d b))"
      using Cons.prems by (auto simp: dedupeStep_def distinct_update split: option.splits)
    then show ?case using Cons.IH by simp
  qed
  then show ?thesis by (simp add: syncDedupe_def)
qed

lemma dedupe_entry:
  assumes "(k, b) \<in> set (syncDedupe lang all)"
  shows "acceptable b \<and> candidateId lang b = k"
proof -
  have "map_of (syncDedupe lang all) k = Some b"
    using assms dedupe_distinct by (simp add: map_of_eq_Some_iff)
  then have "foldGroup (filter (\<lambda>b. acceptable b \<and> candidateId lang b = k) all) = Some b"
    by (simp add: dedupe_lookup)
  then have "b \<in> set (filter (\<lambda>b. acceptable b \<and> candidateId lang b = k) all)"
    using foldGroup_member by blast
  then show ?thesis by simp
qed

lemma rows_ids: "map id_col (syncRows lang now all) = map fst (syncDedupe lang all)"
proof -
  have "\<forall>(k, b) \<in> set d. acceptable b \<and> candidateId lang b = k \<Longrightarrow>
        map id_col (List.map_filter (toRow lang now) (map snd d)) = map fst d" for d
    by (induction d) (auto simp: List.map_filter_simps toRow_def candidateId_def)
  then show ?thesis unfolding syncRows_def using dedupe_entry by blast
qed

lemma rows_distinct: "distinct (map id_col (syncRows lang now all))"
  by (simp add: rows_ids dedupe_distinct)

lemma rows_fields:
  assumes "r \<in> set (syncRows lang now all)"
  shows "lang_code r = lang \<and> title_norm r = normalizeForCatalogNorm (title_col r) \<and>
     author_norm r = normalizeForCatalogNorm (author_col r) \<and>
     id_col r = toCatalogId lang (title_col r) (author_col r)"
proof -
  obtain b where "toRow lang now b = Some r"
    using assms by (auto simp: syncRows_def List.map_filter_def)
  then show ?thesis by (auto simp: toRow_def split: if_splits)
qed

lemma rows_key_unique:
  assumes "r \<in> set (syncRows lang now all)" "r' \<in> set (syncRows lang now all)"
    and "title_norm r = title_norm r'" "author_norm r = author_norm r'"
  shows "r = r'"
proof -
  have "id_col r = id_col r'"
    using rows_fields[OF assms(1)] rows_fields[OF assms(2)] assms(3,4)
    by (simp add: toCatalogId_def)
  moreover have "inj_on id_col (set (syncRows lang now all))"
    using rows_distinct by (simp add: distinct_map)
  ultimately show ?thesis using assms(1,2) by (auto dest: inj_onD)
qed

lemma upsertRow_same:
  "id_col r \<in> id_col ` set t \<Longrightarrow> map id_col (upsertRow r t) = map id_col t"
  by (induction t) auto

lemma upsertRow_set: "id_col ` set (upsertRow r t) = insert (id_col r) (id_col ` set t)"
  by (induction t) auto

lemma upsertRows_set:
  "id_col ` set (foldl (\<lambda>t r. upsertRow r t) t rows) = id_col ` set t \<union> id_col ` set rows"
  by (induction rows arbitrary: t) (auto simp: upsertRow_set)

lemma upsertRows_same:
  "id_col ` set rows \<subseteq> id_col ` set t \<Longrightarrow>
     map id_col (foldl (\<lambda>t r. upsertRow r t) t rows) = map id_col t"
proof (induction rows arbitrary: t)
  case Nil
  show ?case by simp
next
  case (Cons r rows)
  have m: "map id_col (upsertRow r t) = map id_col t"
    using Cons.prems by (simp add: upsertRow_same)
  then have "id_col ` set (upsertRow r t) = id_col ` set t" by (metis set_map)
  then have "map id_col (foldl (\<lambda>t r. upsertRow r t) (upsertRow r t) rows)
      = map id_col (upsertRow r t)"
    using Cons.prems by (intro Cons.IH) simp
  then show ?case using m by simp
qed

lemma upsertCatalogItems_available:
  "available db \<Longrightarrow> upsertCatalogItems rows db =
     Inr (db\<lparr>items_table := foldl (\<lambda>t r. upsertRow r t) (items_table db) rows\<rparr>)"
proof (induction rows db rule: upsertCatalogItems.induct)
  case (1 rows db)
  show ?case
  proof (cases "rows = []")
    case True
    then show ?thesis by (subst upsertCatalogItems.simps) simp
  next
    case False
    let ?db' = "db\<lparr>items_table := foldl (\<lambda>t r. upsertRow r t) (items_table db) (take 400 rows)\<rparr>"
    have c: "upsertChunk (take 400 rows) db = Inr ?db'"
      using 1(2) by (simp add: upsertChunk_def)
    have "upsertCatalogItems (drop 400 rows) ?db' =
      Inr (?db'\<lparr>items_table := foldl (\<lambda>t r. upsertRow r t) (items_table ?db') (drop 400 rows)\<rparr>)"
      using 1(1)[OF False c] 1(2) by simp
    moreover have "foldl (\<lambda>t r. upsertRow r t)
          (foldl (\<lambda>t r. upsertRow r t) (items_table db) (take 400 rows)) (drop 400 rows)
        = foldl (\<lambda>t r. upsertRow r t) (items_table db) rows"
      by (metis append_take_drop_id foldl_append)
    ultimately show ?thesis using False c by (subst upsertCatalogItems.simps) simp
  qed
qed

text \<open>
  C1: the rows handed to the upsert carry pairwise different ids, hence at most one row per
  normalization key (language, normalized title, normalized author); every row's id is
  \<open>toCatalogId\<close> of its own language, title and author; a second run over the same candidates
  builds rows with the same ids in the same number, and on an available datastore it leaves
  the ids and the number of persisted rows as the first run left them.
\<close>

theorem sync_rows_unique_and_idempotent:
  "available db \<Longrightarrow>
   distinct (map id_col (syncRows lang now all))
   \<and> (\<forall>r \<in> set (syncRows lang now all).
        lang_code r = lang \<and> title_norm r = normalizeForCatalogNorm (title_col r)
        \<and> author_norm r = normalizeForCatalogNorm (author_col r)
        \<and> id_col r = toCatalogId lang (title_col r) (author_col r))
   \<and> (\<forall>r \<in> set (syncRows lang now all). \<forall>r' \<in> set (syncRows lang now all).
        title_norm r = title_norm r' \<and> author_norm r = author_norm r' \<longrightarrow> r = r')
   \<and> map id_col (syncRows lang now' all) = map id_col (syncRows lang now all)
   \<and> (\<exists>db1 db2. syncPersist lang now all db = Inr db1
        \<and> syncPersist lang now' all db1 = Inr db2
        \<and> set (map id_col (syncRows lang now all)) \<subseteq> set (map id_col (items_table db1))
        \<and> map id_col (items_table db2) = map id_col (items_table db1)
        \<and> length (items_table db2) = length (items_table db1))"
proof -
  assume av: "available db"
  let ?rows = "syncRows lang now all" and ?rows' = "syncRows lang now' all"
  let ?db1 = "db\<lparr>items_table := foldl (\<lambda>t r. upsertRow r t) (items_table db) ?rows\<rparr>"
  let ?db2 = "?db1\<lparr>items_table := foldl (\<lambda>t r. upsertRow r t) (items_table ?db1) ?rows'\<rparr>"
  have 1: "syncPersist lang now all db = Inr ?db1"
    unfolding syncPersist_def using av by (rule upsertCatalogItems_available)
  have av1: "available ?db1" using av by simp
  have 2: "syncPersist lang now' all ?db1 = Inr ?db2"
    unfolding syncPersist_def using av1 by (rule upsertCatalogItems_available)
  have ids: "map id_col ?rows' = map id_col ?rows" by (simp add: rows_ids)
  then have "id_col ` set ?rows' = id_col ` set ?rows" by (metis set_map)
  then have sub: "id_col ` set ?rows' \<subseteq> id_col ` set (items_table ?db1)"
    by (simp add: upsertRows_set)
  have 3: "map id_col (items_table ?db2) = map id_col (items_table ?db1)"
    using upsertRows_same[OF sub] by simp
  then have 5: "length (items_table ?db2) = length (items_table ?db1)" by (metis length_map)
  have 4: "set (map id_col ?rows) \<subseteq> set (map id_col (items_table ?db1))"
    by (simp add: upsertRows_set)
  have ex: "\<exists>db1 db2. syncPersist lang now all db = Inr db1
        \<and> syncPersist lang now' all db1 = Inr db2
        \<and> set (map id_col (syncRows lang now all)) \<subseteq> set (map id_col (items_table db1))
        \<and> map id_col (items_table db2) = map id_col (items_table db1)
        \<and> length (items_table db2) = length (items_table db1)"
    using 1 2 3 4 5 by blast
  show ?thesis
    using rows_distinct[of lang now all] rows_fields[of _ lang now all]
      rows_key_unique[of _ lang now all] ids ex
    by blast
qed

theorem sync_rows_unique_and_idempotent_witness:
  "available emptyStore
   \<and> map id_col (syncRows ''en'' 1 [plainA, coverB]) = [''en::emma::jane austen'']
   \<and> distinct (map id_col (syncRows ''en'' 1 [plainA, coverB]))
   \<and> map id_col (syncRows ''en'' 2 [plainA, coverB]) = map id_col (syncRows ''en'' 1 [plainA, coverB])"
proof -
  have av: "available emptyStore" by (simp add: emptyStore_def)
  have "map id_col (syncRows ''en'' 1 [plainA, coverB]) = map fst (syncDedupe ''en'' [plainA, coverB])"
    by (rule rows_ids)
  then have e: "map id_col (syncRows ''en'' 1 [plainA, coverB]) = [''en::emma::jane austen'']"
    using plain_cover_dedupe by simp
  show ?thesis
    using sync_rows_unique_and_idempotent[OF av, of "''en''" 1 "[plainA, coverB]" 2] av e
    by blast
qed

section \<open>The Gutendex attempt loop\<close>






section \<open>The ManyBooks circuit breaker\<close>

lemma blockSignal_opens:
  assumes "blockSignal resp" and "\<not> now < manyBooksBlockedUntil st"
  shows "fetchManyBooksXml now now' url (Some resp) st =
     (Inl (HttpError (if looksHtml resp then 403 else status resp)),
      st\<lparr> outbound := outbound st @ [url],
          manyBooksBlockedUntil := now' + MANYBOOKS_BLOCK_TTL_MS \<rparr>)"
proof -
  have "\<not> ok resp \<or> looksHtml resp" using assms(1) by (auto simp: blockSignal_def ok_def)
  moreover have "(if looksHtml resp then 403 else status resp) = 403
      \<or> (if looksHtml resp then 403 else status resp) = 429"
    using assms(1) by (auto simp: blockSignal_def)
  ultimately show ?thesis using assms(2) by (auto simp: fetchManyBooksXml_def Let_def)
qed

lemma fetchManyBooks_blocked:
  "now < manyBooksBlockedUntil st \<Longrightarrow> fetchManyBooks now now' network rest st = (Inr [], st)"
  by (simp add: fetchManyBooks_def)

lemma fetchManyBooks_open:
  assumes "\<not> now < manyBooksBlockedUntil st"
  shows "\<exists>st1. outbound st1 = outbound st @ [MANYBOOKS_BASE @ ''/genres'']
          \<and> ((\<exists>e. fetchManyBooks now now' network rest st = (Inl e, st1))
              \<or> (\<exists>xml. fetchManyBooks now now' network rest st = rest xml st1))"
proof -
  let ?u = "MANYBOOKS_BASE @ ''/genres''"
  obtain res st1 where x: "fetchManyBooksXml now now' ?u (network ?u) st = (res, st1)"
    by (cases "fetchManyBooksXml now now' ?u (network ?u) st") auto
  have o: "outbound st1 = outbound st @ [?u]"
    using x assms
    by (auto simp: fetchManyBooksXml_def Let_def split: option.splits if_splits)
  have "(\<exists>e. fetchManyBooks now now' network rest st = (Inl e, st1))
        \<or> (\<exists>xml. fetchManyBooks now now' network rest st = rest xml st1)"
    using x assms by (cases res) (auto simp: fetchManyBooks_def)
  then show ?thesis using o by blast
qed

text \<open>
  C5: when a ManyBooks request that goes out is answered by a block signal (status 403 or 429,
  or a challenge page, which counts as 403), the source is blocked until one hour after the
  answer. Every \<open>fetchManyBooks\<close> call before that instant returns the empty list, as a value
  and not as an error, and leaves the list of outbound requests as it was; a request of a
  fetch already under way is not sent either. A call at or after that instant first sends
  the genre feed request.
\<close>

theorem manybooks_circuit_breaker:
  "blockSignal resp \<and> \<not> now0 < manyBooksBlockedUntil st \<Longrightarrow>
     (\<exists>e st'. fetchManyBooksXml now0 now1 url (Some resp) st = (Inl e, st')
        \<and> manyBooksBlockedUntil st' = now1 + 60 * 60 * 1000
        \<and> (\<forall>now now' network rest. now < now1 + 60 * 60 * 1000 \<longrightarrow>
              fetchManyBooks now now' network rest st' = (Inr [], st'))
        \<and> (\<forall>now now' u answer. now < now1 + 60 * 60 * 1000 \<longrightarrow>
              snd (fetchManyBooksXml now now' u answer st') = st')
        \<and> (\<forall>now now' network rest. now1 + 60 * 60 * 1000 \<le> now \<longrightarrow>
              (\<exists>st1. outbound st1 = outbound st' @ [MANYBOOKS_BASE @ ''/genres'']
                 \<and> ((\<exists>e. fetchManyBooks now now' network rest st' = (Inl e, st1))
                     \<or> (\<exists>xml. fetchManyBooks now now' network rest st' = rest xml st1)))))"
proof -
  assume a: "blockSignal resp \<and> \<not> now0 < manyBooksBlockedUntil st"
  let ?st' = "st\<lparr> outbound := outbound st @ [url],
                  manyBooksBlockedUntil := now1 + MANYBOOKS_BLOCK_TTL_MS \<rparr>"
  have 1: "fetchManyBooksXml now0 now1 url (Some resp) st =
      (Inl (HttpError (if looksHtml resp then 403 else status resp)), ?st')"
    using a by (intro blockSignal_opens) simp_all
  have 2: "manyBooksBlockedUntil ?st' = now1 + 60 * 60 * 1000"
    by (simp add: MANYBOOKS_BLOCK_TTL_MS_def)
  have 3: "\<forall>now now' network rest. now < now1 + 60 * 60 * 1000 \<longrightarrow>
      fetchManyBooks now now' network rest ?st' = (Inr [], ?st')"
    using 2 fetchManyBooks_blocked[of _ ?st'] by presburger
  have 5: "\<forall>now now' u answer. now < now1 + 60 * 60 * 1000 \<longrightarrow>
      snd (fetchManyBooksXml now now' u answer ?st') = ?st'"
    using 2 by (simp add: fetchManyBooksXml_def)
  have 4: "\<forall>now now' network rest. now1 + 60 * 60 * 1000 \<le> now \<longrightarrow>
      (\<exists>st1. outbound st1 = outbound ?st' @ [MANYBOOKS_BASE @ ''/genres'']
         \<and> ((\<exists>e. fetchManyBooks now now' network rest ?st' = (Inl e, st1))
             \<or> (\<exists>xml. fetchManyBooks now now' network rest ?st' = rest xml st1)))"
  proof (intro allI impI)
    fix now now' :: nat and network rest
    assume "now1 + 60 * 60 * 1000 \<le> now"
    then have "\<not> now < manyBooksBlockedUntil ?st'" using 2 by linarith
    then show "\<exists>st1. outbound st1 = outbound ?st' @ [MANYBOOKS_BASE @ ''/genres'']
         \<and> ((\<exists>e. fetchManyBooks now now' network rest ?st' = (Inl e, st1))
             \<or> (\<exists>xml. fetchManyBooks now now' network rest ?st' = rest xml st1))"
      by (rule fetchManyBooks_open)
  qed
  show ?thesis using 1 2 3 4 5 by blast
qed

lemma challengePage_blockSignal: "blockSignal challengePage"
  by code_simp

theorem manybooks_circuit_breaker_witness:
  "blockSignal challengePage \<and> \<not> 5 < manyBooksBlockedUntil freshManyBooks
   \<and> fetchManyBooks 3600006 3600007 (\<lambda>u. Some challengePage) (\<lambda>xml s. (Inr [], s))
       \<lparr> manyBooksBlockedUntil = 3600007, outbound = [MANYBOOKS_BASE @ ''/genres''] \<rparr>
     = (Inr [], \<lparr> manyBooksBlockedUntil = 3600007, outbound = [MANYBOOKS_BASE @ ''/genres''] \<rparr>)"
proof -
  have lh: "looksHtml challengePage" by code_simp
  have h: "blockSignal challengePage \<and> \<not> 5 < manyBooksBlockedUntil freshManyBooks"
    using challengePage_blockSignal by (simp add: freshManyBooks_def)
  have x: "fetchManyBooksXml 5 7 (MANYBOOKS_BASE @ ''/genres'') (Some challengePage) freshManyBooks
      = (Inl (HttpError 403),
         \<lparr> manyBooksBlockedUntil = 3600007, outbound = [MANYBOOKS_BASE @ ''/genres''] \<rparr>)"
    using blockSignal_opens[OF challengePage_blockSignal, of 5 freshManyBooks 7 "MANYBOOKS_BASE @ ''/genres''"]
    by (simp add: freshManyBooks_def MANYBOOKS_BLOCK_TTL_MS_def lh)
  show ?thesis
    using manybooks_circuit_breaker[OF h, of 7 "MANYBOOKS_BASE @ ''/genres''"] h x
    by auto
qed

section \<open>Failure of the cached computation\<close>

lemma cacheBegin_Started:
  assumes "cacheBegin now key st = (Started, st1)"
  shows "st1 = st\<lparr> inFlightKeys := insert key (inFlightKeys st), computeCalls := Suc (computeCalls st) \<rparr>
         \<and> key \<notin> inFlightKeys st
         \<and> (\<forall>e v. cacheEntries st key = Some (e, v) \<longrightarrow> e \<le> now)"
  using assms by (auto simp: cacheBegin_def split: option.splits if_splits)

lemma cacheBegin_miss:
  assumes "key \<notin> inFlightKeys st" and "\<forall>e v. cacheEntries st key = Some (e, v) \<longrightarrow> e \<le> now"
  shows "cacheBegin now key st =
     (Started, st\<lparr> inFlightKeys := insert key (inFlightKeys st), computeCalls := Suc (computeCalls st) \<rparr>)"
  using assms by (auto simp: cacheBegin_def split: option.splits)

text \<open>
  C8, as stated: in the enrichment cache too, a failed computation caches nothing and the next
  call computes again. A failed lookup at time 0 stores an all-null entry, and the call one
  millisecond later is served from it without invoking the computation.
\<close>

theorem getBetterOlMatch_failure_is_cached:
  "cacheBegin 0 ''en::emma::jane austen'' emptyCache = (Started, olStarted)
   \<and> getBetterOlMatch_settle 0 ''en::emma::jane austen'' None olStarted = (noMatch, olFailed)
   \<and> cacheBegin 1 ''en::emma::jane austen'' olFailed = (Hit noMatch, olFailed)
   \<and> computeCalls olFailed = 1"
  by (simp add: cacheBegin_def emptyCache_def getBetterOlMatch_settle_def olStarted_def olFailed_def)

text \<open>
  C8, amended: in both caches a failed computation clears the in-flight entry. The pool cache
  stores nothing on failure, so every later call with the same key invokes the computation
  again. The enrichment cache stores an all-null entry for six hours on failure: a call
  with the same key within six hours of the failed call's start returns that entry without
  invoking the computation, and a call after that invokes it again.
\<close>

theorem failed_compute_clears_in_flight:
  "(cacheBegin now key pool = (Started, pool1) \<longrightarrow>
      (\<exists>e pool2. getAggregatedPool_settle now' key None pool1 = (Inl e, pool2)
         \<and> key \<notin> inFlightKeys pool2 \<and> cacheEntries pool2 = cacheEntries pool
         \<and> (\<forall>later \<ge> now. \<exists>pool3. cacheBegin later key pool2 = (Started, pool3)
               \<and> computeCalls pool3 = computeCalls pool + 2)))
   \<and> (cacheBegin now key ol = (Started, ol1) \<longrightarrow>
      (\<exists>ol2. getBetterOlMatch_settle now key None ol1 = (noMatch, ol2)
         \<and> key \<notin> inFlightKeys ol2
         \<and> cacheEntries ol2 key = Some (now + 6 * 60 * 60 * 1000, noMatch)
         \<and> (\<forall>later < now + 6 * 60 * 60 * 1000. cacheBegin later key ol2 = (Hit noMatch, ol2))
         \<and> (\<forall>later \<ge> now + 6 * 60 * 60 * 1000. \<exists>ol3. cacheBegin later key ol2 = (Started, ol3)
               \<and> computeCalls ol3 = computeCalls ol + 2)))"
proof (intro conjI impI)
  assume a: "cacheBegin now key pool = (Started, pool1)"
  note s = cacheBegin_Started[OF a]
  let ?p2 = "pool1\<lparr> inFlightKeys := inFlightKeys pool1 - {key} \<rparr>"
  have 1: "getAggregatedPool_settle now' key None pool1 = (Inl ''fetchAggregatedPool failed'', ?p2)"
    by (simp add: getAggregatedPool_settle_def)
  have 2: "key \<notin> inFlightKeys ?p2" by simp
  have 3: "cacheEntries ?p2 = cacheEntries pool" using s by simp
  have 4: "\<forall>later \<ge> now. \<exists>pool3. cacheBegin later key ?p2 = (Started, pool3)
               \<and> computeCalls pool3 = computeCalls pool + 2"
  proof (intro allI impI)
    fix later
    assume l: "now \<le> later"
    have "\<forall>e v. cacheEntries ?p2 key = Some (e, v) \<longrightarrow> e \<le> later"
      using s l 3 by (metis le_trans)
    then have "cacheBegin later key ?p2 =
        (Started, ?p2\<lparr> inFlightKeys := insert key (inFlightKeys ?p2),
                        computeCalls := Suc (computeCalls ?p2) \<rparr>)"
      using 2 by (rule cacheBegin_miss[rotated])
    moreover have "computeCalls ?p2 = Suc (computeCalls pool)" using s by simp
    ultimately show "\<exists>pool3. cacheBegin later key ?p2 = (Started, pool3)
               \<and> computeCalls pool3 = computeCalls pool + 2"
      by simp
  qed
  show "\<exists>e pool2. getAggregatedPool_settle now' key None pool1 = (Inl e, pool2)
         \<and> key \<notin> inFlightKeys pool2 \<and> cacheEntries pool2 = cacheEntries pool
         \<and> (\<forall>later \<ge> now. \<exists>pool3. cacheBegin later key pool2 = (Started, pool3)
               \<and> computeCalls pool3 = computeCalls pool + 2)"
    using 1 2 3 4 by blast
next
  assume a: "cacheBegin now key ol = (Started, ol1)"
  note s = cacheBegin_Started[OF a]
  let ?o2 = "ol1\<lparr> cacheEntries := (cacheEntries ol1)(key \<mapsto> (now + 6 * 60 * 60 * 1000, noMatch)),
                  inFlightKeys := inFlightKeys ol1 - {key} \<rparr>"
  have 1: "getBetterOlMatch_settle now key None ol1 = (noMatch, ?o2)"
    by (simp add: getBetterOlMatch_settle_def)
  have 2: "key \<notin> inFlightKeys ?o2" by simp
  have 3: "cacheEntries ?o2 key = Some (now + 6 * 60 * 60 * 1000, noMatch)" by simp
  have 4: "\<forall>later < now + 6 * 60 * 60 * 1000. cacheBegin later key ?o2 = (Hit noMatch, ?o2)"
    using 3 by (simp add: cacheBegin_def)
  have 5: "\<forall>later \<ge> now + 6 * 60 * 60 * 1000. \<exists>ol3. cacheBegin later key ?o2 = (Started, ol3)
               \<and> computeCalls ol3 = computeCalls ol + 2"
  proof (intro allI impI)
    fix later
    assume l: "now + 6 * 60 * 60 * 1000 \<le> later"
    have "\<forall>e v. cacheEntries ?o2 key = Some (e, v) \<longrightarrow> e \<le> later" using l by simp
    then have "cacheBegin later key ?o2 =
        (Started, ?o2\<lparr> inFlightKeys := insert key (inFlightKeys ?o2),
                        computeCalls := Suc (computeCalls ?o2) \<rparr>)"
      using 2 by (rule cacheBegin_miss[rotated])
    moreover have "computeCalls ?o2 = Suc (computeCalls ol)" using s by simp
    ultimately show "\<exists>ol3. cacheBegin later key ?o2 = (Started, ol3)
               \<and> computeCalls ol3 = computeCalls ol + 2"
      by simp
  qed
  show "\<exists>ol2. getBetterOlMatch_settle now key None ol1 = (noMatch, ol2)
         \<and> key \<notin> inFlightKeys ol2
         \<and> cacheEntries ol2 key = Some (now + 6 * 60 * 60 * 1000, noMatch)
         \<and> (\<forall>later < now + 6 * 60 * 60 * 1000. cacheBegin later key ol2 = (Hit noMatch, ol2))
         \<and> (\<forall>later \<ge> now + 6 * 60 * 60 * 1000. \<exists>ol3. cacheBegin later key ol2 = (Started, ol3)
               \<and> computeCalls ol3 = computeCalls ol + 2)"
    using 1 2 3 4 5 by blast
qed

theorem failed_compute_clears_in_flight_witness:
  "cacheBegin 5 ''k'' (emptyCache :: nat flight_cache)
     = (Started, \<lparr> cacheEntries = Map.empty, inFlightKeys = {''k''}, computeCalls = 1 \<rparr>)
   \<and> cacheBegin 5 ''k'' (emptyCache :: ol_match flight_cache)
     = (Started, \<lparr> cacheEntries = Map.empty, inFlightKeys = {''k''}, computeCalls = 1 \<rparr>)
   \<and> (\<exists>e pool2. getAggregatedPool_settle 9 ''k'' None
          \<lparr> cacheEntries = Map.empty, inFlightKeys = {''k''}, computeCalls = 1 :: nat \<rparr> = (Inl e, pool2)
        \<and> ''k'' \<notin> inFlightKeys (pool2 :: nat flight_cache)
        \<and> (\<exists>pool3. cacheBegin 9 ''k'' pool2 = (Started, pool3) \<and> computeCalls pool3 = 2))"
proof -
  let ?p1 = "\<lparr> cacheEntries = Map.empty, inFlightKeys = {''k''}, computeCalls = 1 \<rparr> :: nat flight_cache"
  let ?o1 = "\<lparr> cacheEntries = Map.empty, inFlightKeys = {''k''}, computeCalls = 1 \<rparr> :: ol_match flight_cache"
  have p: "cacheBegin 5 ''k'' (emptyCache :: nat flight_cache) = (Started, ?p1)"
    by (simp add: cacheBegin_def emptyCache_def)
  have o: "cacheBegin 5 ''k'' (emptyCache :: ol_match flight_cache) = (Started, ?o1)"
    by (simp add: cacheBegin_def emptyCache_def)
  have c: "computeCalls (emptyCache :: nat flight_cache) + 2 = 2" by (simp add: emptyCache_def)
  have l: "(5::nat) \<le> 9" by simp
  obtain e pool2 where
    1: "getAggregatedPool_settle 9 ''k'' None ?p1 = (Inl e, pool2)"
    and 2: "''k'' \<notin> inFlightKeys pool2"
    and 3: "\<forall>later \<ge> 5. \<exists>pool3. cacheBegin later ''k'' pool2 = (Started, pool3)
               \<and> computeCalls pool3 = computeCalls (emptyCache :: nat flight_cache) + 2"
    using failed_compute_clears_in_flight[where now = 5 and key = "''k''"
        and pool = "emptyCache :: nat flight_cache" and ?pool1.0 = ?p1 and now' = 9
        and ol = "emptyCache :: ol_match flight_cache" and ?ol1.0 = ?o1] p o
    by blast
  obtain pool3 where "cacheBegin 9 ''k'' pool2 = (Started, pool3)" "computeCalls pool3 = 2"
    using 3 l c by metis
  then show ?thesis using p o 1 2 by blast
qed

section \<open>Acceptance of a bibliographic search result\<close>

lemma best_invariant:
  "foldl (bestStep t a rc ra) b docs = Some (d, s, bo) \<Longrightarrow>
   (\<forall>d s bo. b = Some (d, s, bo) \<longrightarrow> s = docScore t a d \<and> d \<in> D \<and> eligible rc ra d) \<Longrightarrow>
   set docs \<subseteq> D \<Longrightarrow>
   s = docScore t a d \<and> d \<in> D \<and> eligible rc ra d"
proof (induction docs arbitrary: b)
  case Nil
  then show ?case by simp
next
  case (Cons x xs)
  have "\<forall>d s bo. bestStep t a rc ra b x = Some (d, s, bo) \<longrightarrow>
      s = docScore t a d \<and> d \<in> D \<and> eligible rc ra d"
    using Cons.prems(2,3) by (auto simp: bestStep_def split: option.splits if_splits)
  then show ?case using Cons.IH[of "bestStep t a rc ra b x"] Cons.prems(1,3) by simp
qed

lemma pickBestOlDoc_Some:
  assumes "pickBestOlDoc docs t a rc ra = Some d"
  shows "d \<in> set docs \<and> eligible rc ra d \<and> olThreshold t a \<le> docScore t a d"
proof -
  obtain s bo where f: "foldl (bestStep t a rc ra) None docs = Some (d, s, bo)"
    and s: "\<not> s < olThreshold t a"
    using assms by (auto simp: pickBestOlDoc_def split: option.splits if_splits)
  have "s = docScore t a d \<and> d \<in> set docs \<and> eligible rc ra d"
    using best_invariant[OF f, of "set docs"] by simp
  then show ?thesis using s by simp
qed

lemma titleScore_exact: "8 \<le> titleScore w h \<Longrightarrow> h = w"
  by (auto simp: titleScore_def split: if_splits)

text \<open>
  C6, as stated: the threshold is stricter when the wanted author is unknown than when it is
  known. For a title of five words the threshold is 8 in both cases.
\<close>

theorem olThreshold_long_title_same:
  "\<not> authorKnown None \<and> authorKnown (Some ''Alexandre Dumas'')
   \<and> length (tokens (normalizeForLookup ''The Count of Monte Cristo'')) = 5
   \<and> olThreshold ''The Count of Monte Cristo'' None = 8
   \<and> olThreshold ''The Count of Monte Cristo'' (Some ''Alexandre Dumas'') = 8"
  by code_simp

text \<open>
  C6, amended: a bibliographic-search result is accepted only when it is one of the eligible
  results and its match score is at least the threshold, and when every eligible result scores
  below the threshold the lookup returns no match. The threshold is 10 when the wanted author
  is unknown and the wanted title has three words or fewer, and 8 otherwise, that is, for a
  known author and also for an unknown author with a longer title. With an unknown author
  a result is accepted only when its normalised title equals the wanted one.
\<close>

theorem pickBestOlDoc_threshold:
  "(pickBestOlDoc docs t a rc ra = Some d \<longrightarrow>
      d \<in> set docs \<and> eligible rc ra d \<and> olThreshold t a \<le> docScore t a d)
   \<and> ((\<forall>x \<in> set docs. eligible rc ra x \<longrightarrow> docScore t a x < olThreshold t a) \<longrightarrow>
        pickBestOlDoc docs t a rc ra = None)
   \<and> (olThreshold t a = 10 \<longleftrightarrow> \<not> authorKnown a \<and> length (tokens (normalizeForLookup t)) \<le> 3)
   \<and> (olThreshold t a = 8 \<longleftrightarrow> authorKnown a \<or> 3 < length (tokens (normalizeForLookup t)))
   \<and> (\<not> authorKnown a \<and> pickBestOlDoc docs t a rc ra = Some d \<longrightarrow>
        normalizeForLookup (emptyIfNone (doc_title d)) = normalizeForLookup t)"
proof -
  have p1: "pickBestOlDoc docs t a rc ra = Some d \<longrightarrow>
      d \<in> set docs \<and> eligible rc ra d \<and> olThreshold t a \<le> docScore t a d"
    using pickBestOlDoc_Some by blast
  have p2: "(\<forall>x \<in> set docs. eligible rc ra x \<longrightarrow> docScore t a x < olThreshold t a) \<longrightarrow>
        pickBestOlDoc docs t a rc ra = None"
  proof
    assume low: "\<forall>x \<in> set docs. eligible rc ra x \<longrightarrow> docScore t a x < olThreshold t a"
    show "pickBestOlDoc docs t a rc ra = None"
    proof (cases "pickBestOlDoc docs t a rc ra")
      case None
      then show ?thesis .
    next
      case (Some x)
      then have "x \<in> set docs \<and> eligible rc ra x \<and> olThreshold t a \<le> docScore t a x"
        by (rule pickBestOlDoc_Some)
      then show ?thesis using low by fastforce
    qed
  qed
  have p3: "olThreshold t a = 10 \<longleftrightarrow> \<not> authorKnown a \<and> length (tokens (normalizeForLookup t)) \<le> 3"
    by (simp add: olThreshold_def)
  have p4: "olThreshold t a = 8 \<longleftrightarrow> authorKnown a \<or> 3 < length (tokens (normalizeForLookup t))"
    by (auto simp: olThreshold_def)
  have p5: "\<not> authorKnown a \<and> pickBestOlDoc docs t a rc ra = Some d \<longrightarrow>
        normalizeForLookup (emptyIfNone (doc_title d)) = normalizeForLookup t"
  proof
    assume h: "\<not> authorKnown a \<and> pickBestOlDoc docs t a rc ra = Some d"
    then have "olThreshold t a \<le> docScore t a d" using pickBestOlDoc_Some by blast
    moreover have "8 \<le> olThreshold t a" by (simp add: olThreshold_def)
    ultimately have "8 \<le> titleScore (normalizeForLookup t) (normalizeForLookup (emptyIfNone (doc_title d)))"
      using h by (simp add: docScore_def)
    then show "normalizeForLookup (emptyIfNone (doc_title d)) = normalizeForLookup t"
      by (rule titleScore_exact)
  qed
  show ?thesis using p1 p2 p3 p4 p5 by (intro conjI)
qed

theorem pickBestOlDoc_threshold_witness:
  "pickBestOlDoc [dumasDoc] ''The Count of Monte Cristo'' (Some ''Alexandre Dumas'') True False
     = Some dumasDoc
   \<and> docScore ''The Count of Monte Cristo'' None dumasDoc < olThreshold ''The Count of Monte Cristo'' None
   \<and> olThreshold ''The Count of Monte Cristo'' (Some ''Alexandre Dumas'')
       \<le> docScore ''The Count of Monte Cristo'' (Some ''Alexandre Dumas'') dumasDoc
   \<and> pickBestOlDoc [dumasDoc] ''The Count of Monte Cristo'' None True False = None"
proof -
  have 1: "pickBestOlDoc [dumasDoc] ''The Count of Monte Cristo'' (Some ''Alexandre Dumas'') True False
     = Some dumasDoc"
    by code_simp
  have 2: "\<forall>x \<in> set [dumasDoc]. eligible True False x \<longrightarrow>
         docScore ''The Count of Monte Cristo'' None x < olThreshold ''The Count of Monte Cristo'' None"
    by code_simp
  have 3: "docScore ''The Count of Monte Cristo'' None dumasDoc < olThreshold ''The Count of Monte Cristo'' None"
    by code_simp
  show ?thesis
    using 1 2 3
      pickBestOlDoc_threshold[of "[dumasDoc]" "''The Count of Monte Cristo''"
        "Some ''Alexandre Dumas''" True False dumasDoc]
      pickBestOlDoc_threshold[of "[dumasDoc]" "''The Count of Monte Cristo''" None True False dumasDoc]
    by blast
qed

section \<open>The paginated listings\<close>

lemma clampInt_bounds:
  "lo \<le> fb \<Longrightarrow> fb \<le> hi \<Longrightarrow> lo \<le> clampInt raw lo hi fb \<and> clampInt raw lo hi fb \<le> hi"
  by (auto simp: clampInt_def split: option.splits js_integer.splits)

lemma length_insertRow [simp]: "length (insertRow r xs) = Suc (length xs)"
  by (induction xs) auto

lemma length_orderRows [simp]: "length (orderRows xs) = length xs"
  unfolding orderRows_def by (induction xs) auto

lemma length_insertCount [simp]: "length (insertCount r xs) = Suc (length xs)"
  by (induction xs) auto

lemma length_foldr_insertCount [simp]: "length (foldr insertCount xs []) = length xs"
  by (induction xs) auto

lemma length_rangeOf:
  "0 \<le> c \<Longrightarrow> 0 < l \<Longrightarrow> length (rangeOf c (c + l - 1) xs) = min (nat l) (length xs - nat c)"
  by (simp add: rangeOf_def)

lemma cursor_bounds: "0 \<le> clampInt raw 0 9999999 0"
  using clampInt_bounds[of 0 0 9999999 raw] by simp

lemma limit_bounds: "10 \<le> clampInt raw 10 100 40 \<and> clampInt raw 10 100 40 \<le> 100"
  using clampInt_bounds[of 10 40 100 raw] by simp

lemma limit_bounds_200: "10 \<le> clampInt raw 10 200 60 \<and> clampInt raw 10 200 60 \<le> 200"
  using clampInt_bounds[of 10 60 200 raw] by simp

lemma range_length_le:
  "0 \<le> c \<Longrightarrow> 10 \<le> l \<Longrightarrow> int (length (rangeOf c (c + l - 1) xs)) \<le> l"
  by (simp add: length_rangeOf)

lemma range_empty_iff:
  "0 \<le> c \<Longrightarrow> 10 \<le> l \<Longrightarrow> rangeOf c (c + l - 1) xs = [] \<longleftrightarrow> int (length xs) \<le> c"
proof -
  assume a: "0 \<le> c" "10 \<le> l"
  have "rangeOf c (c + l - 1) xs = [] \<longleftrightarrow> length (rangeOf c (c + l - 1) xs) = 0" by simp
  also have "\<dots> \<longleftrightarrow> min (nat l) (length xs - nat c) = 0" using a by (simp add: length_rangeOf)
  also have "\<dots> \<longleftrightarrow> int (length xs) \<le> c" using a by auto
  finally show ?thesis .
qed

lemma getEbooksCategory_rows:
  assumes "available db" and "categoryRaw = trim (emptyIfNone categoryParam)" and "categoryRaw \<noteq> []"
    and "selectCategoryCount db lang categoryRaw = Inr cr"
  shows "getEbooksCategory db lang categoryParam cursorParam limitParam allowEmptyParam =
     (let c = clampInt cursorParam 0 9999999 0;
          l = clampInt limitParam 10 100 40;
          t = (case cr of Some (x, y, n) \<Rightarrow> max 0 n | None \<Rightarrow> 0);
          slice = map (toApiFromRow lang categoryRaw) (rangeOf c (c + l - 1) (categoryRows db lang categoryRaw))
      in if slice = [] then
           (if isTrueFlag allowEmptyParam
            then Json \<lparr> total = Some 0, cursor = c, limit = l, nextCursor = None, items = [] \<rparr>
            else Failure 404 ''Category not found'')
         else Json \<lparr> total = Some (if t > 0 then t else c + int (length slice)), cursor = c, limit = l,
                      nextCursor = (if t > 0 \<and> c + int (length slice) < t
                                    then Some (c + int (length slice)) else None),
                      items = slice \<rparr>)"
proof (cases cr)
  case None
  then show ?thesis
    using assms by (simp add: getEbooksCategory_def selectItems_def categoryRows_def Let_def)
next
  case (Some row)
  obtain x y n where "row = (x, y, n)" by (cases row) auto
  then show ?thesis
    using assms Some by (simp add: getEbooksCategory_def selectItems_def categoryRows_def Let_def)
qed

lemma getEbooksAuthor_rows:
  assumes "available db" and "authorRaw = trim (emptyIfNone authorParam)" and "authorRaw \<noteq> []"
    and "selectAuthorCount db lang (normalizeForCatalogNorm (normalizeAuthorKey authorRaw)) = Inr cr"
  shows "getEbooksAuthor db lang authorParam cursorParam limitParam =
     (let c = clampInt cursorParam 0 9999999 0;
          l = clampInt limitParam 10 100 40;
          t = (case cr of Some (x, y, z, n) \<Rightarrow> max 0 n | None \<Rightarrow> 0);
          slice = map (toApiFromRow lang ''Fiction'') (rangeOf c (c + l - 1) (authorRows db lang authorRaw))
      in if slice = [] then Failure 404 ''Author not found''
         else Json \<lparr> total = Some (if t > 0 then t else c + int (length slice)), cursor = c, limit = l,
                      nextCursor = (if t > 0 \<and> c + int (length slice) < t
                                    then Some (c + int (length slice)) else None),
                      items = slice \<rparr>)"
proof (cases cr)
  case None
  then show ?thesis
    using assms by (simp add: getEbooksAuthor_def selectItems_def authorRows_def Let_def)
next
  case (Some row)
  obtain x y z n where "row = (x, y, z, n)" by (cases row) auto
  then show ?thesis
    using assms Some by (simp add: getEbooksAuthor_def selectItems_def authorRows_def Let_def)
qed

lemma getEbooksCategory_Json:
  assumes "getEbooksCategory db lang categoryParam cursorParam limitParam allowEmptyParam = Json p"
  shows "available db \<and> trim (emptyIfNone categoryParam) \<noteq> []
     \<and> (\<exists>cr. selectCategoryCount db lang (trim (emptyIfNone categoryParam)) = Inr cr)"
  using assms
  by (auto simp: getEbooksCategory_def Let_def selectItems_def selectCategoryCount_def
      split: sum.splits if_splits)

lemma getEbooksAuthor_Json:
  assumes "getEbooksAuthor db lang authorParam cursorParam limitParam = Json p"
  shows "available db \<and> trim (emptyIfNone authorParam) \<noteq> []
     \<and> (\<exists>cr. selectAuthorCount db lang
           (normalizeForCatalogNorm (normalizeAuthorKey (trim (emptyIfNone authorParam)))) = Inr cr)"
  using assms
  by (auto simp: getEbooksAuthor_def Let_def selectItems_def selectAuthorCount_def
      split: sum.splits if_splits)

text \<open>
  C10: a single-category request without the \<open>allowEmpty\<close> flag, and a single-author request,
  whose cursor is at or past the end of the rows it ranges over (an empty result set included)
  is answered with 404 "not found" when the datastore answers; and neither request is ever
  answered by a page with an empty list of items.
\<close>

theorem empty_range_is_404:
  "(available db \<and> trim (emptyIfNone categoryParam) \<noteq> []
      \<and> (\<exists>cr. selectCategoryCount db lang (trim (emptyIfNone categoryParam)) = Inr cr)
      \<and> \<not> isTrueFlag allowEmptyParam
      \<and> int (length (categoryRows db lang (trim (emptyIfNone categoryParam))))
          \<le> clampInt cursorParam 0 9999999 0
    \<longrightarrow> getEbooksCategory db lang categoryParam cursorParam limitParam allowEmptyParam
          = Failure 404 ''Category not found'')
   \<and> (available db \<and> trim (emptyIfNone authorParam) \<noteq> []
      \<and> (\<exists>cr. selectAuthorCount db lang
            (normalizeForCatalogNorm (normalizeAuthorKey (trim (emptyIfNone authorParam)))) = Inr cr)
      \<and> int (length (authorRows db lang (trim (emptyIfNone authorParam))))
          \<le> clampInt cursorParam 0 9999999 0
    \<longrightarrow> getEbooksAuthor db lang authorParam cursorParam limitParam = Failure 404 ''Author not found'')
   \<and> (\<not> isTrueFlag allowEmptyParam
      \<and> getEbooksCategory db lang categoryParam cursorParam limitParam allowEmptyParam = Json p
    \<longrightarrow> items p \<noteq> [])
   \<and> (getEbooksAuthor db lang authorParam cursorParam limitParam = Json p \<longrightarrow> items p \<noteq> [])"
proof -
  let ?c = "clampInt cursorParam 0 9999999 0" and ?l = "clampInt limitParam 10 100 40"
  have cb: "0 \<le> ?c" by (rule cursor_bounds)
  have lb: "10 \<le> ?l" using limit_bounds by simp
  have p1: "available db \<and> trim (emptyIfNone categoryParam) \<noteq> []
      \<and> (\<exists>cr. selectCategoryCount db lang (trim (emptyIfNone categoryParam)) = Inr cr)
      \<and> \<not> isTrueFlag allowEmptyParam
      \<and> int (length (categoryRows db lang (trim (emptyIfNone categoryParam)))) \<le> ?c
    \<longrightarrow> getEbooksCategory db lang categoryParam cursorParam limitParam allowEmptyParam
          = Failure 404 ''Category not found''"
  proof
    assume h: "available db \<and> trim (emptyIfNone categoryParam) \<noteq> []
      \<and> (\<exists>cr. selectCategoryCount db lang (trim (emptyIfNone categoryParam)) = Inr cr)
      \<and> \<not> isTrueFlag allowEmptyParam
      \<and> int (length (categoryRows db lang (trim (emptyIfNone categoryParam)))) \<le> ?c"
    then obtain cr where cr: "selectCategoryCount db lang (trim (emptyIfNone categoryParam)) = Inr cr"
      by blast
    have e: "rangeOf ?c (?c + ?l - 1) (categoryRows db lang (trim (emptyIfNone categoryParam))) = []"
      using h range_empty_iff[OF cb lb] by blast
    show "getEbooksCategory db lang categoryParam cursorParam limitParam allowEmptyParam
          = Failure 404 ''Category not found''"
      using h e by (simp add: getEbooksCategory_rows[OF _ refl _ cr] Let_def)
  qed
  have p2: "available db \<and> trim (emptyIfNone authorParam) \<noteq> []
      \<and> (\<exists>cr. selectAuthorCount db lang
            (normalizeForCatalogNorm (normalizeAuthorKey (trim (emptyIfNone authorParam)))) = Inr cr)
      \<and> int (length (authorRows db lang (trim (emptyIfNone authorParam)))) \<le> ?c
    \<longrightarrow> getEbooksAuthor db lang authorParam cursorParam limitParam = Failure 404 ''Author not found''"
  proof
    assume h: "available db \<and> trim (emptyIfNone authorParam) \<noteq> []
      \<and> (\<exists>cr. selectAuthorCount db lang
            (normalizeForCatalogNorm (normalizeAuthorKey (trim (emptyIfNone authorParam)))) = Inr cr)
      \<and> int (length (authorRows db lang (trim (emptyIfNone authorParam)))) \<le> ?c"
    then obtain cr where cr: "selectAuthorCount db lang
            (normalizeForCatalogNorm (normalizeAuthorKey (trim (emptyIfNone authorParam)))) = Inr cr"
      by blast
    have e: "rangeOf ?c (?c + ?l - 1) (authorRows db lang (trim (emptyIfNone authorParam))) = []"
      using h range_empty_iff[OF cb lb] by blast
    show "getEbooksAuthor db lang authorParam cursorParam limitParam = Failure 404 ''Author not found''"
      using h e by (simp add: getEbooksAuthor_rows[OF _ refl _ cr] Let_def)
  qed
  have p3: "\<not> isTrueFlag allowEmptyParam
      \<and> getEbooksCategory db lang categoryParam cursorParam limitParam allowEmptyParam = Json p
    \<longrightarrow> items p \<noteq> []"
  proof
    assume h: "\<not> isTrueFlag allowEmptyParam
      \<and> getEbooksCategory db lang categoryParam cursorParam limitParam allowEmptyParam = Json p"
    then obtain cr where a: "available db" "trim (emptyIfNone categoryParam) \<noteq> []"
      and cr: "selectCategoryCount db lang (trim (emptyIfNone categoryParam)) = Inr cr"
      using getEbooksCategory_Json by blast
    show "items p \<noteq> []"
      using h unfolding getEbooksCategory_rows[OF a(1) refl a(2) cr] Let_def
      by (auto split: if_splits)
  qed
  have p4: "getEbooksAuthor db lang authorParam cursorParam limitParam = Json p \<longrightarrow> items p \<noteq> []"
  proof
    assume h: "getEbooksAuthor db lang authorParam cursorParam limitParam = Json p"
    then obtain cr where a: "available db" "trim (emptyIfNone authorParam) \<noteq> []"
      and cr: "selectAuthorCount db lang
            (normalizeForCatalogNorm (normalizeAuthorKey (trim (emptyIfNone authorParam)))) = Inr cr"
      using getEbooksAuthor_Json by blast
    show "items p \<noteq> []"
      using h unfolding getEbooksAuthor_rows[OF a(1) refl a(2) cr] Let_def
      by (auto split: if_splits)
  qed
  show ?thesis using p1 p2 p3 p4 by (intro conjI)
qed

text \<open>Ten persisted rows of one category and one author; the cursor 10 is at their end.\<close>

theorem empty_range_is_404_witness:
  "available tenRowStore
   \<and> int (length (categoryRows tenRowStore ''en'' ''Romance'')) \<le> clampInt (Some ''10'') 0 9999999 0
   \<and> getEbooksCategory tenRowStore ''en'' (Some ''Romance'') (Some ''10'') None None
       = Failure 404 ''Category not found''
   \<and> getEbooksAuthor tenRowStore ''en'' (Some ''Jane Austen'') (Some ''10'') None
       = Failure 404 ''Author not found''"
proof -
  have c1: "selectCategoryCount tenRowStore ''en'' (trim (emptyIfNone (Some ''Romance'')))
      = Inr (Some (''en'', ''Romance'', 10))"
    by code_simp
  have c2: "selectAuthorCount tenRowStore ''en''
      (normalizeForCatalogNorm (normalizeAuthorKey (trim (emptyIfNone (Some ''Jane Austen'')))))
      = Inr (Some (''en'', ''Jane Austen'', ''jane austen'', 10))"
    by code_simp
  have g1: "available tenRowStore \<and> trim (emptyIfNone (Some ''Romance'')) \<noteq> []
      \<and> \<not> isTrueFlag None
      \<and> int (length (categoryRows tenRowStore ''en'' (trim (emptyIfNone (Some ''Romance'')))))
          \<le> clampInt (Some ''10'') 0 9999999 0"
    by code_simp
  have g2: "trim (emptyIfNone (Some ''Jane Austen'')) \<noteq> []
      \<and> int (length (authorRows tenRowStore ''en'' (trim (emptyIfNone (Some ''Jane Austen'')))))
          \<le> clampInt (Some ''10'') 0 9999999 0"
    by code_simp
  have h1: "available tenRowStore \<and> trim (emptyIfNone (Some ''Romance'')) \<noteq> []
      \<and> (\<exists>cr. selectCategoryCount tenRowStore ''en'' (trim (emptyIfNone (Some ''Romance''))) = Inr cr)
      \<and> \<not> isTrueFlag None
      \<and> int (length (categoryRows tenRowStore ''en'' (trim (emptyIfNone (Some ''Romance'')))))
          \<le> clampInt (Some ''10'') 0 9999999 0"
    using c1 g1 by blast
  have h2: "available tenRowStore \<and> trim (emptyIfNone (Some ''Jane Austen'')) \<noteq> []
      \<and> (\<exists>cr. selectAuthorCount tenRowStore ''en''
            (normalizeForCatalogNorm (normalizeAuthorKey (trim (emptyIfNone (Some ''Jane Austen''))))) = Inr cr)
      \<and> int (length (authorRows tenRowStore ''en'' (trim (emptyIfNone (Some ''Jane Austen'')))))
          \<le> clampInt (Some ''10'') 0 9999999 0"
    using c2 g1 g2 by blast
  have t: "trim (emptyIfNone (Some ''Romance'')) = ''Romance''" by code_simp
  show ?thesis
    using h1 h2 t
      empty_range_is_404[where db = tenRowStore and lang = "''en''" and categoryParam = "Some ''Romance''"
        and authorParam = "Some ''Jane Austen''" and cursorParam = "Some ''10''"
        and allowEmptyParam = None and limitParam = None]
    by metis
qed

lemma getEbooksSearch_page:
  assumes "available db" and "qRaw = trim (emptyIfNone qParam)" and "2 \<le> length qRaw"
    and "want = normalizeSearchKey qRaw" and "want \<noteq> []"
    and "hits = filter (\<lambda>r. lang_code r = lang \<and> download_url r \<noteq> []
                  \<and> (ilikeContains (title_norm r) want \<or> ilikeContains (author_norm r) want))
                (items_table db)"
    and "c = clampInt cursorParam 0 9999999 0" and "l = clampInt limitParam 10 100 40"
    and "n = length (rangeOf c (c + l - 1) (orderRows hits))"
  shows "getEbooksSearch db lang qParam cursorParam limitParam =
     Json \<lparr> total = Some (if hits \<noteq> [] then int (length hits) else c + int n),
            cursor = c, limit = l,
            nextCursor = (if hits \<noteq> [] \<and> c + int n < int (length hits) then Some (c + int n)
                          else if int n \<ge> l then Some (c + int n) else None),
            items = map (toApiFromRow lang ''Fiction'') (rangeOf c (c + l - 1) (orderRows hits)) \<rparr>"
proof -
  have q: "\<not> (qRaw = [] \<or> length qRaw < 2)" using assms(3) by auto
  show ?thesis
    using assms(1,5) q
    unfolding getEbooksSearch_def selectSearch_def Let_def
      assms(2)[symmetric] assms(4)[symmetric] assms(6)[symmetric] assms(7)[symmetric]
      assms(8)[symmetric]
    by (simp add: assms(9) Let_def)
qed

lemma getEbooksCategory_page:
  assumes "available db" and "categoryRaw = trim (emptyIfNone categoryParam)" and "categoryRaw \<noteq> []"
    and "selectCategoryCount db lang categoryRaw = Inr cr"
    and "c = clampInt cursorParam 0 9999999 0" and "l = clampInt limitParam 10 100 40"
    and "t = (case cr of Some (x, y, n) \<Rightarrow> max 0 n | None \<Rightarrow> 0)"
    and "n = length (rangeOf c (c + l - 1) (categoryRows db lang categoryRaw))" and "n \<noteq> 0"
  shows "getEbooksCategory db lang categoryParam cursorParam limitParam allowEmptyParam =
     Json \<lparr> total = Some (if t > 0 then t else c + int n), cursor = c, limit = l,
            nextCursor = (if t > 0 \<and> c + int n < t then Some (c + int n) else None),
            items = map (toApiFromRow lang categoryRaw)
                      (rangeOf c (c + l - 1) (categoryRows db lang categoryRaw)) \<rparr>"
proof -
  have ne: "rangeOf c (c + l - 1) (categoryRows db lang categoryRaw) \<noteq> []"
    using assms(8,9) by auto
  show ?thesis
    unfolding getEbooksCategory_rows[OF assms(1,2,3,4)] Let_def
      assms(5)[symmetric] assms(6)[symmetric] assms(7)[symmetric]
    using ne by (simp add: assms(8))
qed

text \<open>
  C7, as stated: the list of items is no longer than the limit, and \<open>nextCursor\<close> is null
  exactly when fewer than \<open>limit\<close> rows were returned or the computed offset has reached the
  known total. Three requests on stores with ten and with five rows of one category and author:
  a search with exactly ten matches, read from offset 0 with limit 10, returns the ten items
  and the total 10, so the offset has reached the total, and its \<open>nextCursor\<close> is 10; the
  listing of the category with the limit 3 returns ten items, the limit of the payload being
  10; and where the precomputed count says 100 but five rows exist, the listing of the
  category returns the five rows, fewer than the limit 10, with the \<open>nextCursor\<close> 5.
\<close>

theorem pagination_as_stated_fails:
  "map_option cursor (payload (getEbooksSearch tenRowStore ''en'' (Some ''emma'') (Some ''0'') (Some ''10''))) = Some 0
   \<and> map_option limit (payload (getEbooksSearch tenRowStore ''en'' (Some ''emma'') (Some ''0'') (Some ''10''))) = Some 10
   \<and> map_option (length \<circ> items) (payload (getEbooksSearch tenRowStore ''en'' (Some ''emma'') (Some ''0'') (Some ''10''))) = Some 10
   \<and> map_option total (payload (getEbooksSearch tenRowStore ''en'' (Some ''emma'') (Some ''0'') (Some ''10''))) = Some (Some 10)
   \<and> map_option nextCursor (payload (getEbooksSearch tenRowStore ''en'' (Some ''emma'') (Some ''0'') (Some ''10''))) = Some (Some 10)
   \<and> map_option limit (payload (getEbooksCategory tenRowStore ''en'' (Some ''Romance'') (Some ''0'') (Some ''3'') None)) = Some 10
   \<and> map_option (length \<circ> items) (payload (getEbooksCategory tenRowStore ''en'' (Some ''Romance'') (Some ''0'') (Some ''3'') None)) = Some 10
   \<and> map_option limit (payload (getEbooksCategory fiveRowStore ''en'' (Some ''Romance'') (Some ''0'') (Some ''10'') None)) = Some 10
   \<and> map_option (length \<circ> items) (payload (getEbooksCategory fiveRowStore ''en'' (Some ''Romance'') (Some ''0'') (Some ''10'') None)) = Some 5
   \<and> map_option nextCursor (payload (getEbooksCategory fiveRowStore ''en'' (Some ''Romance'') (Some ''0'') (Some ''10'') None)) = Some (Some 5)"
proof -
  let ?hits = "filter (\<lambda>r. lang_code r = ''en'' \<and> download_url r \<noteq> []
                  \<and> (ilikeContains (title_norm r) ''emma'' \<or> ilikeContains (author_norm r) ''emma''))
                (items_table tenRowStore)"
  have a: "available tenRowStore" by (simp add: tenRowStore_def)
  have q: "''emma'' = trim (emptyIfNone (Some ''emma''))" by code_simp
  have w: "''emma'' = normalizeSearchKey ''emma''" by code_simp
  have c: "0 = clampInt (Some ''0'') 0 9999999 0" by code_simp
  have l: "10 = clampInt (Some ''10'') 10 100 40" by code_simp
  have l3: "10 = clampInt (Some ''3'') 10 100 40" by code_simp
  have h: "length ?hits = 10" by code_simp
  have n: "length (rangeOf 0 (0 + 10 - 1) (orderRows ?hits)) = 10"
    using h by (simp add: rangeOf_def)
  have ne: "?hits \<noteq> []" using h by auto
  have s: "map_option cursor (payload (getEbooksSearch tenRowStore ''en'' (Some ''emma'') (Some ''0'') (Some ''10''))) = Some 0
   \<and> map_option limit (payload (getEbooksSearch tenRowStore ''en'' (Some ''emma'') (Some ''0'') (Some ''10''))) = Some 10
   \<and> map_option (length \<circ> items) (payload (getEbooksSearch tenRowStore ''en'' (Some ''emma'') (Some ''0'') (Some ''10''))) = Some 10
   \<and> map_option total (payload (getEbooksSearch tenRowStore ''en'' (Some ''emma'') (Some ''0'') (Some ''10''))) = Some (Some 10)
   \<and> map_option nextCursor (payload (getEbooksSearch tenRowStore ''en'' (Some ''emma'') (Some ''0'') (Some ''10''))) = Some (Some 10)"
    unfolding getEbooksSearch_page[OF a q _ w _ refl c l refl, simplified]
    using h n ne by (simp add: payload_def)
  have r: "''Romance'' = trim (emptyIfNone (Some ''Romance''))" by code_simp
  have cr: "selectCategoryCount tenRowStore ''en'' ''Romance'' = Inr (Some (''en'', ''Romance'', 10))"
    by code_simp
  have clen: "length (categoryRows tenRowStore ''en'' ''Romance'') = 10" by code_simp
  have n3: "length (rangeOf 0 (0 + 10 - 1) (categoryRows tenRowStore ''en'' ''Romance'')) = 10"
    using clen by (simp add: rangeOf_def)
  have g3: "map_option limit (payload (getEbooksCategory tenRowStore ''en'' (Some ''Romance'') (Some ''0'') (Some ''3'') None)) = Some 10
   \<and> map_option (length \<circ> items) (payload (getEbooksCategory tenRowStore ''en'' (Some ''Romance'') (Some ''0'') (Some ''3'') None)) = Some 10"
    unfolding getEbooksCategory_page[OF a r _ cr c l3 refl refl, simplified n3, simplified]
    using n3 by (simp add: payload_def)
  have a5: "available fiveRowStore" by (simp add: fiveRowStore_def)
  have cr5: "selectCategoryCount fiveRowStore ''en'' ''Romance'' = Inr (Some (''en'', ''Romance'', 100))"
    by code_simp
  have clen5: "length (categoryRows fiveRowStore ''en'' ''Romance'') = 5" by code_simp
  have n5: "length (rangeOf 0 (0 + 10 - 1) (categoryRows fiveRowStore ''en'' ''Romance'')) = 5"
    using clen5 by (simp add: rangeOf_def)
  have g5: "map_option limit (payload (getEbooksCategory fiveRowStore ''en'' (Some ''Romance'') (Some ''0'') (Some ''10'') None)) = Some 10
   \<and> map_option (length \<circ> items) (payload (getEbooksCategory fiveRowStore ''en'' (Some ''Romance'') (Some ''0'') (Some ''10'') None)) = Some 5
   \<and> map_option nextCursor (payload (getEbooksCategory fiveRowStore ''en'' (Some ''Romance'') (Some ''0'') (Some ''10'') None)) = Some (Some 5)"
    unfolding getEbooksCategory_page[OF a5 r _ cr5 c l refl refl, simplified n5, simplified]
    using n5 by (simp add: payload_def)
  show ?thesis using s g3 g5 by simp
qed

text \<open>
  C7, amended: for every paginated read operation, the returned list of items is no longer than
  the limit of the payload, which is the requested limit clamped to 10 to 100 (10 to 200 for
  the list of categories; 40, respectively 60, when it is absent or not a number), and a
  \<open>nextCursor\<close> that is not null is the cursor plus the number of rows returned. In the list
  of categories and in the search, \<open>nextCursor\<close> is null if and only if fewer than that limit
  of rows were returned. In the listing of a single category and of a single author, a page
  without items has a null \<open>nextCursor\<close>, and a page with items, read while a positive
  precomputed count is stored for the category or the author, has a null \<open>nextCursor\<close> if and
  only if the cursor plus the number of items has reached that count.
\<close>

theorem pagination_contract:
  "(getEbooksCategories db lang cursorParam limitParam = Json pc \<longrightarrow>
      int (length (items pc)) \<le> limit pc
      \<and> limit pc = clampInt limitParam 10 200 60 \<and> 10 \<le> limit pc \<and> limit pc \<le> 200
      \<and> (\<exists>rows. selectCategoryCounts db lang (cursor pc) (cursor pc + limit pc - 1) = Inr rows
            \<and> length (items pc) \<le> length rows \<and> int (length rows) \<le> limit pc
            \<and> (nextCursor pc = None \<longleftrightarrow> int (length rows) < limit pc)
            \<and> (\<forall>c. nextCursor pc = Some c \<longrightarrow> c = cursor pc + int (length rows))))
   \<and> (getEbooksSearch db lang qParam cursorParam limitParam = Json ps \<longrightarrow>
      int (length (items ps)) \<le> limit ps
      \<and> limit ps = clampInt limitParam 10 100 40 \<and> 10 \<le> limit ps \<and> limit ps \<le> 100
      \<and> (nextCursor ps = None \<longleftrightarrow> int (length (items ps)) < limit ps)
      \<and> (\<forall>c. nextCursor ps = Some c \<longrightarrow> c = cursor ps + int (length (items ps))))
   \<and> (getEbooksCategory db lang categoryParam cursorParam limitParam allowEmptyParam = Json p \<longrightarrow>
      int (length (items p)) \<le> limit p
      \<and> limit p = clampInt limitParam 10 100 40 \<and> 10 \<le> limit p \<and> limit p \<le> 100
      \<and> (items p = [] \<longrightarrow> nextCursor p = None)
      \<and> (\<forall>l c n. selectCategoryCount db lang (trim (emptyIfNone categoryParam)) = Inr (Some (l, c, n))
             \<and> 0 < n \<and> items p \<noteq> []
           \<longrightarrow> (nextCursor p = None \<longleftrightarrow> n \<le> cursor p + int (length (items p))))
      \<and> (\<forall>c. nextCursor p = Some c \<longrightarrow> c = cursor p + int (length (items p))))
   \<and> (getEbooksAuthor db lang authorParam cursorParam limitParam = Json pa \<longrightarrow>
      int (length (items pa)) \<le> limit pa
      \<and> limit pa = clampInt limitParam 10 100 40 \<and> 10 \<le> limit pa \<and> limit pa \<le> 100
      \<and> (\<forall>l a an n. selectAuthorCount db lang
               (normalizeForCatalogNorm (normalizeAuthorKey (trim (emptyIfNone authorParam))))
             = Inr (Some (l, a, an, n)) \<and> 0 < n
           \<longrightarrow> (nextCursor pa = None \<longleftrightarrow> n \<le> cursor pa + int (length (items pa))))
      \<and> (\<forall>c. nextCursor pa = Some c \<longrightarrow> c = cursor pa + int (length (items pa))))"
proof -
  let ?c = "clampInt cursorParam 0 9999999 0" and ?l = "clampInt limitParam 10 100 40"
  let ?l2 = "clampInt limitParam 10 200 60"
  have cb: "0 \<le> ?c" by (rule cursor_bounds)
  have lb: "10 \<le> ?l" using limit_bounds by simp
  have ub: "?l \<le> 100" using limit_bounds by simp
  have lb2: "10 \<le> ?l2" using limit_bounds_200 by simp
  have ub2: "?l2 \<le> 200" using limit_bounds_200 by simp
  have p1: "getEbooksCategories db lang cursorParam limitParam = Json pc \<longrightarrow>
      int (length (items pc)) \<le> limit pc
      \<and> limit pc = clampInt limitParam 10 200 60 \<and> 10 \<le> limit pc \<and> limit pc \<le> 200
      \<and> (\<exists>rows. selectCategoryCounts db lang (cursor pc) (cursor pc + limit pc - 1) = Inr rows
            \<and> length (items pc) \<le> length rows \<and> int (length rows) \<le> limit pc
            \<and> (nextCursor pc = None \<longleftrightarrow> int (length rows) < limit pc)
            \<and> (\<forall>c. nextCursor pc = Some c \<longrightarrow> c = cursor pc + int (length rows)))"
  proof
    assume h: "getEbooksCategories db lang cursorParam limitParam = Json pc"
    then obtain rows where r: "selectCategoryCounts db lang ?c (?c + ?l2 - 1) = Inr rows"
      and pc: "pc = \<lparr> total = None, cursor = ?c, limit = ?l2,
                    nextCursor = (if int (length rows) \<ge> ?l2 then Some (?c + int (length rows)) else None),
                    items = map (\<lambda>(l, c, n). (trim c, max 0 n)) (filter (\<lambda>(l, c, n). trim c \<noteq> []) rows) \<rparr>"
      by (auto simp: getEbooksCategories_def Let_def split: sum.splits)
    have "\<exists>xs. rows = rangeOf ?c (?c + ?l2 - 1) xs"
      using r by (auto simp: selectCategoryCounts_def split: if_splits)
    then have rl: "int (length rows) \<le> ?l2" using range_length_le[OF cb lb2] by auto
    have il: "length (items pc) \<le> length rows" by (simp add: pc)
    have lp: "limit pc = ?l2" by (simp add: pc)
    have q1: "int (length (items pc)) \<le> limit pc" using lp il rl by linarith
    have q2: "\<exists>rows. selectCategoryCounts db lang (cursor pc) (cursor pc + limit pc - 1) = Inr rows
            \<and> length (items pc) \<le> length rows \<and> int (length rows) \<le> limit pc
            \<and> (nextCursor pc = None \<longleftrightarrow> int (length rows) < limit pc)
            \<and> (\<forall>c. nextCursor pc = Some c \<longrightarrow> c = cursor pc + int (length rows))"
      using r rl il by (intro exI[of _ rows]) (auto simp: pc)
    have q3: "10 \<le> limit pc" "limit pc \<le> 200" using lp lb2 ub2 by simp_all
    show "int (length (items pc)) \<le> limit pc
      \<and> limit pc = clampInt limitParam 10 200 60 \<and> 10 \<le> limit pc \<and> limit pc \<le> 200
      \<and> (\<exists>rows. selectCategoryCounts db lang (cursor pc) (cursor pc + limit pc - 1) = Inr rows
            \<and> length (items pc) \<le> length rows \<and> int (length rows) \<le> limit pc
            \<and> (nextCursor pc = None \<longleftrightarrow> int (length rows) < limit pc)
            \<and> (\<forall>c. nextCursor pc = Some c \<longrightarrow> c = cursor pc + int (length rows)))"
      using q1 lp q3 q2 by (intro conjI)
  qed
  have p2: "getEbooksSearch db lang qParam cursorParam limitParam = Json ps \<longrightarrow>
      int (length (items ps)) \<le> limit ps
      \<and> limit ps = clampInt limitParam 10 100 40 \<and> 10 \<le> limit ps \<and> limit ps \<le> 100
      \<and> (nextCursor ps = None \<longleftrightarrow> int (length (items ps)) < limit ps)
      \<and> (\<forall>c. nextCursor ps = Some c \<longrightarrow> c = cursor ps + int (length (items ps)))"
  proof
    assume h: "getEbooksSearch db lang qParam cursorParam limitParam = Json ps"
    let ?want = "normalizeSearchKey (trim (emptyIfNone qParam))"
    show "int (length (items ps)) \<le> limit ps
      \<and> limit ps = clampInt limitParam 10 100 40 \<and> 10 \<le> limit ps \<and> limit ps \<le> 100
      \<and> (nextCursor ps = None \<longleftrightarrow> int (length (items ps)) < limit ps)
      \<and> (\<forall>c. nextCursor ps = Some c \<longrightarrow> c = cursor ps + int (length (items ps)))"
    proof (cases "?want = []")
      case True
      then have "ps = \<lparr> total = Some 0, cursor = ?c, limit = ?l, nextCursor = None, items = [] \<rparr>"
        using h by (auto simp: getEbooksSearch_def Let_def split: if_splits)
      then show ?thesis using lb ub by simp
    next
      case False
      then obtain rows n where r: "selectSearch db lang ?want ?c (?c + ?l - 1) = Inr (rows, n)"
        and ps: "ps = \<lparr> total = Some (if max 0 (int n) > 0 then max 0 (int n) else ?c + int (length rows)),
                       cursor = ?c, limit = ?l,
                       nextCursor = (if max 0 (int n) > 0 \<and> ?c + int (length rows) < max 0 (int n)
                                     then Some (?c + int (length rows))
                                     else if int (length rows) \<ge> ?l
                                     then Some (?c + int (length rows)) else None),
                       items = map (toApiFromRow lang ''Fiction'') rows \<rparr>"
        using h by (auto simp: getEbooksSearch_def Let_def split: if_splits sum.splits)
      obtain hits where hr: "rows = rangeOf ?c (?c + ?l - 1) hits" and hn: "n = length hits"
        using r by (auto simp: selectSearch_def Let_def split: if_splits)
      have len: "length rows = min (nat ?l) (length hits - nat ?c)"
        using cb lb by (simp add: hr length_rangeOf)
      have rl: "int (length rows) \<le> ?l" using len lb by linarith
      have ex: "int (length rows) < ?l \<Longrightarrow> \<not> (?c + int (length rows) < int n)"
        using len hn cb lb by linarith
      show ?thesis using rl ex lb ub by (auto simp: ps)
    qed
  qed
  have p3: "getEbooksCategory db lang categoryParam cursorParam limitParam allowEmptyParam = Json p \<longrightarrow>
      int (length (items p)) \<le> limit p
      \<and> limit p = clampInt limitParam 10 100 40 \<and> 10 \<le> limit p \<and> limit p \<le> 100
      \<and> (items p = [] \<longrightarrow> nextCursor p = None)
      \<and> (\<forall>l c n. selectCategoryCount db lang (trim (emptyIfNone categoryParam)) = Inr (Some (l, c, n))
             \<and> 0 < n \<and> items p \<noteq> []
           \<longrightarrow> (nextCursor p = None \<longleftrightarrow> n \<le> cursor p + int (length (items p))))
      \<and> (\<forall>c. nextCursor p = Some c \<longrightarrow> c = cursor p + int (length (items p)))"
  proof
    assume h: "getEbooksCategory db lang categoryParam cursorParam limitParam allowEmptyParam = Json p"
    then obtain cr where a: "available db" "trim (emptyIfNone categoryParam) \<noteq> []"
      and cr: "selectCategoryCount db lang (trim (emptyIfNone categoryParam)) = Inr cr"
      using getEbooksCategory_Json by blast
    let ?rows = "rangeOf ?c (?c + ?l - 1) (categoryRows db lang (trim (emptyIfNone categoryParam)))"
    have rl: "int (length ?rows) \<le> ?l" by (rule range_length_le[OF cb lb])
    show "int (length (items p)) \<le> limit p
      \<and> limit p = clampInt limitParam 10 100 40 \<and> 10 \<le> limit p \<and> limit p \<le> 100
      \<and> (items p = [] \<longrightarrow> nextCursor p = None)
      \<and> (\<forall>l c n. selectCategoryCount db lang (trim (emptyIfNone categoryParam)) = Inr (Some (l, c, n))
             \<and> 0 < n \<and> items p \<noteq> []
           \<longrightarrow> (nextCursor p = None \<longleftrightarrow> n \<le> cursor p + int (length (items p))))
      \<and> (\<forall>c. nextCursor p = Some c \<longrightarrow> c = cursor p + int (length (items p)))"
      using h rl cb lb ub unfolding getEbooksCategory_rows[OF a(1) refl a(2) cr] Let_def cr
      by (auto split: if_splits)
  qed
  have p4: "getEbooksAuthor db lang authorParam cursorParam limitParam = Json pa \<longrightarrow>
      int (length (items pa)) \<le> limit pa
      \<and> limit pa = clampInt limitParam 10 100 40 \<and> 10 \<le> limit pa \<and> limit pa \<le> 100
      \<and> (\<forall>l a an n. selectAuthorCount db lang
               (normalizeForCatalogNorm (normalizeAuthorKey (trim (emptyIfNone authorParam))))
             = Inr (Some (l, a, an, n)) \<and> 0 < n
           \<longrightarrow> (nextCursor pa = None \<longleftrightarrow> n \<le> cursor pa + int (length (items pa))))
      \<and> (\<forall>c. nextCursor pa = Some c \<longrightarrow> c = cursor pa + int (length (items pa)))"
  proof
    assume h: "getEbooksAuthor db lang authorParam cursorParam limitParam = Json pa"
    then obtain cr where a: "available db" "trim (emptyIfNone authorParam) \<noteq> []"
      and cr: "selectAuthorCount db lang
            (normalizeForCatalogNorm (normalizeAuthorKey (trim (emptyIfNone authorParam)))) = Inr cr"
      using getEbooksAuthor_Json by blast
    let ?rows = "rangeOf ?c (?c + ?l - 1) (authorRows db lang (trim (emptyIfNone authorParam)))"
    have rl: "int (length ?rows) \<le> ?l" by (rule range_length_le[OF cb lb])
    show "int (length (items pa)) \<le> limit pa
      \<and> limit pa = clampInt limitParam 10 100 40 \<and> 10 \<le> limit pa \<and> limit pa \<le> 100
      \<and> (\<forall>l a an n. selectAuthorCount db lang
               (normalizeForCatalogNorm (normalizeAuthorKey (trim (emptyIfNone authorParam))))
             = Inr (Some (l, a, an, n)) \<and> 0 < n
           \<longrightarrow> (nextCursor pa = None \<longleftrightarrow> n \<le> cursor pa + int (length (items pa))))
      \<and> (\<forall>c. nextCursor pa = Some c \<longrightarrow> c = cursor pa + int (length (items pa)))"
      using h rl cb lb ub unfolding getEbooksAuthor_rows[OF a(1) refl a(2) cr] Let_def cr
      by (auto split: if_splits)
  qed
  show ?thesis using p1 p2 p3 p4 by (intro conjI)
qed

text \<open>
  The four operations on the store with ten rows, whose counts are 10, read from offset 0 with
  limit 10: each returns a page, and the rules of the theorem hold of it. The category read
  from offset 50 with \<open>allowEmpty\<close> set returns a page without items.
\<close>

theorem pagination_contract_witness:
  "(\<exists>pc. getEbooksCategories tenRowStore ''en'' (Some ''0'') (Some ''10'') = Json pc
        \<and> int (length (items pc)) \<le> limit pc)
   \<and> (\<exists>ps. getEbooksSearch tenRowStore ''en'' (Some ''emma'') (Some ''0'') (Some ''10'') = Json ps
        \<and> int (length (items ps)) \<le> limit ps
        \<and> (nextCursor ps = None \<longleftrightarrow> int (length (items ps)) < limit ps))
   \<and> (\<exists>p. getEbooksCategory tenRowStore ''en'' (Some ''Romance'') (Some ''0'') (Some ''10'') None = Json p
        \<and> int (length (items p)) \<le> limit p
        \<and> (nextCursor p = None \<longleftrightarrow> 10 \<le> cursor p + int (length (items p))))
   \<and> (\<exists>pa. getEbooksAuthor tenRowStore ''en'' (Some ''Jane Austen'') (Some ''0'') (Some ''10'') = Json pa
        \<and> int (length (items pa)) \<le> limit pa
        \<and> (nextCursor pa = None \<longleftrightarrow> 10 \<le> cursor pa + int (length (items pa))))
   \<and> (\<exists>p0. getEbooksCategory tenRowStore ''en'' (Some ''Romance'') (Some ''50'') (Some ''10'') (Some ''1'')
          = Json p0 \<and> items p0 = [] \<and> nextCursor p0 = None)"
proof -
  have a: "available tenRowStore" by (simp add: tenRowStore_def)
  have c: "clampInt (Some ''0'') 0 9999999 0 = 0" by code_simp
  have l: "clampInt (Some ''10'') 10 100 40 = 10" by code_simp
  have "getEbooksCategories tenRowStore ''en'' (Some ''0'') (Some ''10'')
      = Json \<lparr> total = None, cursor = 0, limit = 10, nextCursor = None, items = [(''Romance'', 10)] \<rparr>"
    by code_simp
  then obtain pc where pc: "getEbooksCategories tenRowStore ''en'' (Some ''0'') (Some ''10'') = Json pc"
    by blast
  have q: "''emma'' = trim (emptyIfNone (Some ''emma''))" by code_simp
  have w: "''emma'' = normalizeSearchKey ''emma''" by code_simp
  obtain ps where ps: "getEbooksSearch tenRowStore ''en'' (Some ''emma'') (Some ''0'') (Some ''10'') = Json ps"
    using getEbooksSearch_page[OF a q _ w _ refl refl refl refl, simplified] by blast
  have cne: "trim (emptyIfNone (Some ''Romance'')) \<noteq> []" by code_simp
  have cr: "selectCategoryCount tenRowStore ''en'' (trim (emptyIfNone (Some ''Romance'')))
      = Inr (Some (''en'', ''Romance'', 10))"
    by code_simp
  have clen: "length (categoryRows tenRowStore ''en'' (trim (emptyIfNone (Some ''Romance'')))) = 10"
    by code_simp
  then have cne2: "rangeOf 0 (0 + 10 - 1) (categoryRows tenRowStore ''en'' (trim (emptyIfNone (Some ''Romance'')))) \<noteq> []"
    by (auto simp: rangeOf_def)
  then obtain p where p: "getEbooksCategory tenRowStore ''en'' (Some ''Romance'') (Some ''0'') (Some ''10'') None = Json p"
    and ip: "items p \<noteq> []"
    unfolding getEbooksCategory_rows[OF a refl cne cr] Let_def c l by simp
  have ane: "trim (emptyIfNone (Some ''Jane Austen'')) \<noteq> []" by code_simp
  have ar: "selectAuthorCount tenRowStore ''en''
      (normalizeForCatalogNorm (normalizeAuthorKey (trim (emptyIfNone (Some ''Jane Austen'')))))
      = Inr (Some (''en'', ''Jane Austen'', ''jane austen'', 10))"
    by code_simp
  have alen: "length (authorRows tenRowStore ''en'' (trim (emptyIfNone (Some ''Jane Austen'')))) = 10"
    by code_simp
  then have "rangeOf 0 (0 + 10 - 1) (authorRows tenRowStore ''en'' (trim (emptyIfNone (Some ''Jane Austen'')))) \<noteq> []"
    by (auto simp: rangeOf_def)
  then obtain pa where pa: "getEbooksAuthor tenRowStore ''en'' (Some ''Jane Austen'') (Some ''0'') (Some ''10'') = Json pa"
    unfolding getEbooksAuthor_rows[OF a refl ane ar] Let_def c l by simp
  note P = pagination_contract[where db = tenRowStore and lang = "''en''" and cursorParam = "Some ''0''"
        and limitParam = "Some ''10''" and qParam = "Some ''emma''" and categoryParam = "Some ''Romance''"
        and allowEmptyParam = None and authorParam = "Some ''Jane Austen''"
        and pc = pc and ps = ps and p = p and pa = pa]
  note P1 = P[THEN conjunct1, rule_format, OF pc]
  note P2 = P[THEN conjunct2, THEN conjunct1, rule_format, OF ps]
  note P3 = P[THEN conjunct2, THEN conjunct2, THEN conjunct1, rule_format, OF p]
  note P4 = P[THEN conjunct2, THEN conjunct2, THEN conjunct2, rule_format, OF pa]
  have t1: "int (length (items pc)) \<le> limit pc"
    using P1 by (rule conjunct1)
  have t2: "int (length (items ps)) \<le> limit ps
      \<and> (nextCursor ps = None \<longleftrightarrow> int (length (items ps)) < limit ps)"
    using P2 by simp
  have t3: "int (length (items p)) \<le> limit p"
    using P3 by (rule conjunct1)
  have t3n: "\<forall>l c n. selectCategoryCount tenRowStore ''en'' (trim (emptyIfNone (Some ''Romance'')))
               = Inr (Some (l, c, n)) \<and> 0 < n \<and> items p \<noteq> []
           \<longrightarrow> (nextCursor p = None \<longleftrightarrow> n \<le> cursor p + int (length (items p)))"
    using P3 by blast
  have t3c: "nextCursor p = None \<longleftrightarrow> 10 \<le> cursor p + int (length (items p))"
    using t3n[rule_format, of "''en''" "''Romance''" 10] cr ip by simp
  have t4: "int (length (items pa)) \<le> limit pa"
    using P4 by (rule conjunct1)
  have t4n: "\<forall>l a an n. selectAuthorCount tenRowStore ''en''
               (normalizeForCatalogNorm (normalizeAuthorKey (trim (emptyIfNone (Some ''Jane Austen'')))))
             = Inr (Some (l, a, an, n)) \<and> 0 < n
           \<longrightarrow> (nextCursor pa = None \<longleftrightarrow> n \<le> cursor pa + int (length (items pa)))"
    using P4 by blast
  have t4c: "nextCursor pa = None \<longleftrightarrow> 10 \<le> cursor pa + int (length (items pa))"
    using t4n[rule_format, of "''en''" "''Jane Austen''" "''jane austen''" 10] ar by simp
  have e1: "\<exists>pc. getEbooksCategories tenRowStore ''en'' (Some ''0'') (Some ''10'') = Json pc
        \<and> int (length (items pc)) \<le> limit pc"
    using pc t1 by (intro exI[of _ pc] conjI)
  have e2: "\<exists>ps. getEbooksSearch tenRowStore ''en'' (Some ''emma'') (Some ''0'') (Some ''10'') = Json ps
        \<and> int (length (items ps)) \<le> limit ps
        \<and> (nextCursor ps = None \<longleftrightarrow> int (length (items ps)) < limit ps)"
    using ps t2 by (intro exI[of _ ps] conjI) simp_all
  have e3: "\<exists>p. getEbooksCategory tenRowStore ''en'' (Some ''Romance'') (Some ''0'') (Some ''10'') None = Json p
        \<and> int (length (items p)) \<le> limit p
        \<and> (nextCursor p = None \<longleftrightarrow> 10 \<le> cursor p + int (length (items p)))"
    using p t3 t3c by (intro exI[of _ p] conjI)
  have e4: "\<exists>pa. getEbooksAuthor tenRowStore ''en'' (Some ''Jane Austen'') (Some ''0'') (Some ''10'') = Json pa
        \<and> int (length (items pa)) \<le> limit pa
        \<and> (nextCursor pa = None \<longleftrightarrow> 10 \<le> cursor pa + int (length (items pa)))"
    using pa t4 t4c by (intro exI[of _ pa] conjI)
  have c50: "clampInt (Some ''50'') 0 9999999 0 = 50" by code_simp
  have fl: "isTrueFlag (Some ''1'')" by code_simp
  have r50: "rangeOf 50 (50 + 10 - 1) (categoryRows tenRowStore ''en'' (trim (emptyIfNone (Some ''Romance'')))) = []"
    using clen by (simp add: rangeOf_def)
  have g0: "getEbooksCategory tenRowStore ''en'' (Some ''Romance'') (Some ''50'') (Some ''10'') (Some ''1'')
      = Json \<lparr> total = Some 0, cursor = 50, limit = 10, nextCursor = None, items = [] \<rparr>"
    unfolding getEbooksCategory_rows[OF a refl cne cr] Let_def c50 l using r50 fl by simp
  then obtain p0 where p0: "getEbooksCategory tenRowStore ''en'' (Some ''Romance'') (Some ''50'') (Some ''10'') (Some ''1'')
      = Json p0" and i0: "items p0 = []"
    by simp
  note Q = pagination_contract[where db = tenRowStore and lang = "''en''" and cursorParam = "Some ''50''"
        and limitParam = "Some ''10''" and categoryParam = "Some ''Romance''"
        and allowEmptyParam = "Some ''1''" and p = p0]
  note Q3 = Q[THEN conjunct2, THEN conjunct2, THEN conjunct1, rule_format, OF p0]
  have "items p0 = [] \<longrightarrow> nextCursor p0 = None" using Q3 by blast
  then have n0: "nextCursor p0 = None" using i0 by simp
  have e5: "\<exists>p0. getEbooksCategory tenRowStore ''en'' (Some ''Romance'') (Some ''50'') (Some ''10'') (Some ''1'')
          = Json p0 \<and> items p0 = [] \<and> nextCursor p0 = None"
    using p0 i0 n0 by (intro exI[of _ p0] conjI)
  show ?thesis using e1 e2 e3 e4 e5 by (intro conjI)
qed

section \<open>The import never downgrades a persisted row\<close>

declare trim_idem [simp]

lemma emptyIfNone_Some [simp]: "emptyIfNone (Some s) = s" by (simp add: emptyIfNone_def)
lemma emptyIfNone_None [simp]: "emptyIfNone None = []" by (simp add: emptyIfNone_def)
lemma trim_Nil [simp]: "trim [] = []" by (simp add: trim_def)

lemma mergeExisting_keeps:
  assumes "mergeExisting lang nowIso importSource existing row = Some merged"
  shows "id_col merged = id_col existing
     \<and> (trim (download_url existing) \<noteq> [] \<longrightarrow> download_url merged = trim (download_url existing))
     \<and> (trim (download_url existing) = [] \<longrightarrow> download_url merged = download_url row)
     \<and> (trim (emptyIfNone (cover_url merged)) \<noteq> trim (emptyIfNone (cover_url existing)) \<longrightarrow>
          trim (emptyIfNone (cover_url merged)) = trim (emptyIfNone (cover_url row))
          \<and> (trim (emptyIfNone (cover_url existing)) = []
             \<or> isProbablyGenericGutenbergCover (Some (trim (emptyIfNone (cover_url existing))))))
     \<and> (\<forall>c. cover_url existing = Some c \<and> trim c = c \<and> c \<noteq> []
            \<and> \<not> isProbablyGenericGutenbergCover (Some c) \<longrightarrow> cover_url merged = Some c)"
proof -
  have m: "merged = mergedRow lang nowIso importSource existing row"
    using assms by (simp add: mergeExisting_def split: if_splits)
  have d: "download_url merged = orElse (trim (download_url existing)) (download_url row)"
    by (simp add: m mergedRow_def existingDl_def)
  have c: "\<not> canUpgradeCover existing row \<Longrightarrow>
      trim (emptyIfNone (cover_url merged)) = trim (emptyIfNone (cover_url existing))"
    by (simp add: m mergedRow_def existingCover_def)
  have u: "canUpgradeCover existing row \<Longrightarrow>
      trim (emptyIfNone (cover_url merged)) = trim (emptyIfNone (cover_url row))
      \<and> (trim (emptyIfNone (cover_url existing)) = []
        \<or> isProbablyGenericGutenbergCover (Some (trim (emptyIfNone (cover_url existing)))))"
    by (simp add: m mergedRow_def canUpgradeCover_def existingCover_def incomingCover_def)
  have i: "id_col merged = id_col existing" by (simp add: m mergedRow_def)
  have k: "\<forall>c. cover_url existing = Some c \<and> trim c = c \<and> c \<noteq> []
            \<and> \<not> isProbablyGenericGutenbergCover (Some c) \<longrightarrow> cover_url merged = Some c"
    by (simp add: m mergedRow_def canUpgradeCover_def existingCover_def)
  have "(trim (download_url existing) \<noteq> [] \<longrightarrow> download_url merged = trim (download_url existing))
     \<and> (trim (download_url existing) = [] \<longrightarrow> download_url merged = download_url row)"
    using d by (simp add: orElse_def)
  moreover have "trim (emptyIfNone (cover_url merged)) \<noteq> trim (emptyIfNone (cover_url existing)) \<longrightarrow>
          trim (emptyIfNone (cover_url merged)) = trim (emptyIfNone (cover_url row))
          \<and> (trim (emptyIfNone (cover_url existing)) = []
             \<or> isProbablyGenericGutenbergCover (Some (trim (emptyIfNone (cover_url existing)))))"
    using c u by blast
  ultimately show ?thesis using i k by blast
qed

lemma lookup_filtered:
  "i \<in> S \<Longrightarrow>
     map_of (rev (map (\<lambda>r. (id_col r, r)) (filter (\<lambda>r. id_col r \<in> S) xs))) i
       = map_of (rev (map (\<lambda>r. (id_col r, r)) xs)) i"
  by (induction xs) (auto simp: map_of_append map_add_def split: option.splits)

lemma fetchExistingByIds_lookup:
  assumes "fetchExistingByIds db ids = Inr m" and "i \<in> set ids"
  shows "m i = lookupExisting db i"
proof -
  have "ids \<noteq> []" using assms(2) by auto
  then have "m = map_of (rev (map (\<lambda>r. (id_col r, r)) (filter (\<lambda>r. id_col r \<in> set ids) (items_table db))))"
    using assms(1) by (auto simp: fetchExistingByIds_def split: if_splits)
  then show ?thesis using lookup_filtered[OF assms(2)] by (simp add: lookupExisting_def)
qed

lemma lookupExisting_id: "lookupExisting db i = Some e \<Longrightarrow> id_col e = i \<and> e \<in> set (items_table db)"
  by (auto simp: lookupExisting_def dest!: map_of_SomeD)

lemma planBatch_rows:
  assumes "fetchExistingByIds db (map id_col batch) = Inr m"
  shows "planBatch lang nowIso importSource m batch = concat (map (planRow db lang nowIso importSource) batch)"
proof -
  have h: "\<And>row. row \<in> set batch \<Longrightarrow> m (id_col row) = lookupExisting db (id_col row)"
    using fetchExistingByIds_lookup[OF assms] by auto
  have "map (\<lambda>row. case m (id_col row) of
                          None \<Rightarrow> [row]
                        | Some existing \<Rightarrow>
                            (case mergeExisting lang nowIso importSource existing row of
                               None \<Rightarrow> []
                             | Some merged \<Rightarrow> [merged])) batch
      = map (planRow db lang nowIso importSource) batch"
    by (rule map_cong[OF refl]) (simp add: planRow_def h)
  then show ?thesis unfolding planBatch_def by (rule arg_cong)
qed

lemma importPlan_rows:
  "importPlan db lang nowIso importSource incoming = Inr toUpsert \<Longrightarrow>
     toUpsert = concat (map (planRow db lang nowIso importSource) incoming)"
proof (induction db lang nowIso importSource incoming arbitrary: toUpsert rule: importPlan.induct)
  case (1 db lang nowIso importSource incoming)
  show ?case
  proof (cases "incoming = []")
    case True
    then show ?thesis using 1(2) by (subst (asm) importPlan.simps) simp
  next
    case False
    obtain m later where f: "fetchExistingByIds db (map id_col (take 200 incoming)) = Inr m"
      and l: "importPlan db lang nowIso importSource (drop 200 incoming) = Inr later"
      and t: "toUpsert = planBatch lang nowIso importSource m (take 200 incoming) @ later"
      using 1(2) False
      by (subst (asm) importPlan.simps) (auto split: sum.splits)
    have "later = concat (map (planRow db lang nowIso importSource) (drop 200 incoming))"
      using 1(1)[OF False f l] .
    moreover have "planBatch lang nowIso importSource m (take 200 incoming)
        = concat (map (planRow db lang nowIso importSource) (take 200 incoming))"
      using f by (rule planBatch_rows)
    ultimately have "toUpsert = concat (map (planRow db lang nowIso importSource) (take 200 incoming))
        @ concat (map (planRow db lang nowIso importSource) (drop 200 incoming))"
      using t by simp
    also have "\<dots> = concat (map (planRow db lang nowIso importSource) (take 200 incoming @ drop 200 incoming))"
      by (simp only: map_append concat_append)
    finally show ?thesis by (simp only: append_take_drop_id)
  qed
qed

lemma planRow_cases:
  assumes "w \<in> set (planRow db lang nowIso importSource row)"
  shows "(lookupExisting db (id_col row) = None \<and> w = row)
     \<or> (\<exists>existing. lookupExisting db (id_col row) = Some existing
           \<and> mergeExisting lang nowIso importSource existing row = Some w)"
  using assms by (auto simp: planRow_def split: option.splits)

lemma planRow_id:
  assumes "w \<in> set (planRow db lang nowIso importSource row)"
  shows "id_col w = id_col row"
proof -
  from planRow_cases[OF assms] show ?thesis
  proof
    assume "lookupExisting db (id_col row) = None \<and> w = row"
    then show ?thesis by simp
  next
    assume "\<exists>existing. lookupExisting db (id_col row) = Some existing
           \<and> mergeExisting lang nowIso importSource existing row = Some w"
    then obtain existing where e: "lookupExisting db (id_col row) = Some existing"
      and m: "mergeExisting lang nowIso importSource existing row = Some w" by blast
    show ?thesis using mergeExisting_keeps[OF m] lookupExisting_id[OF e] by simp
  qed
qed

text \<open>
  C9: every row the import writes either is an incoming row whose id is not persisted yet, or
  stems from an incoming row and the persisted row of the same id, admits the cover upgrade or
  the download backfill, and keeps the id. In the written row the existing download link,
  when not blank, is kept (as stored when it carries no surrounding white space, trimmed
  otherwise) and only a blank one is backfilled from the incoming row; the cover differs
  from the existing one only when that is blank or a generic Gutenberg cover, and then it is
  the incoming cover. An incoming row with pairwise different ids around it that matches a
  persisted row and admits neither upgrade is not written at all.
\<close>

theorem import_never_downgrades:
  "importPlan db lang nowIso importSource incoming = Inr toUpsert \<Longrightarrow>
     (\<forall>w \<in> set toUpsert. \<exists>row \<in> set incoming.
        (lookupExisting db (id_col row) = None \<and> w = row)
        \<or> (\<exists>existing. lookupExisting db (id_col row) = Some existing
              \<and> id_col existing = id_col row \<and> id_col w = id_col existing
              \<and> (canUpgradeCover existing row \<or> canBackfillDownloadUrl existing row)
              \<and> (trim (download_url existing) \<noteq> [] \<longrightarrow>
                    download_url w = trim (download_url existing))
              \<and> (trim (download_url existing) = [] \<longrightarrow> download_url w = download_url row)
              \<and> (trim (emptyIfNone (cover_url w)) \<noteq> trim (emptyIfNone (cover_url existing)) \<longrightarrow>
                    trim (emptyIfNone (cover_url w)) = trim (emptyIfNone (cover_url row))
                    \<and> (trim (emptyIfNone (cover_url existing)) = []
                       \<or> isProbablyGenericGutenbergCover
                            (Some (trim (emptyIfNone (cover_url existing))))))
              \<and> (download_url existing \<noteq> [] \<and> trim (download_url existing) = download_url existing
                    \<longrightarrow> download_url w = download_url existing)
              \<and> (\<forall>c. cover_url existing = Some c \<and> trim c = c \<and> c \<noteq> []
                       \<and> \<not> isProbablyGenericGutenbergCover (Some c) \<longrightarrow> cover_url w = Some c)))
     \<and> (distinct (map id_col incoming) \<longrightarrow>
          (\<forall>row \<in> set incoming. \<forall>existing.
              lookupExisting db (id_col row) = Some existing
              \<and> \<not> canUpgradeCover existing row \<and> \<not> canBackfillDownloadUrl existing row
              \<longrightarrow> id_col row \<notin> id_col ` set toUpsert))"
proof -
  assume a: "importPlan db lang nowIso importSource incoming = Inr toUpsert"
  have t: "toUpsert = concat (map (planRow db lang nowIso importSource) incoming)"
    using a by (rule importPlan_rows)
  have p1: "\<forall>w \<in> set toUpsert. \<exists>row \<in> set incoming.
        (lookupExisting db (id_col row) = None \<and> w = row)
        \<or> (\<exists>existing. lookupExisting db (id_col row) = Some existing
              \<and> id_col existing = id_col row \<and> id_col w = id_col existing
              \<and> (canUpgradeCover existing row \<or> canBackfillDownloadUrl existing row)
              \<and> (trim (download_url existing) \<noteq> [] \<longrightarrow>
                    download_url w = trim (download_url existing))
              \<and> (trim (download_url existing) = [] \<longrightarrow> download_url w = download_url row)
              \<and> (trim (emptyIfNone (cover_url w)) \<noteq> trim (emptyIfNone (cover_url existing)) \<longrightarrow>
                    trim (emptyIfNone (cover_url w)) = trim (emptyIfNone (cover_url row))
                    \<and> (trim (emptyIfNone (cover_url existing)) = []
                       \<or> isProbablyGenericGutenbergCover
                            (Some (trim (emptyIfNone (cover_url existing))))))
              \<and> (download_url existing \<noteq> [] \<and> trim (download_url existing) = download_url existing
                    \<longrightarrow> download_url w = download_url existing)
              \<and> (\<forall>c. cover_url existing = Some c \<and> trim c = c \<and> c \<noteq> []
                       \<and> \<not> isProbablyGenericGutenbergCover (Some c) \<longrightarrow> cover_url w = Some c))"
  proof
    fix w
    assume "w \<in> set toUpsert"
    then obtain row where r: "row \<in> set incoming"
      and w: "w \<in> set (planRow db lang nowIso importSource row)"
      using t by auto
    from planRow_cases[OF w]
    have "(lookupExisting db (id_col row) = None \<and> w = row)
        \<or> (\<exists>existing. lookupExisting db (id_col row) = Some existing
              \<and> id_col existing = id_col row \<and> id_col w = id_col existing
              \<and> (canUpgradeCover existing row \<or> canBackfillDownloadUrl existing row)
              \<and> (trim (download_url existing) \<noteq> [] \<longrightarrow>
                    download_url w = trim (download_url existing))
              \<and> (trim (download_url existing) = [] \<longrightarrow> download_url w = download_url row)
              \<and> (trim (emptyIfNone (cover_url w)) \<noteq> trim (emptyIfNone (cover_url existing)) \<longrightarrow>
                    trim (emptyIfNone (cover_url w)) = trim (emptyIfNone (cover_url row))
                    \<and> (trim (emptyIfNone (cover_url existing)) = []
                       \<or> isProbablyGenericGutenbergCover
                            (Some (trim (emptyIfNone (cover_url existing))))))
              \<and> (download_url existing \<noteq> [] \<and> trim (download_url existing) = download_url existing
                    \<longrightarrow> download_url w = download_url existing)
              \<and> (\<forall>c. cover_url existing = Some c \<and> trim c = c \<and> c \<noteq> []
                       \<and> \<not> isProbablyGenericGutenbergCover (Some c) \<longrightarrow> cover_url w = Some c))"
    proof
      assume "lookupExisting db (id_col row) = None \<and> w = row"
      then show ?thesis by blast
    next
      assume "\<exists>existing. lookupExisting db (id_col row) = Some existing
           \<and> mergeExisting lang nowIso importSource existing row = Some w"
      then obtain existing where e: "lookupExisting db (id_col row) = Some existing"
        and m: "mergeExisting lang nowIso importSource existing row = Some w" by blast
      have c: "canUpgradeCover existing row \<or> canBackfillDownloadUrl existing row"
        using m by (auto simp: mergeExisting_def split: if_splits)
      have x: "download_url existing \<noteq> [] \<and> trim (download_url existing) = download_url existing
                    \<longrightarrow> download_url w = download_url existing"
        using mergeExisting_keeps[OF m] by auto
      show ?thesis
        using e c x mergeExisting_keeps[OF m] lookupExisting_id[OF e] by blast
    qed
    then show "\<exists>row \<in> set incoming.
        (lookupExisting db (id_col row) = None \<and> w = row)
        \<or> (\<exists>existing. lookupExisting db (id_col row) = Some existing
              \<and> id_col existing = id_col row \<and> id_col w = id_col existing
              \<and> (canUpgradeCover existing row \<or> canBackfillDownloadUrl existing row)
              \<and> (trim (download_url existing) \<noteq> [] \<longrightarrow>
                    download_url w = trim (download_url existing))
              \<and> (trim (download_url existing) = [] \<longrightarrow> download_url w = download_url row)
              \<and> (trim (emptyIfNone (cover_url w)) \<noteq> trim (emptyIfNone (cover_url existing)) \<longrightarrow>
                    trim (emptyIfNone (cover_url w)) = trim (emptyIfNone (cover_url row))
                    \<and> (trim (emptyIfNone (cover_url existing)) = []
                       \<or> isProbablyGenericGutenbergCover
                            (Some (trim (emptyIfNone (cover_url existing))))))
              \<and> (download_url existing \<noteq> [] \<and> trim (download_url existing) = download_url existing
                    \<longrightarrow> download_url w = download_url existing)
              \<and> (\<forall>c. cover_url existing = Some c \<and> trim c = c \<and> c \<noteq> []
                       \<and> \<not> isProbablyGenericGutenbergCover (Some c) \<longrightarrow> cover_url w = Some c))"
      by (rule bexI[OF _ r])
  qed
  have p2: "distinct (map id_col incoming) \<longrightarrow>
          (\<forall>row \<in> set incoming. \<forall>existing.
              lookupExisting db (id_col row) = Some existing
              \<and> \<not> canUpgradeCover existing row \<and> \<not> canBackfillDownloadUrl existing row
              \<longrightarrow> id_col row \<notin> id_col ` set toUpsert)"
  proof (intro impI ballI allI)
    fix row existing
    assume d: "distinct (map id_col incoming)" and r: "row \<in> set incoming"
      and h: "lookupExisting db (id_col row) = Some existing
              \<and> \<not> canUpgradeCover existing row \<and> \<not> canBackfillDownloadUrl existing row"
    have none: "planRow db lang nowIso importSource row = []"
      using h by (simp add: planRow_def mergeExisting_def)
    show "id_col row \<notin> id_col ` set toUpsert"
    proof
      assume "id_col row \<in> id_col ` set toUpsert"
      then obtain w where w: "w \<in> set toUpsert" and i: "id_col w = id_col row" by auto
      then obtain r' where r': "r' \<in> set incoming"
        and w': "w \<in> set (planRow db lang nowIso importSource r')"
        using t by auto
      have "id_col r' = id_col row" using planRow_id[OF w'] i by simp
      moreover have "inj_on id_col (set incoming)" using d by (simp add: distinct_map)
      ultimately have "r' = row" using r r' by (auto dest: inj_onD)
      then show False using w' none by simp
    qed
  qed
  show ?thesis using p1 p2 by (rule conjI)
qed

text \<open>A stored Gutenberg row with a generic cover, and the same book from ManyBooks.\<close>

theorem import_never_downgrades_witness:
  "importPlan oneRowStore ''en'' 5 ''manybooks'' [importedRow] = Inr [upgradedRow]
   \<and> lookupExisting oneRowStore (id_col importedRow) = Some storedRow
   \<and> download_url upgradedRow = download_url storedRow
   \<and> isProbablyGenericGutenbergCover (cover_url storedRow)
   \<and> distinct (map id_col [importedRow])"
proof -
  have e: "importPlan oneRowStore ''en'' 5 ''manybooks'' [importedRow] = Inr [upgradedRow]"
    by code_simp
  have l: "lookupExisting oneRowStore (id_col importedRow) = Some storedRow" by code_simp
  have g: "isProbablyGenericGutenbergCover (cover_url storedRow)" by code_simp
  have d: "download_url upgradedRow = download_url storedRow" by code_simp
  show ?thesis using import_never_downgrades[OF e] e l g d by simp
qed

end
